(* ===== verification/Pget_Prelude.thy ===== *)
theory Pget_Prelude
  imports Main "HOL-Library.Word"
begin

text \<open>
  Shared vocabulary of the development: the machine integer types of the Go source, the
  error values its functions return, and the generic facts on words and lists that the
  component theories use. Apart from the conversion \<open>int64\<close> nothing here models a
  line of \<^verbatim>\<open>util.go\<close>; every component theory imports it.

  \<^item> \<open>u64\<close> is Go's \<^verbatim>\<open>uint64\<close>: \<open>+\<close>, \<open>-\<close> and \<open>*\<close> wrap modulo \<open>2 ^ 64\<close>, \<open>unat\<close>
    reads the value. \<open>i64\<close> is Go's \<^verbatim>\<open>int64\<close>, the same 64 bits read by \<open>sint\<close> and
    compared by \<open>word_sless\<close>; the conversion \<^verbatim>\<open>int64(x)\<close> keeps the bits.
  \<^item> Go's \<^verbatim>\<open>int\<close> (the worker count \<^verbatim>\<open>procs\<close> and loop counters below it) is \<open>int\<close>:
    the source only compares and increments it below \<^verbatim>\<open>procs\<close>, so nothing wraps.
  \<^item> \<open>go_error\<close> are the values of Go's \<^verbatim>\<open>error\<close> that the source builds
    (\<^verbatim>\<open>errors.Errorf\<close>, \<^verbatim>\<open>errors.Wrap\<close>) or receives from the operating system. A
    function that returns only \<^verbatim>\<open>error\<close> returns \<open>go_error option\<close> (\<open>None\<close> is \<^verbatim>\<open>nil\<close>);
    a function that returns a value or an error returns \<open>go_error + 'a\<close>.
  \<^item> \<open>'a outcome\<close> separates returning from dying with a run-time panic.
  \<^item> \<open>platform\<close> holds what the source reads from the operating system besides
    the file system.
  \<^item> \<open>sint_u64\<close>, \<open>sless_zero_u64\<close>, \<open>sle_zero_u64\<close>: which unsigned values are negative
    when read as \<^verbatim>\<open>int64\<close>; \<open>sless_small\<close>: the signed comparison below \<open>2 ^ 63\<close>;
    \<open>upto_map_int\<close>: the indices of a counting loop; \<open>sum_list_map_change\<close>: a sum in
    which one summand changes; \<open>sum_list_diff_add\<close>, \<open>list_all2_sum_le\<close>: sums of
    differences and of lists that are pointwise below one another.
\<close>

section \<open>Fact collections\<close>

named_theorems pget_defs \<open>defining equations of the modelled operations\<close>
named_theorems nowrap \<open>uint64 arithmetic read as arithmetic on nat where nothing wraps\<close>

section \<open>Machine integers\<close>

type_synonym u64 = "64 word"
type_synonym i64 = "64 word"

definition int64 :: "u64 \<Rightarrow> i64" where
  "int64 x = x"

lemma u64_bound: "unat (x :: u64) < 18446744073709551616"
  using unsigned_less [of x, where 'a = nat] by simp

lemma unat_mult_nowrap [nowrap]:
  "unat a * unat b < 18446744073709551616 \<Longrightarrow> unat (a * b :: u64) = unat a * unat b"
  using unat_mult_lem [of a b] by simp

lemma unat_add_nowrap [nowrap]:
  "unat a + unat b < 18446744073709551616 \<Longrightarrow> unat (a + b :: u64) = unat a + unat b"
  using unat_add_lem [of a b] by simp

lemma unat_sub_nowrap [nowrap]:
  "unat b \<le> unat a \<Longrightarrow> unat (a - b :: u64) = unat a - unat b"
  by (simp add: unat_sub word_le_nat_alt)

lemma unat_of_nat_u64 [nowrap]:
  "n < 18446744073709551616 \<Longrightarrow> unat (of_nat n :: u64) = n"
  by (simp add: unat_of_nat)

lemma u64_eq_iff: "(a :: u64) = b \<longleftrightarrow> unat a = unat b"
  by (simp add: word_unat_eq_iff)

text \<open>The largest \<^verbatim>\<open>uint64\<close>: what \<open>0 - 1\<close> wraps to.\<close>

lemma u64_zero_minus_one: "(0 :: u64) - 1 = 18446744073709551615"
  by simp

lemma unat_u64_max: "unat (18446744073709551615 :: u64) = 18446744073709551615"
  by simp

text \<open>
  The signed reading of the same 64 bits: values from \<open>2 ^ 63\<close> upwards are negative
  as \<^verbatim>\<open>int64\<close>.
\<close>

lemma sint_u64: "sint (x :: u64) = (if uint x < 2 ^ 63 then uint x else uint x - 2 ^ 64)"
proof -
  have s: "sint x = (uint x + 2 ^ 63) mod 2 ^ 64 - 2 ^ 63"
    by (simp add: sint_uint signed_take_bit_eq_take_bit_shift take_bit_eq_mod)
  have b: "0 \<le> uint x" "uint x < 2 ^ 64"
    using unsigned_less [of x, where 'a = int] by simp_all
  show ?thesis
  proof (cases "uint x < 2 ^ 63")
    case True
    with b have "(uint x + 2 ^ 63) mod 2 ^ 64 = uint x + 2 ^ 63" by simp
    with True s show ?thesis by simp
  next
    case False
    with b have "(uint x + 2 ^ 63 - 2 ^ 64) mod 2 ^ 64 = uint x + 2 ^ 63 - 2 ^ 64"
      by (intro mod_pos_pos_trivial) simp_all
    then have "(uint x + 2 ^ 63) mod 2 ^ 64 = uint x + 2 ^ 63 - 2 ^ 64"
      by (simp only: minus_mod_self2)
    with False s show ?thesis by simp
  qed
qed

lemma uint_less_half: "uint (x :: u64) < 2 ^ 63 \<longleftrightarrow> unat x < 2 ^ 63"
proof -
  have "int n < 2 ^ 63 \<longleftrightarrow> n < 2 ^ 63" for n :: nat by simp
  from this [of "unat x"] show ?thesis by (simp only: of_nat_unat)
qed

lemma sless_zero_u64: "word_sless (x :: u64) 0 \<longleftrightarrow> 2 ^ 63 \<le> unat x"
proof -
  have "sint x < 0 \<longleftrightarrow> \<not> uint x < 2 ^ 63"
    using unsigned_less [of x, where 'a = int] by (simp add: sint_u64)
  then show ?thesis by (simp only: word_sless_alt sint_0 uint_less_half not_less)
qed

lemma sle_zero_u64: "word_sle 0 (x :: u64) \<longleftrightarrow> unat x < 2 ^ 63"
proof -
  have "word_sle 0 x \<longleftrightarrow> \<not> word_sless x 0" by (simp add: signed.not_less)
  then show ?thesis by (simp only: sless_zero_u64 not_le)
qed

text \<open>Below \<open>2 ^ 63\<close> the signed comparison is the comparison of the values.\<close>

lemma sless_small:
  fixes x y :: u64
  assumes "unat x < 2 ^ 63" and "unat y < 2 ^ 63"
  shows "word_sless x y \<longleftrightarrow> unat x < unat y"
proof -
  have "uint x < 2 ^ 63" "uint y < 2 ^ 63"
    using assms by (simp_all only: uint_less_half)
  then have "sint x = uint x" "sint y = uint y"
    by (simp_all add: sint_u64)
  then show ?thesis by (simp add: word_sless_alt word_less_nat_alt [symmetric] word_less_def)
qed

section \<open>Counting loops\<close>

text \<open>A loop \<^verbatim>\<open>for i := 0; i < n; i++\<close> over Go's \<^verbatim>\<open>int\<close> visits \<open>[0..n - 1]\<close>.\<close>

lemma upto_map_int: "[0..int n - 1] = map int [0..<n]"
proof (induction n)
  case 0
  then show ?case by simp
next
  case (Suc n)
  have "[0..int (Suc n) - 1] = [0..int n - 1] @ [int n]"
    using upto_rec2 [of 0 "int n"] by simp
  with Suc show ?case by simp
qed

lemma uint_of_nat_u64: "n < 18446744073709551616 \<Longrightarrow> uint (of_nat n :: u64) = int n"
  using unat_of_nat_u64 [of n] by (metis of_nat_unat)

text \<open>A sum over a list in which one summand changes.\<close>

lemma sum_list_map_change:
  fixes f g :: "'a \<Rightarrow> nat"
  assumes "distinct xs" and "x \<in> set xs" and "\<forall>y \<in> set xs. y \<noteq> x \<longrightarrow> g y = f y"
  shows "sum_list (map g xs) + f x = sum_list (map f xs) + g x"
proof -
  have same: "sum_list (map g ys) = sum_list (map f ys)" if "\<forall>y \<in> set ys. g y = f y" for ys
    using that by (induction ys) simp_all
  show ?thesis
    using assms
  proof (induction xs)
    case Nil
    then show ?case by simp
  next
    case (Cons y ys)
    show ?case
    proof (cases "y = x")
      case True
      with Cons.prems have "\<forall>z \<in> set ys. g z = f z" by auto
      with True show ?thesis by (simp add: same)
    next
      case False
      with Cons show ?thesis by simp
    qed
  qed
qed

text \<open>Sums of differences, and sums of lists that are below one another.\<close>

lemma sum_list_diff_add:
  fixes f g :: "'a \<Rightarrow> nat"
  shows "\<forall>x \<in> set xs. g x \<le> f x \<Longrightarrow>
     sum_list (map (\<lambda>x. f x - g x) xs) + sum_list (map g xs) = sum_list (map f xs)"
  by (induction xs) simp_all

lemma list_all2_sum_map_le:
  fixes f :: "'a \<Rightarrow> nat"
  shows "list_all2 (\<lambda>n x. n \<le> f x) ns xs \<Longrightarrow> sum_list ns \<le> sum_list (map f xs)"
  by (induction rule: list_all2_induct) simp_all

lemma list_all2_sum_le: "list_all2 (\<le>) ns ms \<Longrightarrow> sum_list ns \<le> sum_list (ms :: nat list)"
  using list_all2_sum_map_le [of "\<lambda>m. m" ns ms] by simp

text \<open>
  A quantity that rises from \<open>a\<close> by \<open>f j\<close> and falls back to \<open>a\<close>, for each \<open>j\<close> of a list:
  its largest value is \<open>a\<close> plus the largest rise.
\<close>

lemma Max_profile:
  "Max (set (a # concat (map (\<lambda>j. [a + f j, a]) js))) = a + Max (set (0 # map f js))"
  for a :: nat
proof (induction js)
  case Nil
  show ?case by simp
next
  case (Cons j js)
  let ?S = "set (a # concat (map (\<lambda>j. [a + f j, a]) js))" and ?T = "set (0 # map f js)"
  have "set (a # concat (map (\<lambda>j. [a + f j, a]) (j # js))) = insert (a + f j) ?S" by auto
  moreover have "Max (insert (a + f j) ?S) = max (a + f j) (Max ?S)"
    by (rule Max_insert) simp_all
  moreover have "set (0 # map f (j # js)) = insert (f j) ?T" by auto
  moreover have "Max (insert (f j) ?T) = max (f j) (Max ?T)"
    by (rule Max_insert) simp_all
  ultimately show ?case using Cons.IH by (simp only: nat_add_max_right)
qed

section \<open>Errors and panics\<close>

datatype go_error =
    Errorf string
  | Wrap go_error string
  | PathError string string string

datatype 'a outcome = Returns 'a | Panics string

type_synonym 'a result = "go_error + 'a"

text \<open>
  \<open>Errorf msg\<close> is \<^verbatim>\<open>errors.Errorf(msg)\<close>, \<open>Wrap e msg\<close> is \<^verbatim>\<open>errors.Wrap(e, msg)\<close> and
  \<open>PathError op path why\<close> is the \<^verbatim>\<open>*os.PathError\<close> of a failed system call. A function
  of the source that can die with a run-time panic (an index out of range, a method
  call on a nil interface) returns an \<open>outcome\<close>: \<open>Returns v\<close> when it returns \<open>v\<close>,
  \<open>Panics why\<close> when the goroutine dies instead.
\<close>

fun cause :: "go_error \<Rightarrow> go_error" where
  "cause (Wrap e _) = cause e"
| "cause e = e"

lemma cause_not_Wrap: "cause e \<noteq> Wrap e' m"
  by (induction e rule: cause.induct) auto

lemma cause_idem [simp]: "cause (cause e) = cause e"
  by (induction e rule: cause.induct) auto

fun returned :: "'a outcome \<Rightarrow> bool" where
  "returned (Returns _) = True"
| "returned (Panics _) = False"

definition index_out_of_range :: string where
  "index_out_of_range = ''runtime error: index out of range''"

definition nil_dereference :: string where
  "nil_dereference = ''runtime error: invalid memory address or nil pointer dereference''"

section \<open>The platform\<close>

text \<open>
  What the source reads from its surroundings without going through the file system:
  \<^verbatim>\<open>runtime.GOOS\<close>, the free space that \<^verbatim>\<open>du.NewDiskUsage(volume).Free()\<close> reports for
  a volume, and the result of \<^verbatim>\<open>homedir.Dir()\<close>. All three are inputs of the model.
\<close>

record platform =
  goos :: string
  disk_free :: "string \<Rightarrow> u64"
  home_dir :: "go_error + string"

definition backslash :: char where
  "backslash = CHR 0x5C"

end
