(* ===== verification/Data.thy ===== *)
theory Data
  imports Pget_Prelude
begin

text \<open>
  The \<^verbatim>\<open>Data\<close> struct of \<^verbatim>\<open>src/util.go\<close> (the download target: output file name, size
  of the remote file, workspace directory) with its getters \<^verbatim>\<open>FileName\<close>, \<^verbatim>\<open>FileSize\<close>,
  \<^verbatim>\<open>DirName\<close> and its setters \<^verbatim>\<open>SetFileSize\<close> and \<^verbatim>\<open>SetFileName\<close>. The setters have a
  pointer receiver in Go and mutate the struct; here they return the updated record.
  \<^verbatim>\<open>isDos\<close>, the test of \<^verbatim>\<open>runtime.GOOS\<close> that two components share, is here as well.
  The lemmas are the frame properties: which field a setter writes and which it leaves.
\<close>

section \<open>The struct\<close>

record Data =
  filename :: string
  filesize :: u64
  dirname :: string

section \<open>The platform test\<close>

definition isDos :: "platform \<Rightarrow> bool" where
  "isDos p = (goos p = ''windows'')"

section \<open>Getters and setters\<close>

definition FileName :: "Data \<Rightarrow> string" where
  "FileName d = filename d"

definition FileSize :: "Data \<Rightarrow> u64" where
  "FileSize d = filesize d"

definition DirName :: "Data \<Rightarrow> string" where
  "DirName d = dirname d"

definition SetFileSize :: "u64 \<Rightarrow> Data \<Rightarrow> Data" where
  "SetFileSize sz d = d\<lparr>filesize := sz\<rparr>"

definition SetFileName :: "string \<Rightarrow> Data \<Rightarrow> Data" where
  "SetFileName output d = d\<lparr>filename := output\<rparr>"

lemmas getter_defs [pget_defs] = FileName_def FileSize_def DirName_def
lemmas setter_defs [pget_defs] = SetFileSize_def SetFileName_def

section \<open>Frame properties\<close>

lemma FileSize_SetFileSize [simp]: "FileSize (SetFileSize n d) = n"
  by (simp add: pget_defs)

lemma FileName_SetFileName [simp]: "FileName (SetFileName s d) = s"
  by (simp add: pget_defs)

lemma SetFileSize_frame [simp]:
  "FileName (SetFileSize n d) = FileName d" "DirName (SetFileSize n d) = DirName d"
  by (simp_all add: pget_defs)

lemma SetFileName_frame [simp]:
  "FileSize (SetFileName s d) = FileSize d" "DirName (SetFileName s d) = DirName d"
  by (simp_all add: pget_defs)

lemma SetFileSize_idem [simp]: "SetFileSize n (SetFileSize m d) = SetFileSize n d"
  by (simp add: pget_defs)

lemma SetFileName_idem [simp]: "SetFileName s (SetFileName t d) = SetFileName s d"
  by (simp add: pget_defs)

lemma setters_commute: "SetFileSize n (SetFileName s d) = SetFileName s (SetFileSize n d)"
  by (simp add: pget_defs)

end
