(* ===== verification/Range_Calculator.thy ===== *)
theory Range_Calculator
  imports Data
begin

text \<open>
  The range calculator: \<^verbatim>\<open>MakeRange\<close> of \<^verbatim>\<open>src/util.go\<close>, which gives worker \<open>i\<close> of
  \<open>procs\<close> its inclusive byte interval, and the list of the ranges of all workers as
  the download loop asks for them (\<open>ranges_of\<close>, one call per worker index below
  \<open>procs\<close>; the loop itself is outside \<^verbatim>\<open>src/\<close> and is taken from the specification).
  All arithmetic is on \<open>u64\<close> and wraps as Go's does.

  The lemmas show: the fields of a range on each branch; that consecutive ranges are
  adjacent in wrapping arithmetic whatever the arguments; that for a chunk size
  \<open>split = FileSize d div procs\<close> that is not zero nothing wraps, the ranges tile the
  offsets \<open>0 .. FileSize d\<close> in worker order (predicate \<open>tiles\<close>), hence cover them and
  are pairwise disjoint; and what becomes of a range when the chunk size is zero.
\<close>

section \<open>Ranges\<close>

record Range =
  low :: u64
  high :: u64
  worker :: u64

definition MakeRange :: "Data \<Rightarrow> u64 \<Rightarrow> u64 \<Rightarrow> u64 \<Rightarrow> Range" where
  "MakeRange d i split procs =
     (let low = split * i;
          high = low + split - 1;
          high = (if i = procs - 1 then FileSize d else high)
      in \<lparr>low = low, high = high, worker = i\<rparr>)"

definition ranges_of :: "Data \<Rightarrow> u64 \<Rightarrow> u64 \<Rightarrow> Range list" where
  "ranges_of d split procs = map (\<lambda>i. MakeRange d (of_nat i) split procs) [0..<unat procs]"

text \<open>
  The offsets a range asks for, and the abstract specification of a partition:
  \<open>tiles a b rs\<close> holds when the ranges \<open>rs\<close>, in order, are non-empty, start at \<open>a\<close>,
  each start right after the one before, and end at \<open>b\<close>.
\<close>

definition range_bytes :: "Range \<Rightarrow> nat set" where
  "range_bytes r = {unat (low r)..unat (high r)}"

fun tiles :: "nat \<Rightarrow> nat \<Rightarrow> Range list \<Rightarrow> bool" where
  "tiles a b [] = (a = Suc b)"
| "tiles a b (r # rs) =
     (unat (low r) = a \<and> a \<le> unat (high r) \<and> tiles (Suc (unat (high r))) b rs)"

section \<open>The fields of a range\<close>

lemma low_MakeRange [simp]: "low (MakeRange d i split procs) = split * i"
  by (simp add: MakeRange_def Let_def)

lemma worker_MakeRange [simp]: "worker (MakeRange d i split procs) = i"
  by (simp add: MakeRange_def Let_def)

lemma high_MakeRange:
  "high (MakeRange d i split procs) =
     (if i = procs - 1 then FileSize d else split * i + split - 1)"
  by (simp add: MakeRange_def Let_def)

lemma high_MakeRange_last [simp]: "high (MakeRange d (procs - 1) split procs) = FileSize d"
  by (simp add: high_MakeRange)

lemma high_MakeRange_inner:
  "i \<noteq> procs - 1 \<Longrightarrow> high (MakeRange d i split procs) = split * (i + 1) - 1"
  by (simp add: high_MakeRange algebra_simps)

lemma length_ranges_of [simp]: "length (ranges_of d split procs) = unat procs"
  by (simp add: ranges_of_def)

lemma nth_ranges_of:
  "i < unat procs \<Longrightarrow> ranges_of d split procs ! i = MakeRange d (of_nat i) split procs"
  by (simp add: ranges_of_def)

section \<open>Where nothing wraps\<close>

lemma chunk_fits:
  fixes procs :: u64
  assumes "split = F div procs" and "k \<le> unat procs"
  shows "unat split * k \<le> unat F"
proof -
  have "unat split * k \<le> (unat F div unat procs) * unat procs"
    using assms by (simp add: unat_div)
  also have "\<dots> \<le> unat F" by simp
  finally show ?thesis .
qed

lemma unat_index: "k < unat (procs :: u64) \<Longrightarrow> unat (of_nat k :: u64) = k"
  using u64_bound [of procs] by (simp add: nowrap)

lemma index_last_iff:
  assumes "k < unat (procs :: u64)"
  shows "(of_nat k = procs - 1) \<longleftrightarrow> Suc k = unat procs"
proof -
  from assms have "procs \<noteq> 0" by (auto simp: unat_gt_0 [symmetric])
  then have "unat (procs - 1) = unat procs - 1" by (simp add: unat_minus_one)
  with assms show ?thesis by (auto simp: u64_eq_iff unat_index)
qed

lemma unat_low:
  assumes "split = FileSize d div procs" and "k < unat procs"
  shows "unat (low (MakeRange d (of_nat k) split procs)) = unat split * k"
proof -
  have "unat split * k \<le> unat (FileSize d)" using assms by (simp add: chunk_fits)
  then have "unat split * k < 18446744073709551616"
    using u64_bound [of "FileSize d"] by simp
  then show ?thesis using assms by (simp add: nowrap unat_index)
qed

lemma unat_high_inner:
  assumes "split = FileSize d div procs" and "Suc k < unat procs" and "split \<noteq> 0"
  shows "Suc (unat (high (MakeRange d (of_nat k) split procs))) = unat split * Suc k"
proof -
  have "Suc k \<le> unat procs" using assms(2) by simp
  from chunk_fits [OF assms(1) this]
  have "unat split * Suc k \<le> unat (FileSize d)" .
  then have small: "unat split * Suc k < 18446744073709551616"
    using u64_bound [of "FileSize d"] by simp
  have k: "unat (of_nat k + 1 :: u64) = Suc k"
    using assms(2) u64_bound [of procs] by (simp add: nowrap unat_index)
  have "unat (split * (of_nat k + 1)) = unat split * Suc k"
    using small by (simp add: nowrap k)
  moreover have "0 < unat split * Suc k" using assms(3) by (simp add: unat_gt_0)
  moreover have "of_nat k \<noteq> procs - 1" using assms(2) by (simp add: index_last_iff)
  ultimately show ?thesis
    by (simp add: high_MakeRange_inner unat_minus_one unat_gt_0 [symmetric])
qed

section \<open>The ranges tile the file\<close>

lemma tiles_le: "tiles a b rs \<Longrightarrow> a \<le> Suc b"
  by (induction rs arbitrary: a) fastforce+

lemma tiles_cover: "tiles a b rs \<Longrightarrow> (\<Union>r \<in> set rs. range_bytes r) = {a..b}"
proof (induction rs arbitrary: a)
  case Nil
  then show ?case by simp
next
  case (Cons r rs)
  then have "(\<Union>r \<in> set rs. range_bytes r) = {Suc (unat (high r))..b}" by simp
  moreover have "Suc (unat (high r)) \<le> Suc b"
    using Cons.prems tiles_le [of "Suc (unat (high r))" b rs] by simp
  ultimately show ?case using Cons.prems by (auto simp: range_bytes_def)
qed

lemma tiles_member:
  "tiles a b rs \<Longrightarrow> r \<in> set rs \<Longrightarrow>
     a \<le> unat (low r) \<and> unat (low r) \<le> unat (high r) \<and> unat (high r) \<le> b"
proof (induction rs arbitrary: a)
  case Nil
  then show ?case by simp
next
  case (Cons x rs)
  show ?case
  proof (cases "r = x")
    case True
    with Cons.prems tiles_le [of "Suc (unat (high x))" b rs] show ?thesis by simp
  next
    case False
    with Cons.prems Cons.IH [of "Suc (unat (high x))"] show ?thesis by auto
  qed
qed

lemma tiles_ordered:
  "tiles a b rs \<Longrightarrow> i < j \<Longrightarrow> j < length rs \<Longrightarrow>
     unat (high (rs ! i)) < unat (low (rs ! j))"
proof (induction rs arbitrary: a i j)
  case Nil
  then show ?case by simp
next
  case (Cons x rs)
  from Cons.prems obtain j' where j: "j = Suc j'" "j' < length rs" by (cases j) auto
  show ?case
  proof (cases i)
    case 0
    from Cons.prems j tiles_member [of "Suc (unat (high x))" b rs "rs ! j'"]
    show ?thesis using 0 by simp
  next
    case (Suc i')
    with Cons.prems j Cons.IH [of "Suc (unat (high x))" i' j'] show ?thesis by simp
  qed
qed

lemma tiles_ranges_from:
  assumes "split = FileSize d div procs" and "split \<noteq> 0" and "k < unat procs"
  shows "tiles (unat split * k) (unat (FileSize d))
           (map (\<lambda>i. MakeRange d (of_nat i) split procs) [k..<unat procs])"
  using assms(3)
proof (induction m \<equiv> "unat procs - k" arbitrary: k)
  case 0
  then show ?case by simp
next
  case (Suc m)
  show ?case
  proof (cases "Suc k = unat procs")
    case True
    then have "[k..<unat procs] = [k]" by (simp add: upt_rec)
    moreover have "of_nat k = procs - 1" using True Suc.prems by (simp add: index_last_iff)
    ultimately show ?thesis
      using assms(1) Suc.prems unat_low [of split d procs k]
        chunk_fits [of split "FileSize d" procs k]
      by simp
  next
    case False
    with Suc.prems have lt: "Suc k < unat procs" by simp
    moreover have "m = unat procs - Suc k" using Suc.hyps(2) by simp
    ultimately have IH: "tiles (unat split * Suc k) (unat (FileSize d))
           (map (\<lambda>i. MakeRange d (of_nat i) split procs) [Suc k..<unat procs])"
      using Suc.hyps(1) [of "Suc k"] by blast
    have "[k..<unat procs] = k # [Suc k..<unat procs]" using Suc.prems by (simp add: upt_rec)
    moreover have "0 < unat split" using assms(2) by (simp add: unat_gt_0)
    ultimately show ?thesis
      using IH unat_low [OF assms(1) Suc.prems] unat_high_inner [OF assms(1) lt assms(2)]
      by simp
  qed
qed

lemma tiles_ranges_of:
  assumes "procs \<noteq> 0" and "split = FileSize d div procs" and "split \<noteq> 0"
  shows "tiles 0 (unat (FileSize d)) (ranges_of d split procs)"
  using tiles_ranges_from [OF assms(2,3), of 0] assms(1)
  by (simp add: ranges_of_def unat_gt_0)

lemmas range_facts = low_MakeRange high_MakeRange worker_MakeRange nth_ranges_of

section \<open>Properties\<close>

text \<open>
  C4. Coverage: for a worker count that is not zero and the chunk size
  \<open>FileSize d div procs\<close>, if that chunk size is not zero (the file has at least \<open>procs\<close>
  bytes), the offsets requested by all workers together are exactly \<open>0 .. FileSize d\<close>:
  no gap, nothing beyond the file size.
\<close>

theorem ranges_cover:
  assumes "procs \<noteq> 0" and "split = FileSize d div procs" and "split \<noteq> 0"
  shows "(\<Union>r \<in> set (ranges_of d split procs). range_bytes r) = {0..unat (FileSize d)}"
  using assms by (intro tiles_cover tiles_ranges_of)

theorem ranges_cover_witness:
  "(\<Union>r \<in> set (ranges_of \<lparr>filename = ''f'', filesize = 1000, dirname = ''_f.4''\<rparr> 250 4).
      range_bytes r) = {0..1000}"
  using ranges_cover [of 4 250 "\<lparr>filename = ''f'', filesize = 1000, dirname = ''_f.4''\<rparr>"]
  by (simp add: FileSize_def)

text \<open>
  C5. Disjointness and order: under the same conditions the range of a worker ends
  before the range of every later worker begins, so no offset is requested twice.
\<close>

theorem ranges_disjoint:
  assumes "procs \<noteq> 0" and "split = FileSize d div procs" and "split \<noteq> 0"
    and "i < j" and "j < unat procs"
  shows "unat (high (ranges_of d split procs ! i)) < unat (low (ranges_of d split procs ! j))"
  using tiles_ordered [OF tiles_ranges_of [OF assms(1-3)], of i j] assms(4,5) by simp

theorem ranges_disjoint_witness:
  "unat (high (ranges_of \<lparr>filename = ''f'', filesize = 1000, dirname = ''_f.4''\<rparr> 250 4 ! 1))
     < unat (low (ranges_of \<lparr>filename = ''f'', filesize = 1000, dirname = ''_f.4''\<rparr> 250 4 ! 3))"
  using ranges_disjoint [of 4 250 "\<lparr>filename = ''f'', filesize = 1000, dirname = ''_f.4''\<rparr>" 1 3]
  by (simp add: FileSize_def)

text \<open>
  Last-range boundary: for four workers, a file of 1000 bytes and chunk size 250
  the ranges are \<open>[0,249]\<close>, \<open>[250,499]\<close>, \<open>[500,749]\<close>, \<open>[750,1000]\<close>: the last upper bound
  is the file size itself, one past the last valid offset.
\<close>

lemma ranges_example:
  "ranges_of \<lparr>filename = n, filesize = 1000, dirname = w\<rparr> 250 4 =
     [\<lparr>low = 0, high = 249, worker = 0\<rparr>, \<lparr>low = 250, high = 499, worker = 1\<rparr>,
      \<lparr>low = 500, high = 749, worker = 2\<rparr>, \<lparr>low = 750, high = 1000, worker = 3\<rparr>]"
  by (simp add: ranges_of_def MakeRange_def FileSize_def upt_rec)

text \<open>
  Adjacency in wrapping arithmetic: whatever the chunk size and the index, the
  range of worker \<open>i + 1\<close> starts one past the upper bound of worker \<open>i\<close>, unless \<open>i\<close> is
  the last worker (whose upper bound is the file size). The witness takes the largest
  index, where \<open>i + 1\<close> wraps to \<open>0\<close>.
\<close>

lemma MakeRange_adjacent:
  "i \<noteq> procs - 1 \<Longrightarrow>
     low (MakeRange d (i + 1) split procs) = high (MakeRange d i split procs) + 1"
  by (simp add: high_MakeRange algebra_simps)

lemma MakeRange_adjacent_witness:
  "low (MakeRange \<lparr>filename = ''f'', filesize = 10, dirname = ''w''\<rparr>
          (18446744073709551615 + 1) 3 2) =
   high (MakeRange \<lparr>filename = ''f'', filesize = 10, dirname = ''w''\<rparr>
          18446744073709551615 3 2) + 1"
  using MakeRange_adjacent
    [of 18446744073709551615 2 "\<lparr>filename = ''f'', filesize = 10, dirname = ''w''\<rparr>" 3]
  by simp

text \<open>
  C36. Zero chunk size: when the chunk size is \<open>0\<close> (a file shorter than the worker
  count), every worker but the last gets \<open>low = 0\<close> and an upper bound that wraps to the
  largest \<^verbatim>\<open>uint64\<close>: it asks for the whole file. The witness is a file of 3 bytes
  fetched by 4 workers.
\<close>

theorem MakeRange_zero_split:
  "i \<noteq> procs - 1 \<Longrightarrow>
     MakeRange d i 0 procs = \<lparr>low = 0, high = 18446744073709551615, worker = i\<rparr>"
  by (simp add: MakeRange_def)

theorem MakeRange_zero_split_witness:
  "ranges_of \<lparr>filename = ''f'', filesize = 3, dirname = ''w''\<rparr> (3 div 4) 4 ! 0 =
     \<lparr>low = 0, high = 18446744073709551615, worker = 0\<rparr>"
  using MakeRange_zero_split [of 0 4 "\<lparr>filename = ''f'', filesize = 3, dirname = ''w''\<rparr>"]
  by (simp add: nth_ranges_of)

end
