(* ===== verification/Space_Guard.thy ===== *)
theory Space_Guard
  imports Data
begin

text \<open>
  The admission check: \<^verbatim>\<open>freeSpace\<close> and \<^verbatim>\<open>IsFree\<close> of \<^verbatim>\<open>src/util.go\<close>.
  \<^verbatim>\<open>IsFree(split)\<close> adds the chunk size to the file size in \<^verbatim>\<open>uint64\<close> and compares the
  sum with the free space of the system volume. The free space is an input (field
  \<open>disk_free\<close> of the platform). The lemmas characterise the verdict exactly (with the
  wrapping sum), derive the intended meaning where the sum does not wrap, and show
  what is accepted when it does.
\<close>

section \<open>Operations\<close>

definition freeSpace :: "platform \<Rightarrow> Data \<Rightarrow> u64" where
  "freeSpace p d =
     (if isDos p then disk_free p (''C:'' @ [backslash]) else disk_free p ''/'')"

definition insufficient :: go_error where
  "insufficient = Errorf ''there is not sufficient free space in a disk''"

definition IsFree :: "platform \<Rightarrow> Data \<Rightarrow> u64 \<Rightarrow> go_error option" where
  "IsFree p d split =
     (let want = filesize d + split
      in if freeSpace p d < want then Some insufficient else None)"

section \<open>The verdict\<close>

lemma IsFree_cases: "IsFree p d split = None \<or> IsFree p d split = Some insufficient"
  by (simp add: IsFree_def Let_def)

lemma IsFree_None_iff:
  "IsFree p d split = None \<longleftrightarrow> filesize d + split \<le> freeSpace p d"
  by (auto simp: IsFree_def Let_def not_less)

lemma unat_want:
  "unat (filesize d + split) = (unat (filesize d) + unat split) mod 18446744073709551616"
  by (simp add: unat_word_ariths)

lemma IsFree_None_nat:
  "IsFree p d split = None \<longleftrightarrow>
     (unat (filesize d) + unat split) mod 18446744073709551616 \<le> unat (freeSpace p d)"
  by (simp add: IsFree_None_iff word_le_nat_alt unat_want)

section \<open>Properties\<close>

text \<open>
  C7. Admission gate: when file size plus chunk size does not exceed the range of
  \<^verbatim>\<open>uint64\<close>, \<^verbatim>\<open>IsFree\<close> returns \<^verbatim>\<open>nil\<close> exactly when the free space of the system volume
  is at least file size plus chunk size; otherwise it returns the insufficient-space
  error. The witness rejects a 1000-byte file with chunk size 250 on a volume with 1100
  free bytes.
\<close>

theorem IsFree_admits_iff:
  assumes "unat (filesize d) + unat split < 18446744073709551616"
  shows "(IsFree p d split = None \<longleftrightarrow>
            unat (filesize d) + unat split \<le> unat (freeSpace p d)) \<and>
         (IsFree p d split \<noteq> None \<longrightarrow>
            IsFree p d split =
              Some (Errorf ''there is not sufficient free space in a disk''))"
  using assms IsFree_cases [of p d split] by (auto simp: IsFree_None_nat insufficient_def)

theorem IsFree_admits_iff_witness:
  "IsFree \<lparr>goos = ''linux'', disk_free = (\<lambda>v. if v = ''/'' then 1100 else 0),
            home_dir = Inr ''/home/u''\<rparr>
     \<lparr>filename = ''f'', filesize = 1000, dirname = ''_f.4''\<rparr> 250 =
   Some (Errorf ''there is not sufficient free space in a disk'')"
  using IsFree_admits_iff
    [of "\<lparr>filename = ''f'', filesize = 1000, dirname = ''_f.4''\<rparr>" 250
        "\<lparr>goos = ''linux'', disk_free = (\<lambda>v. if v = ''/'' then 1100 else 0),
          home_dir = Inr ''/home/u''\<rparr>"]
  by (simp add: freeSpace_def isDos_def)

text \<open>
  C37. Wrapping sum: when file size plus chunk size reaches \<open>2 ^ 64\<close>, the sum wraps and
  \<^verbatim>\<open>IsFree\<close> compares the free space with the excess over \<open>2 ^ 64\<close> only. The witness
  admits a file of \<open>2 ^ 64 - 1\<close> bytes on a volume with 5 free bytes.
\<close>

theorem IsFree_wraps:
  assumes "18446744073709551616 \<le> unat (filesize d) + unat split"
  shows "IsFree p d split = None \<longleftrightarrow>
           unat (filesize d) + unat split - 18446744073709551616 \<le> unat (freeSpace p d)"
proof -
  have "unat (filesize d) + unat split < 2 * 18446744073709551616"
    using u64_bound [of "filesize d"] u64_bound [of split] by simp
  with assms have "(unat (filesize d) + unat split) mod 18446744073709551616 =
      unat (filesize d) + unat split - 18446744073709551616"
    by (simp add: mod_if)
  then show ?thesis by (simp add: IsFree_None_nat)
qed

theorem IsFree_wraps_witness:
  "IsFree \<lparr>goos = ''windows'', disk_free = (\<lambda>v. 5), home_dir = Inr ''/''\<rparr>
     \<lparr>filename = ''f'', filesize = 18446744073709551615, dirname = ''_f.4''\<rparr> 4 = None"
  using IsFree_wraps
    [of "\<lparr>filename = ''f'', filesize = 18446744073709551615, dirname = ''_f.4''\<rparr>" 4
        "\<lparr>goos = ''windows'', disk_free = (\<lambda>v. 5), home_dir = Inr ''/''\<rparr>"]
  by (simp add: freeSpace_def isDos_def)

end
