(* ===== verification/Go_Strings.thy ===== *)
theory Go_Strings
  imports Pget_Prelude
begin

text \<open>
  The string functions of Go's standard library that \<^verbatim>\<open>src/util.go\<close> calls, as far as
  the source uses them: \<^verbatim>\<open>strings.Split\<close> with a separator of one byte (\<^verbatim>\<open>"/"\<close> or
  \<^verbatim>\<open>"\\"\<close>), \<^verbatim>\<open>strings.Join\<close>, and the verb \<^verbatim>\<open>%d\<close> of \<^verbatim>\<open>fmt.Sprintf\<close> (\<open>itoa\<close>). A Go string
  is a \<open>string\<close> (a list of bytes). These definitions are written from the library's
  documented behaviour; the components that call them are in the theories that
  import this one.

  The lemmas are the ones the components need: \<open>Split\<close> never returns the empty slice,
  its pieces hold no separator, \<open>Join\<close> undoes \<open>Split\<close> and \<open>Split\<close> undoes \<open>Join\<close> on
  separator-free pieces; decimal printing is injective (by reading the digits back)
  and prints only digits after an optional sign.
\<close>

section \<open>Split and Join\<close>

fun strings_Split :: "string \<Rightarrow> char \<Rightarrow> string list" where
  "strings_Split [] c = [[]]"
| "strings_Split (x # xs) c =
     (let rest = strings_Split xs c
      in if x = c then [] # rest else (x # hd rest) # tl rest)"

fun strings_Join :: "string list \<Rightarrow> string \<Rightarrow> string" where
  "strings_Join [] sep = []"
| "strings_Join [x] sep = x"
| "strings_Join (x # y # ys) sep = x @ sep @ strings_Join (y # ys) sep"

lemma Split_Cons:
  "strings_Split (x # xs) c =
     (if x = c then [] # strings_Split xs c
      else (x # hd (strings_Split xs c)) # tl (strings_Split xs c))"
  by (simp add: Let_def)

lemma Split_nonempty [simp]: "strings_Split s c \<noteq> []"
  by (induction s) (auto simp: Let_def)

lemma length_Split: "length (strings_Split s c) = Suc (count_list s c)"
proof (induction s)
  case Nil
  then show ?case by simp
next
  case (Cons x s)
  have "length (tl (strings_Split s c)) = count_list s c" using Cons by simp
  with Cons show ?case by (simp add: Let_def)
qed

lemma Split_no_sep_iff: "(strings_Split s c = [s]) \<longleftrightarrow> c \<notin> set s"
proof (induction s)
  case Nil
  then show ?case by simp
next
  case (Cons x s)
  show ?case
  proof (cases "x = c")
    case True
    then show ?thesis by (simp add: Let_def)
  next
    case False
    have "strings_Split s c = hd (strings_Split s c) # tl (strings_Split s c)" by simp
    then have "(strings_Split s c = [s]) \<longleftrightarrow>
        hd (strings_Split s c) = s \<and> tl (strings_Split s c) = []"
      by (metis list.inject)
    with False Cons show ?thesis by (auto simp: Let_def)
  qed
qed

lemma Split_single: "c \<notin> set s \<Longrightarrow> strings_Split s c = [s]"
  by (simp add: Split_no_sep_iff)

lemma length_Split_one_iff: "length (strings_Split s c) = 1 \<longleftrightarrow> c \<notin> set s"
  by (simp add: length_Split count_list_0_iff)

lemma length_Split_Suc_0_iff [simp]: "length (strings_Split s c) = Suc 0 \<longleftrightarrow> c \<notin> set s"
  using length_Split_one_iff [of s c] by simp

lemma Split_two_iff: "2 \<le> length (strings_Split s c) \<longleftrightarrow> c \<in> set s"
  using count_list_0_iff [of s c] by (cases "count_list s c") (simp_all add: length_Split)

lemma Split_append:
  "c \<notin> set a \<Longrightarrow> strings_Split (a @ c # b) c = a # strings_Split b c"
  by (induction a) (auto simp: Let_def)

lemma Split_snoc: "c \<notin> set b \<Longrightarrow> strings_Split (a @ c # b) c = strings_Split a c @ [b]"
proof (induction a)
  case Nil
  then show ?case by (simp add: Split_single Let_def)
next
  case (Cons x a)
  then show ?case by (simp add: hd_append Let_def)
qed

lemma Split_trailing: "strings_Split (a @ [c]) c = strings_Split a c @ [[]]"
  using Split_snoc [of c "[]" a] by simp

lemma Split_pieces: "w \<in> set (strings_Split s c) \<Longrightarrow> c \<notin> set w"
proof (induction s arbitrary: w)
  case Nil
  then show ?case by simp
next
  case (Cons x s)
  have split: "strings_Split s c = hd (strings_Split s c) # tl (strings_Split s c)" by simp
  show ?case
  proof (cases "x = c")
    case True
    with Cons show ?thesis by (auto simp: Let_def)
  next
    case False
    with Cons.prems have "w = x # hd (strings_Split s c) \<or> w \<in> set (tl (strings_Split s c))"
      by (simp add: Let_def)
    moreover have "hd (strings_Split s c) \<in> set (strings_Split s c)" by simp
    moreover have "set (tl (strings_Split s c)) \<subseteq> set (strings_Split s c)"
      by (metis split set_subset_Cons)
    ultimately show ?thesis using False Cons.IH by auto
  qed
qed

lemma Join_Cons: "ws \<noteq> [] \<Longrightarrow> strings_Join (w # ws) sep = w @ sep @ strings_Join ws sep"
  by (cases ws) auto

lemma Join_Split [simp]: "strings_Join (strings_Split s c) [c] = s"
proof (induction s)
  case Nil
  then show ?case by simp
next
  case (Cons x s)
  have split: "strings_Split s c = hd (strings_Split s c) # tl (strings_Split s c)" by simp
  show ?case
  proof (cases "x = c")
    case True
    with Cons show ?thesis by (simp add: Join_Cons Let_def)
  next
    case False
    show ?thesis
    proof (cases "tl (strings_Split s c)")
      case Nil
      with split Cons False show ?thesis by (metis Split_Cons strings_Join.simps(2))
    next
      case (Cons y ys)
      with split \<open>strings_Join (strings_Split s c) [c] = s\<close> False show ?thesis
        by (metis append_Cons Split_Cons strings_Join.simps(3))
    qed
  qed
qed

lemma Split_Join:
  "ws \<noteq> [] \<Longrightarrow> \<forall>w \<in> set ws. c \<notin> set w \<Longrightarrow> strings_Split (strings_Join ws [c]) c = ws"
proof (induction ws)
  case Nil
  then show ?case by simp
next
  case (Cons w ws)
  show ?case
  proof (cases "ws = []")
    case True
    with Cons.prems show ?thesis by (simp add: Split_single)
  next
    case False
    with Cons show ?thesis by (simp add: Join_Cons Split_append)
  qed
qed

section \<open>Decimal printing\<close>

definition digit_char :: "nat \<Rightarrow> char" where
  "digit_char n = ''0123456789'' ! n"

definition digit_val :: "char \<Rightarrow> nat" where
  "digit_val c = of_char c - 48"

fun itoa_nat :: "nat \<Rightarrow> string" where
  "itoa_nat n = (if n < 10 then [digit_char n] else itoa_nat (n div 10) @ [digit_char (n mod 10)])"

declare itoa_nat.simps [simp del]

definition itoa :: "int \<Rightarrow> string" where
  "itoa i = (if i < 0 then CHR ''-'' # itoa_nat (nat (- i)) else itoa_nat (nat i))"

definition atoi_nat :: "string \<Rightarrow> nat" where
  "atoi_nat s = foldl (\<lambda>a c. 10 * a + digit_val c) 0 s"

definition is_digit :: "char \<Rightarrow> bool" where
  "is_digit c = (c \<in> set ''0123456789'')"

lemma digit_cases:
  "n < 10 \<Longrightarrow> n = 0 \<or> n = 1 \<or> n = 2 \<or> n = 3 \<or> n = 4 \<or> n = 5 \<or> n = 6 \<or> n = 7 \<or> n = 8 \<or> n = (9::nat)"
  by arith

lemma digit_val_digit_char [simp]: "n < 10 \<Longrightarrow> digit_val (digit_char n) = n"
  using digit_cases [of n] by (auto simp: digit_val_def digit_char_def)

lemma is_digit_digit_char [simp]: "n < 10 \<Longrightarrow> is_digit (digit_char n)"
  using digit_cases [of n] by (auto simp: is_digit_def digit_char_def)

lemma itoa_nat_small: "n < 10 \<Longrightarrow> itoa_nat n = [digit_char n]"
  by (simp add: itoa_nat.simps)

lemma itoa_nat_large:
  "\<not> n < 10 \<Longrightarrow> itoa_nat n = itoa_nat (n div 10) @ [digit_char (n mod 10)]"
  by (subst itoa_nat.simps) simp

lemma itoa_nat_nonempty [simp]: "itoa_nat n \<noteq> []"
  by (subst itoa_nat.simps) simp

lemma atoi_nat_snoc: "atoi_nat (s @ [c]) = 10 * atoi_nat s + digit_val c"
  by (simp add: atoi_nat_def)

lemma atoi_itoa_nat [simp]: "atoi_nat (itoa_nat n) = n"
proof (induction n rule: itoa_nat.induct)
  case (1 n)
  show ?case
  proof (cases "n < 10")
    case True
    then show ?thesis by (simp add: itoa_nat_small atoi_nat_def)
  next
    case False
    with "1.IH" show ?thesis by (simp add: itoa_nat_large atoi_nat_snoc)
  qed
qed

lemma itoa_nat_inj [simp]: "itoa_nat m = itoa_nat n \<longleftrightarrow> m = n"
  by (metis atoi_itoa_nat)

lemma itoa_nat_digits: "c \<in> set (itoa_nat n) \<Longrightarrow> is_digit c"
proof (induction n rule: itoa_nat.induct)
  case (1 n)
  show ?case
  proof (cases "n < 10")
    case True
    with "1.prems" show ?thesis by (simp add: itoa_nat_small)
  next
    case False
    with "1.prems" "1.IH" show ?thesis by (auto simp: itoa_nat_large)
  qed
qed

lemma not_digit [simp]:
  "\<not> is_digit CHR ''-''" "\<not> is_digit CHR ''.''" "\<not> is_digit CHR ''/''"
  by (simp_all add: is_digit_def)

lemma itoa_chars: "c \<in> set (itoa i) \<Longrightarrow> is_digit c \<or> c = CHR ''-''"
  by (auto simp: itoa_def dest: itoa_nat_digits split: if_splits)

lemma itoa_no_dot [simp]: "CHR ''.'' \<notin> set (itoa i)" "CHR ''/'' \<notin> set (itoa i)"
  using itoa_chars [of "CHR ''.''" i] itoa_chars [of "CHR ''/''" i] by auto

lemma itoa_nonempty [simp]: "itoa i \<noteq> []"
  by (simp add: itoa_def)

lemma itoa_nat_no_minus: "hd (itoa_nat n) \<noteq> CHR ''-''"
  using itoa_nat_digits [of "hd (itoa_nat n)" n] by auto

lemma itoa_sign: "hd (itoa i) = CHR ''-'' \<longleftrightarrow> i < 0"
  using itoa_nat_no_minus [of "nat i"] by (simp add: itoa_def)

lemma itoa_inj [simp]: "itoa i = itoa j \<longleftrightarrow> i = j"
proof
  assume eq: "itoa i = itoa j"
  then have "i < 0 \<longleftrightarrow> j < 0" by (metis itoa_sign)
  with eq show "i = j" by (auto simp: itoa_def split: if_splits)
qed simp

text \<open>
  A name that ends in a separator and a printed number determines both parts: the
  printed number holds no separator, so the last separator of the name is the one
  before it.
\<close>

lemma suffix_number_unique:
  assumes "xs @ c # itoa a = ys @ c # itoa b" and "\<not> is_digit c" and "c \<noteq> CHR ''-''"
  shows "xs = ys \<and> a = b"
proof -
  have nc: "c \<notin> set (itoa a)" "c \<notin> set (itoa b)"
    using assms(2,3) itoa_chars [of c a] itoa_chars [of c b] by auto
  from assms(1) have "strings_Split (rev (xs @ c # itoa a)) c = strings_Split (rev (ys @ c # itoa b)) c"
    by simp
  then have "rev (itoa a) # strings_Split (rev xs) c = rev (itoa b) # strings_Split (rev ys) c"
    using nc by (simp add: Split_append)
  then have "itoa a = itoa b" by simp
  with assms(1) show ?thesis by simp
qed

lemmas itoa_eval = itoa_def itoa_nat.simps digit_char_def

section \<open>Paths\<close>

text \<open>\<open>under dir p\<close>: the path \<open>p\<close> lies below the directory \<open>dir\<close>.\<close>

definition under :: "string \<Rightarrow> string \<Rightarrow> bool" where
  "under dir p = (length dir < length p \<and> take (Suc (length dir)) p = dir @ ''/'')"

lemma under_append [simp]: "under dir (dir @ CHR ''/'' # rest)"
  by (simp add: under_def)

lemma under_irrefl [simp]: "\<not> under dir dir"
  by (simp add: under_def)

lemma under_longer: "under dir p \<Longrightarrow> length dir < length p"
  by (simp add: under_def)

lemma under_iff: "under dir p \<longleftrightarrow> (\<exists>rest. p = dir @ CHR ''/'' # rest)"
proof
  assume u: "under dir p"
  have "p = take (Suc (length dir)) p @ drop (Suc (length dir)) p" by simp
  also have "take (Suc (length dir)) p = dir @ ''/''" using u by (simp add: under_def)
  finally have "p = dir @ CHR ''/'' # drop (Suc (length dir)) p" by simp
  then show "\<exists>rest. p = dir @ CHR ''/'' # rest" ..
qed auto

lemma under_trans: "under a b \<Longrightarrow> under b c \<Longrightarrow> under a c"
  by (auto simp: under_iff)

end
