(* ===== verification/Split_Path.thy ===== *)
theory Split_Path
  imports Data Go_Strings
begin

text \<open>
  \<^verbatim>\<open>SplitFilePath\<close> of \<^verbatim>\<open>src/util.go\<close>: the output argument is cut at the platform's
  separator into the name of the file and the path before it. On Windows the
  separator is the backslash; elsewhere it is \<^verbatim>\<open>/\<close>, and a first or second segment
  \<^verbatim>\<open>~\<close> is replaced by the home directory, which is looked up as soon as the argument
  holds a separator. A trailing separator makes the segment before it the file.

  Go's slice \<^verbatim>\<open>split\<close> is a list; \<^verbatim>\<open>split[i] = v\<close> is \<open>split[i := v]\<close> and \<^verbatim>\<open>split[1:]\<close> is
  \<open>tl split\<close>. The last lines of the two branches of the source are the same code with
  another separator; they are the definition \<open>file_and_path\<close>. An index below zero is
  a run-time panic, so the function returns an \<open>outcome\<close>.

  The abstract specification is \<open>split_last\<close> after \<open>chomp\<close>: drop one trailing separator,
  then cut at the last separator that remains. The lemmas show that the Windows branch
  and the branch without a tilde refine it, that the pair returned puts the argument
  together again, what the tilde cases return, and exactly when the function panics.
\<close>

section \<open>Operations\<close>

definition file_and_path :: "string list \<Rightarrow> string \<Rightarrow> (string \<times> string) result outcome" where
  "file_and_path split sep =
     (let n = length split in
      if n < 1 then Panics index_out_of_range
      else if split ! (n - 1) = [] then
        (if n < 2 then Panics index_out_of_range
         else Returns (Inr (split ! (n - 2), strings_Join (take (n - 2) split) sep)))
      else Returns (Inr (split ! (n - 1), strings_Join (take (n - 1) split) sep)))"

definition SplitFilePath :: "platform \<Rightarrow> Data \<Rightarrow> string \<Rightarrow> (string \<times> string) result outcome" where
  "SplitFilePath p d output =
     (if isDos p then
        let split = strings_Split output backslash in
        if length split = 1 then Returns (Inr (output, []))
        else file_and_path split [backslash]
      else
        let split = strings_Split output CHR ''/'' in
        if length split = 1 then Returns (Inr (output, []))
        else
          case home_dir p of
            Inl err \<Rightarrow> Returns (Inl err)
          | Inr home \<Rightarrow>
              let split = (if split ! 0 = ''~'' then split[0 := home]
                           else if split ! 1 = ''~'' then tl (split[1 := home])
                           else split)
              in file_and_path split ''/'')"

section \<open>Specification\<close>

definition chomp :: "char \<Rightarrow> string \<Rightarrow> string" where
  "chomp c s = (if s \<noteq> [] \<and> last s = c then butlast s else s)"

definition split_last :: "char \<Rightarrow> string \<Rightarrow> string \<times> string" where
  "split_last c s =
     (rev (takeWhile (\<lambda>x. x \<noteq> c) (rev s)), rev (drop 1 (dropWhile (\<lambda>x. x \<noteq> c) (rev s))))"

lemma takeWhile_sep: "c \<notin> set b \<Longrightarrow> takeWhile (\<lambda>x. x \<noteq> c) (b @ c # a) = b"
  by (induction b) auto

lemma dropWhile_sep: "c \<notin> set b \<Longrightarrow> dropWhile (\<lambda>x. x \<noteq> c) (b @ c # a) = c # a"
  by (induction b) auto

lemma split_last_none: "c \<notin> set s \<Longrightarrow> split_last c s = (s, [])"
proof -
  assume "c \<notin> set s"
  then have tw: "takeWhile (\<lambda>x. x \<noteq> c) (rev s) = rev s"
    and dw: "dropWhile (\<lambda>x. x \<noteq> c) (rev s) = []"
    by (auto simp: takeWhile_eq_all_conv dropWhile_eq_Nil_conv)
  show ?thesis unfolding split_last_def tw dw by simp
qed

lemma split_last_sep: "c \<notin> set b \<Longrightarrow> split_last c (a @ c # b) = (b, a)"
  by (simp add: split_last_def takeWhile_sep dropWhile_sep)

lemma chomp_sep [simp]: "chomp c (a @ [c]) = a"
  by (simp add: chomp_def)

lemma chomp_other: "b \<noteq> [] \<Longrightarrow> c \<notin> set b \<Longrightarrow> chomp c (a @ b) = a @ b"
  by (auto simp: chomp_def)

section \<open>Segments\<close>

lemma file_and_path_snoc:
  "b \<noteq> [] \<Longrightarrow> file_and_path (segs @ [b]) sep = Returns (Inr (b, strings_Join segs sep))"
  by (simp add: file_and_path_def)

lemma file_and_path_trailing:
  "file_and_path (segs @ [b, []]) sep = Returns (Inr (b, strings_Join segs sep))"
  by (simp add: file_and_path_def nth_append)

lemma file_and_path_Split:
  assumes "c \<in> set s"
  shows "file_and_path (strings_Split s c) [c] = Returns (Inr (split_last c (chomp c s)))"
proof -
  from assms obtain a b where s: "s = a @ c # b" and b: "c \<notin> set b"
    by (auto dest: split_list_last)
  show ?thesis
  proof (cases "b = []")
    case False
    have "chomp c s = s" using False b unfolding s by (auto simp: chomp_def)
    then show ?thesis
      using False b by (simp add: s Split_snoc file_and_path_snoc split_last_sep)
  next
    case True
    then have s': "s = a @ [c]" and ch: "chomp c s = a" by (simp_all add: s)
    show ?thesis
    proof (cases "c \<in> set a")
      case False
      then show ?thesis
        using file_and_path_trailing [of "[]" a "[c]"]
        by (simp add: ch s' Split_trailing Split_single split_last_none)
    next
      case True
      then obtain a' b' where a: "a = a' @ c # b'" and b': "c \<notin> set b'"
        by (auto dest: split_list_last)
      have "strings_Split s c = strings_Split a c @ [[]]"
        by (simp only: s' Split_trailing)
      also have "strings_Split a c = strings_Split a' c @ [b']"
        using b' unfolding a by (rule Split_snoc)
      finally have "strings_Split s c = strings_Split a' c @ [b', []]" by simp
      then show ?thesis
        using b' by (simp add: ch a file_and_path_trailing split_last_sep)
    qed
  qed
qed

section \<open>Which calls return\<close>

lemma file_and_path_Panics_iff:
  "(\<exists>why. file_and_path split sep = Panics why) \<longleftrightarrow> split = [] \<or> split = [[]]"
proof (cases split rule: rev_cases)
  case Nil
  then show ?thesis by (simp add: file_and_path_def)
next
  case (snoc segs b)
  then show ?thesis
    by (cases segs rule: rev_cases) (auto simp: file_and_path_def Let_def nth_append)
qed

lemma file_and_path_not_Inl: "file_and_path split sep \<noteq> Returns (Inl e)"
  by (simp add: file_and_path_def Let_def)

lemma file_and_path_long:
  "2 \<le> length split \<Longrightarrow> \<exists>r. file_and_path split sep = Returns (Inr r)"
  by (auto simp: file_and_path_def Let_def)

lemma chomp_none: "c \<notin> set s \<Longrightarrow> chomp c s = s"
  by (auto simp: chomp_def)

section \<open>The branches\<close>

definition separator :: "platform \<Rightarrow> char" where
  "separator p = (if isDos p then backslash else CHR ''/'')"

definition plain :: "platform \<Rightarrow> string \<Rightarrow> bool" where
  "plain p output =
     (isDos p \<or>
      (''~'' \<notin> set (take 2 (strings_Split output CHR ''/'')) \<and>
       (CHR ''/'' \<in> set output \<longrightarrow> \<not> isl (home_dir p))))"

lemma SplitFilePath_no_sep:
  "separator p \<notin> set output \<Longrightarrow> SplitFilePath p d output = Returns (Inr (output, []))"
  by (simp add: SplitFilePath_def separator_def Let_def split: if_splits)

lemma SplitFilePath_dos:
  "isDos p \<Longrightarrow> backslash \<in> set output \<Longrightarrow>
     SplitFilePath p d output = file_and_path (strings_Split output backslash) [backslash]"
  by (simp add: SplitFilePath_def Let_def)

lemma SplitFilePath_unix:
  assumes "\<not> isDos p" and "CHR ''/'' \<in> set output" and "home_dir p = Inr home"
  shows "SplitFilePath p d output =
     file_and_path
       (let split = strings_Split output CHR ''/'' in
        if split ! 0 = ''~'' then split[0 := home]
        else if split ! 1 = ''~'' then tl (split[1 := home])
        else split) ''/''"
  using assms by (simp add: SplitFilePath_def Let_def)

lemma no_tilde:
  assumes "''~'' \<notin> set (take 2 split)" and "2 \<le> length split"
  shows "split ! 0 \<noteq> ''~''" and "split ! 1 \<noteq> ''~''"
proof -
  obtain a b rest where "split = a # b # rest"
    using assms(2) by (cases split; cases "tl split") auto
  with assms(1) show "split ! 0 \<noteq> ''~''" and "split ! 1 \<noteq> ''~''"
    by (auto simp: numeral_2_eq_2)
qed

lemma SplitFilePath_plain:
  assumes "plain p output" and "separator p \<in> set output"
  shows "SplitFilePath p d output =
           file_and_path (strings_Split output (separator p)) [separator p]"
proof (cases "isDos p")
  case True
  with assms(2) show ?thesis by (simp add: SplitFilePath_dos separator_def)
next
  case False
  with assms have sep: "CHR ''/'' \<in> set output" and "\<not> isl (home_dir p)"
    and nt: "''~'' \<notin> set (take 2 (strings_Split output CHR ''/''))"
    by (simp_all add: plain_def separator_def)
  then obtain home where "home_dir p = Inr home" by (cases "home_dir p") auto
  with False sep no_tilde [OF nt] show ?thesis
    by (simp add: SplitFilePath_unix separator_def Split_two_iff)
qed

lemma Split_tilde [simp]:
  "strings_Split (CHR ''~'' # CHR ''/'' # rest) CHR ''/'' = ''~'' # strings_Split rest CHR ''/''"
  by simp

lemma SplitFilePath_tilde_segs:
  assumes "\<not> isDos p" and "home_dir p = Inr home"
  shows "SplitFilePath p d (CHR ''~'' # CHR ''/'' # rest) =
           file_and_path (home # strings_Split rest CHR ''/'') ''/''"
  using assms by (simp add: SplitFilePath_unix)

lemma SplitFilePath_tilde:
  assumes "\<not> isDos p" and "home_dir p = Inr home" and "CHR ''/'' \<notin> set file" and "file \<noteq> []"
  shows "SplitFilePath p d (''~/'' @ dir @ ''/'' @ file) = Returns (Inr (file, home @ ''/'' @ dir)) \<and>
         SplitFilePath p d (''~/'' @ file) = Returns (Inr (file, home))"
proof -
  have "file_and_path ((home # strings_Split dir CHR ''/'') @ [file]) ''/'' =
      Returns (Inr (file, home @ ''/'' @ dir))"
    using file_and_path_snoc [OF assms(4), of "home # strings_Split dir CHR ''/''" "''/''"]
    by (simp add: Join_Cons)
  moreover have "file_and_path ([home] @ [file]) ''/'' = Returns (Inr (file, home))"
    using file_and_path_snoc [OF assms(4), of "[home]" "''/''"] by simp
  ultimately show ?thesis
    using assms(3) by (simp add: SplitFilePath_tilde_segs [OF assms(1,2)] Split_snoc Split_single)
qed

section \<open>Properties\<close>

text \<open>
  C30. Refinement of the specification: on Windows, and elsewhere when neither of the
  first two segments is \<^verbatim>\<open>~\<close> and the home directory can be found if the argument holds
  a separator, \<^verbatim>\<open>SplitFilePath\<close> returns without error the pair that results from
  dropping one trailing separator and cutting at the last separator that remains
  (an empty path when there is none).
\<close>

theorem SplitFilePath_refines:
  assumes "plain p output"
  shows "SplitFilePath p d output =
           Returns (Inr (split_last (separator p) (chomp (separator p) output)))"
proof (cases "separator p \<in> set output")
  case True
  with assms show ?thesis by (simp add: SplitFilePath_plain file_and_path_Split)
next
  case False
  then show ?thesis by (simp add: SplitFilePath_no_sep chomp_none split_last_none)
qed

theorem SplitFilePath_refines_witness:
  "SplitFilePath \<lparr>goos = ''linux'', disk_free = (\<lambda>v. 0), home_dir = Inr ''/home/u''\<rparr> \<lparr>filename = [], filesize = 0, dirname = []\<rparr> ''dl/a.bin/'' = Returns (Inr (''a.bin'', ''dl''))"
  using SplitFilePath_refines [of "\<lparr>goos = ''linux'', disk_free = (\<lambda>v. 0), home_dir = Inr ''/home/u''\<rparr>" "''dl/a.bin/''" "\<lparr>filename = [], filesize = 0, dirname = []\<rparr>"]
  by (simp add: plain_def isDos_def separator_def chomp_def split_last_def)

text \<open>
  C31. Round trip: under the same conditions, when the argument holds a separator and
  does not end in one, the path and the file returned, put together with a separator,
  are the argument again; the file is not empty and holds no separator.
\<close>

theorem SplitFilePath_roundtrip:
  assumes "plain p output" and "separator p \<in> set output" and "last output \<noteq> separator p"
  shows "\<exists>file path. SplitFilePath p d output = Returns (Inr (file, path)) \<and>
           path @ separator p # file = output \<and> separator p \<notin> set file \<and> file \<noteq> []"
proof -
  from assms(2) obtain a b where out: "output = a @ separator p # b" and b: "separator p \<notin> set b"
    by (auto dest: split_list_last)
  with assms(3) have "b \<noteq> []" by auto
  with b have "file_and_path (strings_Split output (separator p)) [separator p] =
      Returns (Inr (b, a))"
    by (simp add: out Split_snoc file_and_path_snoc)
  with assms(1,2) out b \<open>b \<noteq> []\<close> show ?thesis by (simp add: SplitFilePath_plain)
qed

theorem SplitFilePath_roundtrip_witness:
  "\<exists>file path. SplitFilePath \<lparr>goos = ''linux'', disk_free = (\<lambda>v. 0), home_dir = Inr ''/home/u''\<rparr> \<lparr>filename = [], filesize = 0, dirname = []\<rparr> ''/tmp/dl/a.bin'' = Returns (Inr (file, path)) \<and>
      path @ CHR ''/'' # file = ''/tmp/dl/a.bin'' \<and> CHR ''/'' \<notin> set file \<and> file \<noteq> []"
  using SplitFilePath_roundtrip [of "\<lparr>goos = ''linux'', disk_free = (\<lambda>v. 0), home_dir = Inr ''/home/u''\<rparr>" "''/tmp/dl/a.bin''" "\<lparr>filename = [], filesize = 0, dirname = []\<rparr>"]
  by (simp add: plain_def isDos_def separator_def)

text \<open>
  C40. Tilde as second segment: away from Windows, when the second segment of the
  argument is \<^verbatim>\<open>~\<close> and more segments follow, the first segment is dropped:
  \<^verbatim>\<open><x>/~/<rest>\<close> gives what \<^verbatim>\<open>~/<rest>\<close> gives, whatever \<^verbatim>\<open><x>\<close> is.
\<close>

theorem SplitFilePath_second_tilde:
  assumes "\<not> isDos p" and "CHR ''/'' \<notin> set x" and "x \<noteq> ''~''"
  shows "SplitFilePath p d (x @ ''/~/'' @ rest) = SplitFilePath p d (''~/'' @ rest)"
proof (cases "home_dir p")
  case (Inl e)
  with assms(1) show ?thesis by (simp add: SplitFilePath_def Let_def)
next
  case (Inr home)
  have "strings_Split (x @ ''/~/'' @ rest) CHR ''/'' = x # ''~'' # strings_Split rest CHR ''/''"
    using assms(2) by (simp add: Split_append)
  with assms(1,3) Inr show ?thesis
    by (simp add: SplitFilePath_unix SplitFilePath_tilde_segs)
qed

theorem SplitFilePath_second_tilde_witness:
  "SplitFilePath \<lparr>goos = ''linux'', disk_free = (\<lambda>v. 0), home_dir = Inr ''/home/u''\<rparr> \<lparr>filename = [], filesize = 0, dirname = []\<rparr> ''work/~/a.bin'' = Returns (Inr (''a.bin'', ''/home/u''))"
  using SplitFilePath_second_tilde [of "\<lparr>goos = ''linux'', disk_free = (\<lambda>v. 0), home_dir = Inr ''/home/u''\<rparr>" "''work''" "\<lparr>filename = [], filesize = 0, dirname = []\<rparr>" "''a.bin''"]
  by (simp add: isDos_def SplitFilePath_def file_and_path_def)

text \<open>
  Errors: \<^verbatim>\<open>SplitFilePath\<close> returns an error exactly when it runs away from Windows,
  the argument holds a \<^verbatim>\<open>/\<close> and the lookup of the home directory fails; the error is
  the one of the lookup. The lookup is made, and its failure returned, also when no
  segment is \<^verbatim>\<open>~\<close>.
\<close>

lemma SplitFilePath_error_iff:
  "SplitFilePath p d output = Returns (Inl e) \<longleftrightarrow>
     \<not> isDos p \<and> CHR ''/'' \<in> set output \<and> home_dir p = Inl e"
  by (auto simp: SplitFilePath_def Let_def file_and_path_not_Inl split: sum.splits)

text \<open>
  C39. Panic: \<^verbatim>\<open>SplitFilePath\<close> dies with an index out of range exactly when it runs away
  from Windows, the home directory is the empty string and the argument is \<^verbatim>\<open><x>/~\<close>
  with one segment \<^verbatim>\<open><x>\<close> other than \<^verbatim>\<open>~\<close>. In every other case it returns.
\<close>

theorem SplitFilePath_panics_iff:
  "(\<exists>why. SplitFilePath p d output = Panics why) \<longleftrightarrow>
     \<not> isDos p \<and> home_dir p = Inr [] \<and>
     (\<exists>x. output = x @ ''/~'' \<and> CHR ''/'' \<notin> set x \<and> x \<noteq> ''~'')"
  (is "?l \<longleftrightarrow> ?r")
proof
  assume ?r
  then obtain x where "\<not> isDos p" "home_dir p = Inr []" "output = x @ ''/~''"
    "CHR ''/'' \<notin> set x" "x \<noteq> ''~''" by auto
  then show ?l
    by (simp add: SplitFilePath_unix Split_snoc Split_single file_and_path_def)
next
  assume l: ?l
  let ?split = "strings_Split output CHR ''/''"
  have dos: "\<not> isDos p"
    using l file_and_path_long [of "strings_Split output backslash" "[backslash]"]
    by (auto simp: SplitFilePath_def Let_def Split_two_iff split: if_splits)
  with l have sep: "CHR ''/'' \<in> set output"
    by (auto simp: SplitFilePath_def Let_def split: if_splits)
  with dos l obtain home where home: "home_dir p = Inr home"
    by (cases "home_dir p") (auto simp: SplitFilePath_def Let_def)
  from sep obtain a b rest where split: "?split = a # b # rest"
    using Split_two_iff [of "output" "CHR ''/''"] by (cases ?split; cases "tl ?split") auto
  let ?segs = "if a = ''~'' then home # b # rest
               else if b = ''~'' then home # rest else a # b # rest"
  from l obtain why where "SplitFilePath p d output = Panics why" ..
  then have "file_and_path ?segs ''/'' = Panics why"
    using dos sep home split by (auto simp: SplitFilePath_unix Let_def split: if_splits)
  then have "?segs = [] \<or> ?segs = [[]]"
    using file_and_path_Panics_iff [of ?segs "''/''"] by blast
  then have "a \<noteq> ''~'' \<and> b = ''~'' \<and> rest = [] \<and> home = []"
    by (simp split: if_splits)
  moreover have "output = strings_Join ?split ''/''" by simp
  moreover have "CHR ''/'' \<notin> set a" using Split_pieces [of a "output" "CHR ''/''"] split by simp
  ultimately show ?r using dos home split by auto
qed

theorem SplitFilePath_panics_iff_witness:
  "\<exists>why. SplitFilePath \<lparr>goos = ''linux'', disk_free = (\<lambda>v. 0), home_dir = Inr []\<rparr> \<lparr>filename = [], filesize = 0, dirname = []\<rparr> ''x/~'' =
     Panics why"
  using SplitFilePath_panics_iff
    [of "\<lparr>goos = ''linux'', disk_free = (\<lambda>v. 0), home_dir = Inr []\<rparr>" "\<lparr>filename = [], filesize = 0, dirname = []\<rparr>" "''x/~''"]
  by (simp add: isDos_def)

end
