(* ===== verification/Go_OS.thy ===== *)
theory Go_OS
  imports Go_Strings "HOL-Library.AList"
begin

text \<open>
  The file system as \<^verbatim>\<open>src/util.go\<close> sees it through the packages \<^verbatim>\<open>os\<close> and \<^verbatim>\<open>io\<close>:
  a state \<open>filesys\<close> and one definition per call the source makes (\<^verbatim>\<open>os.Stat\<close>,
  \<^verbatim>\<open>os.Create\<close>, \<^verbatim>\<open>os.Open\<close>, \<^verbatim>\<open>io.Copy\<close>, \<^verbatim>\<open>os.Remove\<close>, \<^verbatim>\<open>os.RemoveAll\<close>). The
  definitions are written from the documented behaviour of these calls, not from code
  under \<^verbatim>\<open>src/\<close>.

  The state is an association list from paths to nodes (a file with its bytes, or a
  directory) and a list of paths on which the operating system refuses every
  operation (\<open>denied\<close>: the source of permission errors). Paths are plain strings;
  \<open>under dir p\<close> is the only structure on them. A file may exist without its parent
  directory being an entry.

  The abstract view of a state is the map \<open>lookup fs\<close>. Each mutating operation is
  proved to refine a map update (\<open>lookup_*\<close>), to keep the keys distinct (\<open>wf_fs\<close>) and
  to leave \<open>denied\<close> alone. \<open>usage\<close> is the number of bytes the files hold; the lemmas
  say how writing and removing a file change it.
\<close>

section \<open>State\<close>

datatype node = File string | Dir

record filesys =
  entries :: "(string \<times> node) list"
  denied :: "string list"

fun node_bytes :: "node \<Rightarrow> nat" where
  "node_bytes (File bytes) = length bytes"
| "node_bytes Dir = 0"

definition lookup :: "filesys \<Rightarrow> string \<Rightarrow> node option" where
  "lookup fs p = map_of (entries fs) p"

definition wf_fs :: "filesys \<Rightarrow> bool" where
  "wf_fs fs = distinct (map fst (entries fs))"

definition enoent :: "string \<Rightarrow> string \<Rightarrow> go_error" where
  "enoent op p = PathError op p ''no such file or directory''"

definition eacces :: "string \<Rightarrow> string \<Rightarrow> go_error" where
  "eacces op p = PathError op p ''permission denied''"

definition eisdir :: "string \<Rightarrow> string \<Rightarrow> go_error" where
  "eisdir op p = PathError op p ''is a directory''"

definition enotempty :: "string \<Rightarrow> string \<Rightarrow> go_error" where
  "enotempty op p = PathError op p ''directory not empty''"

lemmas errno_defs = enoent_def eacces_def eisdir_def enotempty_def

section \<open>Operations\<close>

definition os_Stat :: "filesys \<Rightarrow> string \<Rightarrow> go_error + node" where
  "os_Stat fs p = (case lookup fs p of None \<Rightarrow> Inl (enoent ''stat'' p) | Some n \<Rightarrow> Inr n)"

definition os_Create :: "filesys \<Rightarrow> string \<Rightarrow> go_error + filesys" where
  "os_Create fs p =
     (if p \<in> set (denied fs) then Inl (eacces ''open'' p)
      else if lookup fs p = Some Dir then Inl (eisdir ''open'' p)
      else Inr (fs\<lparr>entries := AList.update p (File []) (entries fs)\<rparr>))"

definition os_Open :: "filesys \<Rightarrow> string \<Rightarrow> go_error + node" where
  "os_Open fs p =
     (if p \<in> set (denied fs) then Inl (eacces ''open'' p)
      else case lookup fs p of None \<Rightarrow> Inl (enoent ''open'' p) | Some n \<Rightarrow> Inr n)"

text \<open>
  \<^verbatim>\<open>io.Copy(dst, src)\<close> reads the source to its end and appends what it read to the file
  behind the destination handle. Reading a directory fails and copies nothing; so
  does writing when the destination is no longer a file. The source ignores the
  result of \<^verbatim>\<open>io.Copy\<close>, so only the new state is returned.
\<close>

definition io_Copy :: "filesys \<Rightarrow> string \<Rightarrow> node \<Rightarrow> filesys" where
  "io_Copy fs dst src =
     (case (lookup fs dst, src) of
        (Some (File old), File bytes) \<Rightarrow>
          fs\<lparr>entries := AList.update dst (File (old @ bytes)) (entries fs)\<rparr>
      | _ \<Rightarrow> fs)"

definition has_children :: "filesys \<Rightarrow> string \<Rightarrow> bool" where
  "has_children fs p = list_ex (\<lambda>(q, n). under p q) (entries fs)"

definition os_Remove :: "filesys \<Rightarrow> string \<Rightarrow> go_error + filesys" where
  "os_Remove fs p =
     (if p \<in> set (denied fs) then Inl (eacces ''remove'' p)
      else case lookup fs p of
        None \<Rightarrow> Inl (enoent ''remove'' p)
      | Some n \<Rightarrow>
          if n = Dir \<and> has_children fs p then Inl (enotempty ''remove'' p)
          else Inr (fs\<lparr>entries := AList.delete p (entries fs)\<rparr>))"

text \<open>
  \<^verbatim>\<open>os.RemoveAll(p)\<close> removes \<open>p\<close> and everything below it, and returns \<^verbatim>\<open>nil\<close> when \<open>p\<close>
  does not exist. An entry that is denied stays, and so does every directory above
  it; then the first such entry is reported.
\<close>

definition doomed :: "string \<Rightarrow> string \<Rightarrow> bool" where
  "doomed p q = (q = p \<or> under p q)"

definition blocked :: "filesys \<Rightarrow> string \<Rightarrow> string list" where
  "blocked fs p = [q \<leftarrow> map fst (entries fs). doomed p q \<and> q \<in> set (denied fs)]"

definition survives :: "filesys \<Rightarrow> string \<Rightarrow> string \<Rightarrow> bool" where
  "survives fs p q = (\<not> doomed p q \<or> list_ex (\<lambda>b. b = q \<or> under q b) (blocked fs p))"

definition os_RemoveAll :: "filesys \<Rightarrow> string \<Rightarrow> go_error option \<times> filesys" where
  "os_RemoveAll fs p =
     (case blocked fs p of [] \<Rightarrow> None | b # _ \<Rightarrow> Some (eacces ''unlinkat'' b),
      fs\<lparr>entries := filter (\<lambda>(q, n). survives fs p q) (entries fs)\<rparr>)"

lemmas os_defs = os_Stat_def os_Create_def os_Open_def io_Copy_def os_Remove_def
  os_RemoveAll_def has_children_def doomed_def blocked_def survives_def lookup_def

section \<open>Refinement of map updates\<close>

lemma lookup_eq: "lookup fs = map_of (entries fs)"
  by (rule ext) (simp add: lookup_def)

lemma finite_dom_lookup [simp]: "finite (dom (lookup fs))"
  by (simp add: lookup_eq finite_dom_map_of)

lemma Stat_Inr_iff: "os_Stat fs p = Inr n \<longleftrightarrow> lookup fs p = Some n"
  by (simp add: os_Stat_def split: option.splits)

lemma Stat_Inl_iff: "(\<exists>e. os_Stat fs p = Inl e) \<longleftrightarrow> lookup fs p = None"
  by (simp add: os_Stat_def split: option.splits)

lemma update_fresh: "k \<notin> fst ` set al \<Longrightarrow> AList.update k v al = al @ [(k, v)]"
  by (induction al) auto

lemma lookup_entries_update [simp]:
  "lookup (fs\<lparr>entries := AList.update p n (entries fs)\<rparr>) = (lookup fs)(p \<mapsto> n)"
  by (rule ext) (simp add: lookup_def update_conv')

lemma lookup_entries_delete [simp]:
  "lookup (fs\<lparr>entries := AList.delete p (entries fs)\<rparr>) = (lookup fs)(p := None)"
  by (rule ext) (simp add: lookup_def delete_conv')

lemma map_of_filter_keys:
  "map_of (filter (\<lambda>(q, n). P q) al) q = (if P q then map_of al q else None)"
  by (induction al) auto

lemma lookup_entries_filter [simp]:
  "lookup (fs\<lparr>entries := filter (\<lambda>(q, n). P q) (entries fs)\<rparr>) q =
     (if P q then lookup fs q else None)"
  by (simp add: lookup_def map_of_filter_keys)

lemma lookup_Create:
  "os_Create fs p = Inr fs' \<Longrightarrow> lookup fs' = (lookup fs)(p \<mapsto> File [])"
  by (auto simp: os_Create_def split: if_splits)

lemma lookup_Remove:
  "os_Remove fs p = Inr fs' \<Longrightarrow> lookup fs' = (lookup fs)(p := None)"
  by (auto simp: os_Remove_def split: if_splits option.splits)

lemma lookup_Copy:
  "lookup (io_Copy fs dst src) =
     (case (lookup fs dst, src) of
        (Some (File old), File bytes) \<Rightarrow> (lookup fs)(dst \<mapsto> File (old @ bytes))
      | _ \<Rightarrow> lookup fs)"
  by (simp add: io_Copy_def split: option.splits node.splits)

lemma lookup_Copy_File [simp]:
  "lookup fs dst = Some (File old) \<Longrightarrow>
     lookup (io_Copy fs dst (File bytes)) = (lookup fs)(dst \<mapsto> File (old @ bytes))"
  by (simp add: lookup_Copy)

lemma lookup_RemoveAll:
  "lookup (snd (os_RemoveAll fs p)) q = (if survives fs p q then lookup fs q else None)"
  by (simp add: os_RemoveAll_def)

lemma RemoveAll_unblocked:
  assumes "blocked fs p = []"
  shows "fst (os_RemoveAll fs p) = None"
    and "lookup (snd (os_RemoveAll fs p)) q = (if doomed p q then None else lookup fs q)"
  using assms by (simp_all add: os_RemoveAll_def survives_def)

lemma RemoveAll_None:
  assumes "os_RemoveAll fs p = (None, fs')"
  shows "lookup fs' q = (if doomed p q then None else lookup fs q)"
proof -
  from assms have "blocked fs p = []" and "fs' = snd (os_RemoveAll fs p)"
    by (auto simp: os_RemoveAll_def split: list.splits)
  then show ?thesis by (simp add: RemoveAll_unblocked)
qed

lemma RemoveAll_absent:
  assumes "\<forall>q. doomed p q \<longrightarrow> lookup fs q = None"
  shows "os_RemoveAll fs p = (None, fs)"
proof -
  have keys: "\<not> doomed p q" if "(q, n) \<in> set (entries fs)" for q n
  proof -
    from that have "q \<in> dom (lookup fs)"
      by (auto simp: lookup_eq dom_map_of_conv_image_fst intro: rev_image_eqI)
    with assms show ?thesis by auto
  qed
  then have "blocked fs p = []" by (auto simp: blocked_def filter_empty_conv)
  moreover have "filter (\<lambda>(q, n). survives fs p q) (entries fs) = entries fs"
    using keys by (auto simp: filter_id_conv survives_def)
  ultimately show ?thesis by (simp add: os_RemoveAll_def)
qed

section \<open>When a call succeeds\<close>

lemma Open_ok:
  "lookup fs p = Some n \<Longrightarrow> p \<notin> set (denied fs) \<Longrightarrow> os_Open fs p = Inr n"
  by (simp add: os_Open_def)

lemma Create_ok:
  "p \<notin> set (denied fs) \<Longrightarrow> lookup fs p \<noteq> Some Dir \<Longrightarrow>
     os_Create fs p = Inr (fs\<lparr>entries := AList.update p (File []) (entries fs)\<rparr>)"
  by (simp add: os_Create_def)

lemma Remove_file_ok:
  "lookup fs p = Some (File c) \<Longrightarrow> p \<notin> set (denied fs) \<Longrightarrow>
     os_Remove fs p = Inr (fs\<lparr>entries := AList.delete p (entries fs)\<rparr>)"
  by (simp add: os_Remove_def)

lemma blocked_empty: "\<forall>q \<in> set (denied fs). \<not> doomed p q \<Longrightarrow> blocked fs p = []"
  by (auto simp: blocked_def filter_empty_conv)

section \<open>When a call fails\<close>

lemma Create_fails_iff:
  "(\<exists>err. os_Create fs p = Inl err) \<longleftrightarrow> p \<in> set (denied fs) \<or> lookup fs p = Some Dir"
  by (simp add: os_Create_def)

lemma os_errors:
  "os_Create fs p = Inl e \<Longrightarrow> \<exists>why. e = PathError ''open'' p why"
  "os_Open fs p = Inl e \<Longrightarrow> \<exists>why. e = PathError ''open'' p why"
  "os_Remove fs p = Inl e \<Longrightarrow> \<exists>why. e = PathError ''remove'' p why"
  by (auto simp: os_Create_def os_Open_def os_Remove_def errno_defs split: if_splits option.splits)

lemma blocked_set:
  "set (blocked fs p) = {q. lookup fs q \<noteq> None \<and> doomed p q \<and> q \<in> set (denied fs)}"
  by (auto simp: blocked_def lookup_eq map_of_eq_None_iff)

lemma RemoveAll_fails:
  assumes "os_RemoveAll fs p = (Some e, fs')"
  shows "\<exists>b. e = eacces ''unlinkat'' b \<and> b \<in> set (denied fs) \<and> doomed p b \<and> lookup fs' b \<noteq> None"
proof -
  from assms obtain b bs where b: "blocked fs p = b # bs" and e: "e = eacces ''unlinkat'' b"
    and fs': "fs' = fs\<lparr>entries := filter (\<lambda>(q, n). survives fs p q) (entries fs)\<rparr>"
    by (auto simp: os_RemoveAll_def split: list.splits)
  from b have "b \<in> set (blocked fs p)" by simp
  then have in_fs: "b \<in> fst ` set (entries fs)" and d: "doomed p b" "b \<in> set (denied fs)"
    by (auto simp: blocked_def)
  have "survives fs p b" using b by (simp add: survives_def)
  with in_fs have "b \<in> fst ` set (entries fs')" by (force simp: fs')
  then have "lookup fs' b \<noteq> None" by (simp add: lookup_eq map_of_eq_None_iff)
  with e d show ?thesis by blast
qed

section \<open>Invariants\<close>

lemma denied_Create: "os_Create fs p = Inr fs' \<Longrightarrow> denied fs' = denied fs"
  by (auto simp: os_Create_def split: if_splits)

lemma denied_Remove: "os_Remove fs p = Inr fs' \<Longrightarrow> denied fs' = denied fs"
  by (auto simp: os_Remove_def split: if_splits option.splits)

lemma denied_Copy [simp]: "denied (io_Copy fs dst src) = denied fs"
  by (simp add: io_Copy_def split: option.splits node.splits)

lemma denied_RemoveAll [simp]: "denied (snd (os_RemoveAll fs p)) = denied fs"
  by (simp add: os_RemoveAll_def)

lemma wf_Create: "os_Create fs p = Inr fs' \<Longrightarrow> wf_fs fs \<Longrightarrow> wf_fs fs'"
  by (auto simp: os_Create_def wf_fs_def distinct_update split: if_splits)

lemma wf_Remove: "os_Remove fs p = Inr fs' \<Longrightarrow> wf_fs fs \<Longrightarrow> wf_fs fs'"
  by (auto simp: os_Remove_def wf_fs_def distinct_delete split: if_splits option.splits)

lemma wf_Copy: "wf_fs fs \<Longrightarrow> wf_fs (io_Copy fs dst src)"
  by (simp add: io_Copy_def wf_fs_def distinct_update split: option.splits node.splits)

lemma wf_RemoveAll: "wf_fs fs \<Longrightarrow> wf_fs (snd (os_RemoveAll fs p))"
  by (simp add: os_RemoveAll_def wf_fs_def distinct_map_filter)

lemmas wf_preserved = wf_Create wf_Remove wf_Copy wf_RemoveAll

section \<open>The bytes on the disk\<close>

text \<open>
  \<open>usage fs\<close> is the number of bytes that the files of \<open>fs\<close> hold. Writing a file
  changes it by the difference of the lengths, removing a file by its length.
\<close>

definition usage :: "filesys \<Rightarrow> nat" where
  "usage fs = sum_list (map (\<lambda>e. node_bytes (snd e)) (entries fs))"

lemma sum_bytes_update:
  "P p \<Longrightarrow>
     sum_list (map (\<lambda>e. node_bytes (snd e)) (filter (\<lambda>(q, n). P q) (AList.update p n al))) +
       (case map_of al p of None \<Rightarrow> 0 | Some n' \<Rightarrow> node_bytes n') =
     sum_list (map (\<lambda>e. node_bytes (snd e)) (filter (\<lambda>(q, n). P q) al)) + node_bytes n"
  by (induction al) auto

lemma sum_bytes_delete:
  "distinct (map fst al) \<Longrightarrow>
     sum_list (map (\<lambda>e. node_bytes (snd e)) (AList.delete p al)) +
       (case map_of al p of None \<Rightarrow> 0 | Some n \<Rightarrow> node_bytes n) =
     sum_list (map (\<lambda>e. node_bytes (snd e)) al)"
  by (induction al) (auto simp: delete_notin_dom [unfolded AList.delete_eq] map_of_eq_None_iff)

lemma usage_update:
  "usage (fs\<lparr>entries := AList.update p n (entries fs)\<rparr>) +
     (case lookup fs p of None \<Rightarrow> 0 | Some n' \<Rightarrow> node_bytes n') = usage fs + node_bytes n"
  using sum_bytes_update [of "\<lambda>q. True" p n "entries fs"] by (simp add: usage_def lookup_def)

lemma usage_delete:
  "wf_fs fs \<Longrightarrow>
     usage (fs\<lparr>entries := AList.delete p (entries fs)\<rparr>) +
       (case lookup fs p of None \<Rightarrow> 0 | Some n \<Rightarrow> node_bytes n) = usage fs"
  using sum_bytes_delete [of "entries fs" p] by (simp add: usage_def lookup_def wf_fs_def)

lemma usage_Copy:
  "lookup fs dst = Some (File old) \<Longrightarrow>
     usage (io_Copy fs dst (File bytes)) = usage fs + length bytes"
  using usage_update [where fs = fs and p = dst and n = "File (old @ bytes)"]
  by (simp add: io_Copy_def)

end
