(* ===== verification/URL_File_Name.thy ===== *)
theory URL_File_Name
  imports Data Go_OS
begin

text \<open>
  \<^verbatim>\<open>URLFileName\<close> of \<^verbatim>\<open>src/util.go\<close>: the name of the output file is the last segment
  of the URL that is not empty, followed by \<^verbatim>\<open>-1\<close>, \<^verbatim>\<open>-2\<close>, ... until no file of that name
  exists. The two loops of the source are the functions \<open>url_scan\<close> and \<open>uniq_loop\<close>,
  each with the loop variables as arguments.

  The first loop walks the segments from the last one backwards and indexes the slice
  without a test, so it dies with an index out of range when every segment is empty.
  The second loop has no bound in the source. It ends because the candidate names
  are pairwise different and the file system holds finitely many names; this is the
  termination proof of \<open>uniq_loop\<close>, with the measure \<open>taken\<close>: the candidates from the
  current counter upwards that exist.

  The lemmas show what the scan returns and exactly when it panics, that the name
  chosen is free and is the first free candidate, and that a second call after the
  file has been created chooses another name.
\<close>

section \<open>Operations\<close>

function url_scan :: "string list \<Rightarrow> int \<Rightarrow> string \<Rightarrow> string outcome" where
  "url_scan token i original =
     (if original = [] then
        let k = int (length token) - i in
        if 0 \<le> k \<and> k < int (length token) then url_scan token (i + 1) (token ! nat k)
        else Panics index_out_of_range
      else Returns original)"
  by pat_completeness auto
termination
  by (relation "measure (\<lambda>(token, i, original). nat (int (length token) + 1 - i))") auto

declare url_scan.simps [simp del]

definition candidate :: "string \<Rightarrow> int \<Rightarrow> string" where
  "candidate original i = original @ ''-'' @ itoa i"

definition taken :: "filesys \<Rightarrow> string \<Rightarrow> int \<Rightarrow> int set" where
  "taken fs original i = {j. i \<le> j \<and> lookup fs (candidate original j) \<noteq> None}"

lemma candidate_inj [simp]: "candidate original i = candidate original j \<longleftrightarrow> i = j"
  by (simp add: candidate_def)

lemma finite_taken [simp]: "finite (taken fs original i)"
proof -
  have "finite (dom (lookup fs))" by simp
  then have "finite (candidate original -` dom (lookup fs))"
    by (rule finite_vimageI) (simp add: inj_on_def)
  moreover have "taken fs original i \<subseteq> candidate original -` dom (lookup fs)"
    by (auto simp: taken_def)
  ultimately show ?thesis by (rule rev_finite_subset)
qed

lemma taken_step:
  "taken fs original i =
     (if lookup fs (candidate original i) \<noteq> None then insert i (taken fs original (i + 1))
      else taken fs original (i + 1))"
proof -
  have "i \<le> j \<longleftrightarrow> j = i \<or> i + 1 \<le> j" for j by arith
  then show ?thesis by (auto simp: taken_def)
qed

lemma card_taken_step:
  "card (taken fs original i) =
     (if lookup fs (candidate original i) \<noteq> None then Suc (card (taken fs original (i + 1)))
      else card (taken fs original (i + 1)))"
proof -
  have "i \<notin> taken fs original (i + 1)" by (simp add: taken_def)
  then show ?thesis by (subst taken_step) simp
qed

function uniq_loop :: "filesys \<Rightarrow> string \<Rightarrow> int \<Rightarrow> string \<Rightarrow> string" where
  "uniq_loop fs original i fname =
     (case os_Stat fs fname of
        Inr info \<Rightarrow> uniq_loop fs original (i + 1) (candidate original i)
      | Inl err \<Rightarrow> fname)"
  by pat_completeness auto
termination
proof (relation "measure (\<lambda>(fs, original, i, fname).
    2 * card (taken fs original i) + (if lookup fs fname = None then 0 else 1))")
  show "wf (measure (\<lambda>(fs, original, i, fname).
    2 * card (taken fs original i) + (if lookup fs fname = None then 0 else 1)))" by simp
next
  fix fs original i fname info
  assume "os_Stat fs fname = Inr info"
  then have "lookup fs fname \<noteq> None" by (simp add: Stat_Inr_iff)
  then show "((fs, original, i + 1, candidate original i), (fs, original, i, fname))
      \<in> measure (\<lambda>(fs, original, i, fname).
        2 * card (taken fs original i) + (if lookup fs fname = None then 0 else 1))"
    by (simp add: card_taken_step [of fs original i])
qed

declare uniq_loop.simps [simp del]

definition URLFileName :: "filesys \<Rightarrow> string \<Rightarrow> Data \<Rightarrow> Data outcome" where
  "URLFileName fs url d =
     (let token = strings_Split url CHR ''/'' in
      case url_scan token 1 [] of
        Panics why \<Rightarrow> Panics why
      | Returns original \<Rightarrow> Returns (d\<lparr>filename := uniq_loop fs original 1 original\<rparr>))"

section \<open>Specification\<close>

text \<open>
  What the two loops are meant to compute: the last segment that is not empty, and the
  first name that is free among the original name and its numbered variants.
\<close>

definition last_nonempty :: "string list \<Rightarrow> string outcome" where
  "last_nonempty token =
     (let ts = filter (\<lambda>t. t \<noteq> []) token
      in if ts = [] then Panics index_out_of_range else Returns (last ts))"

definition candidates :: "string \<Rightarrow> int \<Rightarrow> string list" where
  "candidates original n = original # map (candidate original) [1..n]"

definition first_free :: "filesys \<Rightarrow> string list \<Rightarrow> string option" where
  "first_free fs names = find (\<lambda>q. lookup fs q = None) names"

section \<open>The scan of the segments\<close>

lemma url_scan_found [simp]: "original \<noteq> [] \<Longrightarrow> url_scan token i original = Returns original"
  by (simp add: url_scan.simps)

lemma last_nonempty_snoc:
  "last_nonempty (ts @ [t]) = (if t = [] then last_nonempty ts else Returns t)"
  by (simp add: last_nonempty_def)

lemma url_scan_from:
  "n \<le> length token \<Longrightarrow>
     url_scan token (int (length token) + 1 - int n) [] = last_nonempty (take n token)"
proof (induction n)
  case 0
  then show ?case by (simp add: url_scan.simps last_nonempty_def)
next
  case (Suc n)
  then have n: "n < length token" by simp
  have "url_scan token (int (length token) + 1 - int (Suc n)) [] =
      url_scan token (int (length token) + 1 - int n) (token ! n)"
    using n by (subst url_scan.simps) (simp add: Let_def algebra_simps)
  also have "\<dots> = last_nonempty (take (Suc n) token)"
    using Suc n by (cases "token ! n = []") (simp_all add: take_Suc_conv_app_nth last_nonempty_snoc)
  finally show ?case .
qed

lemma url_scan_all: "url_scan token 1 [] = last_nonempty token"
  using url_scan_from [of "length token" token] by simp

lemma Split_all_empty: "(\<forall>t \<in> set (strings_Split s c). t = []) \<longleftrightarrow> set s \<subseteq> {c}"
proof (induction s)
  case Nil
  then show ?case by simp
next
  case (Cons x s)
  have "strings_Split s c = hd (strings_Split s c) # tl (strings_Split s c)" by simp
  then have "set (strings_Split s c) = insert (hd (strings_Split s c)) (set (tl (strings_Split s c)))"
    by (metis list.simps(15))
  with Cons show ?case by (auto simp: Let_def)
qed

lemma last_nonempty_Panics_iff:
  "(\<exists>why. last_nonempty token = Panics why) \<longleftrightarrow> (\<forall>t \<in> set token. t = [])"
  by (auto simp: last_nonempty_def Let_def filter_empty_conv)

section \<open>The search for a free name\<close>

lemma uniq_loop_free_name: "lookup fs fname = None \<Longrightarrow> uniq_loop fs original i fname = fname"
  by (subst uniq_loop.simps) (simp add: os_Stat_def)

lemma uniq_loop_taken_name:
  "lookup fs fname = Some n \<Longrightarrow>
     uniq_loop fs original i fname = uniq_loop fs original (i + 1) (candidate original i)"
  by (subst uniq_loop.simps) (simp add: os_Stat_def)

lemma uniq_loop_taken:
  "lookup fs fname \<noteq> None \<Longrightarrow>
     uniq_loop fs original i fname = uniq_loop fs original (i + 1) (candidate original i)"
  by (auto simp: uniq_loop_taken_name)

lemmas uniq_loop_eval = uniq_loop_free_name uniq_loop_taken

lemma uniq_loop_free [simp]: "lookup fs (uniq_loop fs original i fname) = None"
proof (induction fs original i fname rule: uniq_loop.induct)
  case (1 fs original i fname)
  show ?case
  proof (cases "lookup fs fname")
    case None
    then show ?thesis by (simp add: uniq_loop_free_name)
  next
    case (Some n)
    then have "os_Stat fs fname = Inr n" by (simp add: Stat_Inr_iff)
    from "1.IH" [OF this] Some show ?thesis by (simp add: uniq_loop_taken_name)
  qed
qed

lemma uniq_loop_first_free:
  "first_free fs (fname # map (candidate original) [i..n]) = Some r \<Longrightarrow>
     uniq_loop fs original i fname = r"
proof (induction fs original i fname rule: uniq_loop.induct)
  case (1 fs original i fname)
  show ?case
  proof (cases "lookup fs fname")
    case None
    with "1.prems" show ?thesis by (simp add: first_free_def uniq_loop_free_name)
  next
    case (Some m)
    then have stat: "os_Stat fs fname = Inr m" by (simp add: Stat_Inr_iff)
    from "1.prems" Some have "i \<le> n"
      by (cases "i \<le> n") (simp_all add: first_free_def)
    then have "[i..n] = i # [i + 1..n]" by (simp add: upto_rec1)
    with "1.prems" Some
    have "first_free fs (candidate original i # map (candidate original) [i + 1..n]) = Some r"
      by (simp add: first_free_def)
    from "1.IH" [OF stat this] Some show ?thesis by (simp add: uniq_loop_taken_name)
  qed
qed

lemma candidate_not_original [simp]:
  "candidate original i \<noteq> original" "original \<noteq> candidate original i"
  by (simp_all add: candidate_def)

lemma distinct_candidates: "distinct (candidates original n)"
  by (auto simp: candidates_def distinct_map inj_on_def)

lemma length_candidates: "0 \<le> n \<Longrightarrow> length (candidates original n) = Suc (nat n)"
  by (simp add: candidates_def)

text \<open>
  Pigeonhole: more candidates than the file system has entries cannot all exist.
\<close>

lemma some_candidate_free:
  "\<exists>r. first_free fs (candidates original (int (length (entries fs)))) = Some r"
proof (rule ccontr)
  let ?names = "candidates original (int (length (entries fs)))"
  assume "\<not> (\<exists>r. first_free fs ?names = Some r)"
  then have "set ?names \<subseteq> dom (lookup fs)"
    by (auto simp: first_free_def find_None_iff)
  then have "card (set ?names) \<le> card (dom (lookup fs))"
    by (simp add: card_mono)
  also have "\<dots> = card (fst ` set (entries fs))"
    by (simp add: lookup_eq dom_map_of_conv_image_fst)
  also have "\<dots> \<le> card (set (entries fs))" by (simp add: card_image_le)
  also have "\<dots> \<le> length (entries fs)" by (rule card_length)
  finally show False
    by (simp add: distinct_card [OF distinct_candidates] length_candidates)
qed

lemma URLFileName_scan:
  "URLFileName fs url d =
     (case last_nonempty (strings_Split url CHR ''/'') of
        Panics why \<Rightarrow> Panics why
      | Returns original \<Rightarrow> Returns (d\<lparr>filename := uniq_loop fs original 1 original\<rparr>))"
  by (simp add: URLFileName_def url_scan_all)

lemma last_nonempty_trailing:
  "name \<noteq> [] \<Longrightarrow> c \<notin> set name \<Longrightarrow>
     last_nonempty (strings_Split (pre @ c # name @ replicate n c) c) = Returns name"
proof (induction n)
  case 0
  then show ?case by (simp add: Split_snoc last_nonempty_snoc)
next
  case (Suc n)
  have "pre @ c # name @ replicate (Suc n) c = (pre @ c # name @ replicate n c) @ [c]"
    by (simp add: replicate_append_same)
  with Suc show ?case by (simp only: Split_trailing last_nonempty_snoc) simp
qed

section \<open>Properties\<close>

text \<open>
  Free name: when \<^verbatim>\<open>URLFileName\<close> returns, no file of the chosen name exists, and the
  size and the directory name of the target are as before.
\<close>

lemma URLFileName_fresh:
  assumes "URLFileName fs url d = Returns d'"
  shows "lookup fs (filename d') = None \<and> filesize d' = filesize d \<and> dirname d' = dirname d"
  using assms by (auto simp: URLFileName_scan split: outcome.splits)

lemma URLFileName_fresh_witness:
  "lookup \<lparr>entries = [(''file'', File ''x''), (''file-1'', File ''y'')], denied = []\<rparr> (filename (\<lparr>filename = [], filesize = 0, dirname = []\<rparr>\<lparr>filename := ''file-2''\<rparr>)) = None"
  using URLFileName_fresh [of "\<lparr>entries = [(''file'', File ''x''), (''file-1'', File ''y'')], denied = []\<rparr>" "''http://example.com/dl/file''" "\<lparr>filename = [], filesize = 0, dirname = []\<rparr>"
      "\<lparr>filename = [], filesize = 0, dirname = []\<rparr>\<lparr>filename := ''file-2''\<rparr>"]
  by (simp add: URLFileName_scan last_nonempty_def uniq_loop_eval lookup_def candidate_def
      itoa_eval)

text \<open>
  C17. First free candidate, and the bound of the search: when the URL has a segment
  that is not empty, \<^verbatim>\<open>URLFileName\<close> returns, and the name it chooses is the first one
  without a file in the list \<open>original, original-1, original-2, ...\<close>, where \<open>original\<close>
  is the last non-empty segment; the search never goes beyond the suffix \<open>-n\<close> for
  \<open>n\<close> the number of entries of the file system.
\<close>

theorem URLFileName_first_free:
  assumes "last_nonempty (strings_Split url CHR ''/'') = Returns original"
  shows "\<exists>r. first_free fs (candidates original (int (length (entries fs)))) = Some r \<and>
           URLFileName fs url d = Returns (d\<lparr>filename := r\<rparr>)"
proof -
  obtain r where r: "first_free fs (candidates original (int (length (entries fs)))) = Some r"
    using some_candidate_free by blast
  then have "uniq_loop fs original 1 original = r"
    unfolding candidates_def by (rule uniq_loop_first_free)
  with r assms show ?thesis by (simp add: URLFileName_scan)
qed

theorem URLFileName_first_free_witness:
  "URLFileName \<lparr>entries = [(''file'', File ''x''), (''file-1'', File ''y'')], denied = []\<rparr> ''http://example.com/dl/file'' \<lparr>filename = [], filesize = 0, dirname = []\<rparr> = Returns (\<lparr>filename = [], filesize = 0, dirname = []\<rparr>\<lparr>filename := ''file-2''\<rparr>)"
  using URLFileName_first_free [of "''http://example.com/dl/file''" "''file''" "\<lparr>entries = [(''file'', File ''x''), (''file-1'', File ''y'')], denied = []\<rparr>" "\<lparr>filename = [], filesize = 0, dirname = []\<rparr>"]
  by (simp add: last_nonempty_def first_free_def candidates_def candidate_def itoa_eval
      lookup_def upto.simps)

text \<open>
  C28. Uniqueness: when a call of \<^verbatim>\<open>URLFileName\<close> has chosen a name and a file of that name
  has then been created, a second call for the same URL returns and chooses a
  different name. In the witness the names are \<^verbatim>\<open>file\<close> and then \<^verbatim>\<open>file-1\<close>.
\<close>

theorem URLFileName_twice:
  assumes "URLFileName fs url d = Returns d1" and "os_Create fs (filename d1) = Inr fs'"
  shows "\<exists>d2. URLFileName fs' url d = Returns d2 \<and> filename d2 \<noteq> filename d1"
proof -
  from assms(1) obtain original where
    "last_nonempty (strings_Split url CHR ''/'') = Returns original"
    by (auto simp: URLFileName_scan split: outcome.splits)
  then have "URLFileName fs' url d =
      Returns (d\<lparr>filename := uniq_loop fs' original 1 original\<rparr>)"
    by (simp add: URLFileName_scan)
  moreover have "lookup fs' (filename d1) \<noteq> None"
    using lookup_Create [OF assms(2)] by simp
  then have "uniq_loop fs' original 1 original \<noteq> filename d1"
    by (metis uniq_loop_free)
  ultimately show ?thesis by simp
qed

theorem URLFileName_twice_witness:
  "URLFileName \<lparr>entries = [], denied = []\<rparr> ''http://example.com/file'' \<lparr>filename = [], filesize = 0, dirname = []\<rparr> = Returns (\<lparr>filename = [], filesize = 0, dirname = []\<rparr>\<lparr>filename := ''file''\<rparr>) \<and>
   (\<exists>d2. URLFileName \<lparr>entries = [(''file'', File [])], denied = []\<rparr> ''http://example.com/file'' \<lparr>filename = [], filesize = 0, dirname = []\<rparr>
       = Returns d2 \<and> filename d2 \<noteq> ''file'')"
proof -
  have first: "URLFileName \<lparr>entries = [], denied = []\<rparr> ''http://example.com/file'' \<lparr>filename = [], filesize = 0, dirname = []\<rparr> =
      Returns (\<lparr>filename = [], filesize = 0, dirname = []\<rparr>\<lparr>filename := ''file''\<rparr>)"
    by (simp add: URLFileName_scan last_nonempty_def uniq_loop_eval lookup_def)
  have "os_Create \<lparr>entries = [], denied = []\<rparr> (filename (\<lparr>filename = [], filesize = 0, dirname = []\<rparr>\<lparr>filename := ''file''\<rparr>)) =
      Inr \<lparr>entries = [(''file'', File [])], denied = []\<rparr>"
    by (simp add: os_Create_def lookup_def)
  from URLFileName_twice [OF first this] first show ?thesis by simp
qed

text \<open>
  The name taken from the URL: for a URL that ends in \<^verbatim>\<open>/<name>\<close> followed by any
  number of \<^verbatim>\<open>/\<close>, where \<^verbatim>\<open><name>\<close> is not empty and holds no \<^verbatim>\<open>/\<close>, and no file \<^verbatim>\<open><name>\<close>
  exists, \<^verbatim>\<open>URLFileName\<close> sets the file name to \<^verbatim>\<open><name>\<close>. Nothing else of the URL is
  interpreted: a query string stays part of the name.
\<close>

lemma URLFileName_segment:
  assumes "name \<noteq> []" and "CHR ''/'' \<notin> set name" and "lookup fs name = None"
  shows "URLFileName fs (pre @ ''/'' @ name @ replicate n CHR ''/'') d =
           Returns (d\<lparr>filename := name\<rparr>)"
  using assms last_nonempty_trailing [of name "CHR ''/''" pre n]
  by (simp add: URLFileName_scan uniq_loop_free_name)

lemma URLFileName_segment_witness:
  "URLFileName \<lparr>entries = [(''file'', File ''x''), (''file-1'', File ''y'')], denied = []\<rparr> ''http://example.com/a.iso?x=1//'' \<lparr>filename = [], filesize = 0, dirname = []\<rparr> = Returns (\<lparr>filename = [], filesize = 0, dirname = []\<rparr>\<lparr>filename := ''a.iso?x=1''\<rparr>)"
  using URLFileName_segment [of "''a.iso?x=1''" "\<lparr>entries = [(''file'', File ''x''), (''file-1'', File ''y'')], denied = []\<rparr>" "''http://example.com''" 2 "\<lparr>filename = [], filesize = 0, dirname = []\<rparr>"]
  by (simp add: lookup_def numeral_2_eq_2)

text \<open>
  C38. Panic: \<^verbatim>\<open>URLFileName\<close> dies with an index out of range exactly when the URL
  consists of \<^verbatim>\<open>/\<close> only (the empty URL included): then every segment is empty and the
  scan runs off the front of the slice. In every other case it returns.
\<close>

theorem URLFileName_panics_iff:
  "(\<exists>why. URLFileName fs url d = Panics why) \<longleftrightarrow> set url \<subseteq> {CHR ''/''}"
proof -
  have "(\<exists>why. URLFileName fs url d = Panics why) \<longleftrightarrow>
      (\<exists>why. last_nonempty (strings_Split url CHR ''/'') = Panics why)"
    by (auto simp: URLFileName_scan split: outcome.splits)
  then show ?thesis by (simp add: last_nonempty_Panics_iff Split_all_empty)
qed

end
