(* ===== verification/Progress_Monitor.thy ===== *)
theory Progress_Monitor
  imports Data "HOL-Library.Multiset"
begin

text \<open>
  The progress monitor: \<^verbatim>\<open>subDirsize\<close> and \<^verbatim>\<open>ProgressBar\<close> of \<^verbatim>\<open>src/util.go\<close>.

  \<^verbatim>\<open>subDirsize\<close> hands a callback to \<^verbatim>\<open>filepath.Walk\<close>. The walk itself is library code:
  it is \<open>filepath_Walk\<close>, which presents a list of visits (path, file information or
  \<^verbatim>\<open>nil\<close>, error or \<^verbatim>\<open>nil\<close>) to the callback in order and stops at the first visit for
  which the callback returns an error. Which visits a directory yields at the moment
  of a poll is an input (\<open>tree_view\<close>). The callback is \<open>walk_fn\<close>: it calls
  \<^verbatim>\<open>info.IsDir()\<close> before it looks at the error, so a visit without file information
  (the directory itself is missing, or an entry disappeared during the walk) is a
  nil dereference. Sizes are \<^verbatim>\<open>int64\<close>; the sum wraps. As long as every visit carries
  file information and no error, the result depends only on the multiset of the
  visits, not on their order (\<open>subDirsize_order\<close>).

  \<^verbatim>\<open>ProgressBar\<close> is a loop without bound. One iteration is \<open>poll\<close>; what the iteration
  sees (whether the context is cancelled, and the tree) is an observation \<open>obs\<close>. The
  state \<open>monitor\<close> records what the loop has done so far: the values passed to
  \<^verbatim>\<open>bar.Set64\<close>, whether \<^verbatim>\<open>bar.Finish\<close> was called, what was sent on \<^verbatim>\<open>ch.Err\<close> and
  \<^verbatim>\<open>ch.Done\<close>, and whether the function is still running, has returned or has died.
  \<open>ProgressBar d obs\<close> runs the loop on a list of observations and stops polling as
  soon as the function has returned; with too few observations the state is still
  \<open>Running\<close>. The rendering of the bar and the sleep of 100 ms are not modelled.

  The same iteration is given as a step relation \<open>monitor_step\<close> with one rule per
  branch of the loop body; \<open>poll\<close> is shown to be its functional form, and the
  invariant of the monitor is proved by rule induction over the reachable states.
  The relation is executable as a test and as the computation of the next state.
\<close>

section \<open>The walk\<close>

datatype file_info = FileInfo (IsDir: bool) (Size: i64)

type_synonym visit = "string \<times> file_info option \<times> go_error option"

type_synonym tree_view = "string \<Rightarrow> visit list"

fun filepath_Walk ::
  "visit list \<Rightarrow> ('s \<Rightarrow> visit \<Rightarrow> ('s \<times> go_error option) outcome) \<Rightarrow> 's \<Rightarrow>
     ('s \<times> go_error option) outcome" where
  "filepath_Walk [] fn s = Returns (s, None)"
| "filepath_Walk (v # vs) fn s =
     (case fn s v of
        Panics why \<Rightarrow> Panics why
      | Returns (s', Some err) \<Rightarrow> Returns (s', Some err)
      | Returns (s', None) \<Rightarrow> filepath_Walk vs fn s')"

definition walk_fn :: "i64 \<Rightarrow> visit \<Rightarrow> (i64 \<times> go_error option) outcome" where
  "walk_fn sz v =
     (case v of (path, info, err) \<Rightarrow>
        (case info of
           None \<Rightarrow> Panics nil_dereference
         | Some fi \<Rightarrow> Returns (if \<not> IsDir fi then sz + Size fi else sz, err)))"

definition subDirsize :: "tree_view \<Rightarrow> Data \<Rightarrow> string \<Rightarrow> (i64 \<times> go_error option) outcome" where
  "subDirsize view d dir = filepath_Walk (view dir) walk_fn 0"

section \<open>The polling loop\<close>

datatype status = Running | Returned | Panicked string

record obs =
  ctx_done :: bool
  tree :: tree_view

record monitor =
  bar :: "i64 list"
  bar_finished :: bool
  ch_Err :: "go_error list"
  ch_Done :: "bool list"
  status :: status

definition started :: monitor where
  "started = \<lparr>bar = [], bar_finished = False, ch_Err = [], ch_Done = [], status = Running\<rparr>"

definition poll :: "Data \<Rightarrow> obs \<Rightarrow> monitor \<Rightarrow> monitor" where
  "poll d ob m =
     (if ctx_done ob then m\<lparr>status := Returned\<rparr>
      else
        case subDirsize (tree ob) d (dirname d) of
          Panics why \<Rightarrow> m\<lparr>status := Panicked why\<rparr>
        | Returns (sz, Some err) \<Rightarrow>
            m\<lparr>ch_Err := ch_Err m @ [Wrap err ''failed to get directory size''],
              status := Returned\<rparr>
        | Returns (sz, None) \<Rightarrow>
            if word_sless sz (int64 (filesize d)) then m\<lparr>bar := bar m @ [sz]\<rparr>
            else m\<lparr>bar := bar m @ [int64 (filesize d)], bar_finished := True,
                   ch_Done := ch_Done m @ [True], status := Returned\<rparr>)"

fun poll_loop :: "Data \<Rightarrow> obs list \<Rightarrow> monitor \<Rightarrow> monitor" where
  "poll_loop d [] m = m"
| "poll_loop d (ob # obs) m =
     (if status m = Running then poll_loop d obs (poll d ob m) else m)"

definition ProgressBar :: "Data \<Rightarrow> obs list \<Rightarrow> monitor" where
  "ProgressBar d obs = poll_loop d obs started"

section \<open>The loop as a step relation\<close>

inductive monitor_step :: "Data \<Rightarrow> obs \<Rightarrow> monitor \<Rightarrow> monitor \<Rightarrow> bool" for d ob where
  cancelled:
    "status m = Running \<Longrightarrow> ctx_done ob \<Longrightarrow> monitor_step d ob m (m\<lparr>status := Returned\<rparr>)"
| died:
    "status m = Running \<Longrightarrow> \<not> ctx_done ob \<Longrightarrow>
     subDirsize (tree ob) d (dirname d) = Panics why \<Longrightarrow>
     monitor_step d ob m (m\<lparr>status := Panicked why\<rparr>)"
| failed:
    "status m = Running \<Longrightarrow> \<not> ctx_done ob \<Longrightarrow>
     subDirsize (tree ob) d (dirname d) = Returns (sz, Some err) \<Longrightarrow>
     monitor_step d ob m
       (m\<lparr>ch_Err := ch_Err m @ [Wrap err ''failed to get directory size''], status := Returned\<rparr>)"
| progress:
    "status m = Running \<Longrightarrow> \<not> ctx_done ob \<Longrightarrow>
     subDirsize (tree ob) d (dirname d) = Returns (sz, None) \<Longrightarrow>
     word_sless sz (int64 (filesize d)) \<Longrightarrow>
     monitor_step d ob m (m\<lparr>bar := bar m @ [sz]\<rparr>)"
| complete:
    "status m = Running \<Longrightarrow> \<not> ctx_done ob \<Longrightarrow>
     subDirsize (tree ob) d (dirname d) = Returns (sz, None) \<Longrightarrow>
     \<not> word_sless sz (int64 (filesize d)) \<Longrightarrow>
     monitor_step d ob m
       (m\<lparr>bar := bar m @ [int64 (filesize d)], bar_finished := True,
          ch_Done := ch_Done m @ [True], status := Returned\<rparr>)"

inductive_cases monitor_stepE: "monitor_step d ob m m'"

code_pred (modes: i \<Rightarrow> i \<Rightarrow> i \<Rightarrow> i \<Rightarrow> bool, i \<Rightarrow> i \<Rightarrow> i \<Rightarrow> o \<Rightarrow> bool) monitor_step .

inductive monitor_reachable :: "Data \<Rightarrow> monitor \<Rightarrow> bool" for d where
  init: "monitor_reachable d started"
| step: "monitor_reachable d m \<Longrightarrow> monitor_step d ob m m' \<Longrightarrow> monitor_reachable d m'"

lemma monitor_step_poll: "monitor_step d ob m m' \<longleftrightarrow> status m = Running \<and> m' = poll d ob m"
proof
  assume "monitor_step d ob m m'"
  then show "status m = Running \<and> m' = poll d ob m"
    by cases (simp_all add: poll_def)
next
  assume r: "status m = Running \<and> m' = poll d ob m"
  show "monitor_step d ob m m'"
  proof (cases "ctx_done ob")
    case True
    with r show ?thesis by (simp add: poll_def monitor_step.cancelled)
  next
    case False
    show ?thesis
    proof (cases "subDirsize (tree ob) d (dirname d)")
      case (Panics why)
      with r False show ?thesis by (simp add: poll_def monitor_step.died)
    next
      case (Returns res)
      obtain sz err where res: "res = (sz, err)" by (cases res)
      show ?thesis
      proof (cases err)
        case (Some e)
        with r False Returns res show ?thesis by (simp add: poll_def monitor_step.failed)
      next
        case None
        with r False Returns res show ?thesis
          by (cases "word_sless sz (int64 (filesize d))")
            (simp_all add: poll_def monitor_step.progress monitor_step.complete)
      qed
    qed
  qed
qed

lemma monitor_reachable_poll: "monitor_reachable d m \<Longrightarrow> status m = Running \<Longrightarrow> monitor_reachable d (poll d ob m)"
  by (rule monitor_reachable.step [where ob = ob]) (simp_all add: monitor_step_poll)

section \<open>What a walk returns\<close>

text \<open>
  A visit is plain when it carries file information and no error. \<open>visit_size\<close> is
  what the callback adds for a visit: the size of a file, nothing for a directory.
\<close>

fun plain_visit :: "visit \<Rightarrow> bool" where
  "plain_visit (path, Some fi, None) = True"
| "plain_visit (path, info, err) = False"

fun visit_size :: "visit \<Rightarrow> i64" where
  "visit_size (path, Some fi, err) = (if IsDir fi then 0 else Size fi)"
| "visit_size (path, None, err) = 0"

lemma walk_fn_plain: "plain_visit v \<Longrightarrow> walk_fn sz v = Returns (sz + visit_size v, None)"
  by (cases v rule: plain_visit.cases) (simp_all add: walk_fn_def)

lemma walk_fn_error:
  "walk_fn sz (path, Some fi, Some err) = Returns (sz + visit_size (path, Some fi, Some err), Some err)"
  by (simp add: walk_fn_def)

lemma walk_fn_nil: "walk_fn sz (path, None, err) = Panics nil_dereference"
  by (simp add: walk_fn_def)

lemma Walk_plain:
  "list_all plain_visit vs \<Longrightarrow>
     filepath_Walk (vs @ rest) walk_fn sz =
       filepath_Walk rest walk_fn (sz + sum_list (map visit_size vs))"
  by (induction vs arbitrary: sz) (simp_all add: walk_fn_plain add.assoc)

lemmas Walk_rules = Walk_plain walk_fn_plain walk_fn_error walk_fn_nil

lemma subDirsize_error:
  assumes "view dir = vs @ (path, Some fi, Some err) # rest" and "list_all plain_visit vs"
  shows "subDirsize view d dir =
           Returns (sum_list (map visit_size vs) + visit_size (path, Some fi, Some err), Some err)"
  using assms by (simp add: subDirsize_def Walk_rules)

text \<open>
  The order of the visits does not matter as long as every visit is plain: two walks
  that pass the same visits, each as often as the other, return the same size. So
  the result does not depend on the order in which \<^verbatim>\<open>filepath.Walk\<close> goes through a
  directory.
\<close>

lemma subDirsize_plain:
  "list_all plain_visit (view dir) \<Longrightarrow>
     subDirsize view d dir = Returns (sum_mset (image_mset visit_size (mset (view dir))), None)"
  using Walk_plain [of "view dir" "[]" 0]
  by (simp add: subDirsize_def flip: sum_mset_sum_list)

lemma subDirsize_order:
  assumes "list_all plain_visit (view dir)" and "mset (view' dir') = mset (view dir)"
  shows "subDirsize view' d' dir' = subDirsize view d dir"
proof -
  have "set (view' dir') = set (view dir)" using assms(2) by (rule mset_eq_setD)
  with assms(1) have "list_all plain_visit (view' dir')" by (simp add: list_all_iff)
  with assms show ?thesis by (simp add: subDirsize_plain)
qed

section \<open>What the loop does\<close>

definition probe :: "Data \<Rightarrow> obs \<Rightarrow> (i64 \<times> go_error option) outcome" where
  "probe d ob = subDirsize (tree ob) d (dirname d)"

fun seen :: "(i64 \<times> go_error option) outcome \<Rightarrow> i64" where
  "seen (Returns (sz, err)) = sz"
| "seen (Panics why) = 0"

text \<open>
  An observation is quiet when the iteration that sees it goes on to the next one:
  the context is not cancelled and the probe returns a size below the file size.
\<close>

definition quiet :: "Data \<Rightarrow> obs \<Rightarrow> bool" where
  "quiet d ob =
     (\<not> ctx_done ob \<and> probe d ob = Returns (seen (probe d ob), None) \<and>
      word_sless (seen (probe d ob)) (int64 (filesize d)))"

lemma poll_quiet: "quiet d ob \<Longrightarrow> poll d ob m = m\<lparr>bar := bar m @ [seen (probe d ob)]\<rparr>"
  by (auto simp: quiet_def poll_def probe_def split: outcome.splits option.splits)

lemma poll_not_quiet: "\<not> quiet d ob \<Longrightarrow> status (poll d ob m) \<noteq> Running"
  by (auto simp: quiet_def poll_def probe_def split: outcome.splits option.splits)

lemma poll_cancelled: "ctx_done ob \<Longrightarrow> poll d ob m = m\<lparr>status := Returned\<rparr>"
  by (simp add: poll_def)

lemma poll_complete:
  "\<not> ctx_done ob \<Longrightarrow> probe d ob = Returns (sz, None) \<Longrightarrow>
   \<not> word_sless sz (int64 (filesize d)) \<Longrightarrow>
     poll d ob m = m\<lparr>bar := bar m @ [int64 (filesize d)], bar_finished := True,
                    ch_Done := ch_Done m @ [True], status := Returned\<rparr>"
  by (simp add: poll_def probe_def)

lemma poll_failed:
  "\<not> ctx_done ob \<Longrightarrow> probe d ob = Returns (sz, Some err) \<Longrightarrow>
     poll d ob m = m\<lparr>ch_Err := ch_Err m @ [Wrap err ''failed to get directory size''],
                    status := Returned\<rparr>"
  by (simp add: poll_def probe_def)

lemma poll_died:
  "\<not> ctx_done ob \<Longrightarrow> probe d ob = Panics why \<Longrightarrow> poll d ob m = m\<lparr>status := Panicked why\<rparr>"
  by (simp add: poll_def probe_def)

lemmas poll_rules = poll_cancelled poll_complete poll_failed poll_died

lemma poll_loop_stopped [simp]: "status m \<noteq> Running \<Longrightarrow> poll_loop d obs m = m"
  by (cases obs) simp_all

lemma poll_loop_append: "poll_loop d (xs @ ys) m = poll_loop d ys (poll_loop d xs m)"
  by (induction xs arbitrary: m) simp_all

lemma poll_loop_quiet:
  "list_all (quiet d) pre \<Longrightarrow> status m = Running \<Longrightarrow>
     poll_loop d pre m = m\<lparr>bar := bar m @ map (\<lambda>ob. seen (probe d ob)) pre\<rparr>"
  by (induction pre arbitrary: m) (simp_all add: poll_quiet)

lemma poll_loop_last:
  assumes "list_all (quiet d) pre" and "status m = Running"
    and "status (poll d ob (m\<lparr>bar := bar m @ map (\<lambda>ob. seen (probe d ob)) pre\<rparr>)) \<noteq> Running"
  shows "poll_loop d (pre @ ob # post) m =
           poll d ob (m\<lparr>bar := bar m @ map (\<lambda>ob. seen (probe d ob)) pre\<rparr>)"
  using assms by (simp add: poll_loop_append poll_loop_quiet)

lemma poll_loop_running:
  "status m = Running \<Longrightarrow> status (poll_loop d obs m) = Running \<longleftrightarrow> list_all (quiet d) obs"
proof (induction obs arbitrary: m)
  case Nil
  then show ?case by simp
next
  case (Cons ob obs)
  show ?case
  proof (cases "quiet d ob")
    case True
    with Cons show ?thesis by (simp add: poll_quiet)
  next
    case False
    then have "status (poll d ob m) \<noteq> Running" by (rule poll_not_quiet)
    with Cons.prems False show ?thesis by simp
  qed
qed

lemma quiet_below:
  "list_all (quiet d) pre \<Longrightarrow>
     list_all (\<lambda>v. word_sless v (int64 (filesize d))) (map (\<lambda>ob. seen (probe d ob)) pre)"
  by (induction pre) (simp_all add: quiet_def)

section \<open>The invariant\<close>

text \<open>
  What holds of the monitor whatever it has observed: \<^verbatim>\<open>ch.Done\<close> has received
  \<^verbatim>\<open>true\<close> once if the bar was finished and nothing otherwise; an error is sent at most
  once and never together with the completion; nothing is sent while the function
  is running; a finished bar shows the file size last; and no value shown exceeds
  the file size, read as \<^verbatim>\<open>int64\<close>.
\<close>

definition monitor_inv :: "Data \<Rightarrow> monitor \<Rightarrow> bool" where
  "monitor_inv d m =
     (ch_Done m = (if bar_finished m then [True] else []) \<and>
      length (ch_Err m) \<le> 1 \<and>
      (bar_finished m \<longrightarrow> ch_Err m = [] \<and> bar m \<noteq> [] \<and> last (bar m) = int64 (filesize d)) \<and>
      (status m = Running \<longrightarrow> \<not> bar_finished m \<and> ch_Err m = []) \<and>
      list_all (\<lambda>v. word_sless v (int64 (filesize d)))
        (if bar_finished m then butlast (bar m) else bar m))"

lemma monitor_inv_started: "monitor_inv d started"
  by (simp add: monitor_inv_def started_def)

lemma monitor_step_inv: "monitor_step d ob m m' \<Longrightarrow> monitor_inv d m \<Longrightarrow> monitor_inv d m'"
  by (induction rule: monitor_step.induct) (auto simp: monitor_inv_def)

lemma poll_loop_reachable:
  "monitor_reachable d m \<Longrightarrow> monitor_reachable d (poll_loop d obs m)"
  by (induction obs arbitrary: m) (simp_all add: monitor_reachable_poll)

section \<open>Properties\<close>

text \<open>
  C25. Size of the workspace: when the walk of the directory passes only visits with
  file information and without error, \<^verbatim>\<open>subDirsize\<close> returns no error and the sum of the
  sizes of the files visited, directories not counted, added up in \<^verbatim>\<open>int64\<close>.
\<close>

theorem subDirsize_sum:
  assumes "list_all plain_visit (view dir)"
  shows "subDirsize view d dir = Returns (sum_list (map visit_size (view dir)), None)"
  using Walk_plain [OF assms, of "[]" 0] by (simp add: subDirsize_def)

theorem subDirsize_sum_witness:
  "subDirsize (\<lambda>dir. [(dir, Some (FileInfo True 4096), None),
       (dir @ ''/f.2.0'', Some (FileInfo False 40), None),
       (dir @ ''/f.2.1'', Some (FileInfo False 50), None)]) \<lparr>filename = ''f'', filesize = 100, dirname = ''_f.2''\<rparr> ''_f.2'' = Returns (90, None)"
  using subDirsize_sum [of "\<lambda>dir. [(dir, Some (FileInfo True 4096), None),
       (dir @ ''/f.2.0'', Some (FileInfo False 40), None),
       (dir @ ''/f.2.1'', Some (FileInfo False 50), None)]" "''_f.2''" "\<lparr>filename = ''f'', filesize = 100, dirname = ''_f.2''\<rparr>"]
  by simp

text \<open>
  A visit without file information: when the walk passes \<^verbatim>\<open>nil\<close> for the file
  information, as it does for a directory that does not exist and for an entry that
  disappears during the walk, the callback calls \<^verbatim>\<open>info.IsDir()\<close> on it and
  \<^verbatim>\<open>subDirsize\<close> dies with a nil dereference; the error that came with the visit is
  never returned.
\<close>

lemma subDirsize_nil_info:
  assumes "view dir = vs @ (path, None, err) # rest" and "list_all plain_visit vs"
  shows "subDirsize view d dir = Panics nil_dereference"
  using assms by (simp add: subDirsize_def Walk_rules)

lemma subDirsize_nil_info_witness:
  "subDirsize (\<lambda>dir. [(dir, None, Some (PathError ''lstat'' dir ''no such file or directory''))])
      \<lparr>filename = ''f'', filesize = 100, dirname = ''_f.2''\<rparr> ''_f.2'' = Panics nil_dereference"
  using subDirsize_nil_info [of
      "\<lambda>dir. [(dir, None, Some (PathError ''lstat'' dir ''no such file or directory''))]"
      "''_f.2''" "[]" "''_f.2''" "Some (PathError ''lstat'' ''_f.2'' ''no such file or directory'')"
      "[]" "\<lparr>filename = ''f'', filesize = 100, dirname = ''_f.2''\<rparr>"]
  by simp

lemmas probe_eval = quiet_def probe_def subDirsize_def walk_fn_def int64_def word_sless_alt

text \<open>
  C8. Completion: when the observations seen first are all quiet and the next one
  shows, without cancellation and without error, a size that is not below the file
  size, \<^verbatim>\<open>ProgressBar\<close> returns after that observation; the bar was set to each size
  seen, in order, and last to the file size, it was finished, \<^verbatim>\<open>true\<close> was sent on
  \<^verbatim>\<open>ch.Done\<close> once and nothing on \<^verbatim>\<open>ch.Err\<close>. Later observations are not looked at. The
  witness has the sizes 0, 40, 90, 100 for a file of size 100.
\<close>

theorem ProgressBar_completes:
  assumes "list_all (quiet d) pre" and "\<not> ctx_done ob" and "probe d ob = Returns (sz, None)"
    and "\<not> word_sless sz (int64 (filesize d))"
  shows "ProgressBar d (pre @ ob # post) =
           \<lparr>bar = map (\<lambda>ob. seen (probe d ob)) pre @ [int64 (filesize d)], bar_finished = True,
            ch_Err = [], ch_Done = [True], status = Returned\<rparr>"
  using assms by (simp add: ProgressBar_def poll_loop_last poll_complete started_def)

theorem ProgressBar_completes_witness:
  "ProgressBar \<lparr>filename = ''f'', filesize = 100, dirname = ''_f.2''\<rparr> [\<lparr>ctx_done = False, tree = (\<lambda>dir. [(dir, Some (FileInfo True 0), None), (dir @ ''/f.2.0'', Some (FileInfo False 0), None)])\<rparr>, \<lparr>ctx_done = False, tree = (\<lambda>dir. [(dir, Some (FileInfo True 0), None), (dir @ ''/f.2.0'', Some (FileInfo False 40), None)])\<rparr>, \<lparr>ctx_done = False, tree = (\<lambda>dir. [(dir, Some (FileInfo True 0), None), (dir @ ''/f.2.0'', Some (FileInfo False 90), None)])\<rparr>, \<lparr>ctx_done = False, tree = (\<lambda>dir. [(dir, Some (FileInfo True 0), None), (dir @ ''/f.2.0'', Some (FileInfo False 100), None)])\<rparr>, \<lparr>ctx_done = False, tree = (\<lambda>dir. [(dir, Some (FileInfo True 0), None), (dir @ ''/f.2.0'', Some (FileInfo False 100), None)])\<rparr>] =
     \<lparr>bar = [0, 40, 90, 100], bar_finished = True, ch_Err = [], ch_Done = [True],
      status = Returned\<rparr>"
  using ProgressBar_completes [of "\<lparr>filename = ''f'', filesize = 100, dirname = ''_f.2''\<rparr>" "[\<lparr>ctx_done = False, tree = (\<lambda>dir. [(dir, Some (FileInfo True 0), None), (dir @ ''/f.2.0'', Some (FileInfo False 0), None)])\<rparr>, \<lparr>ctx_done = False, tree = (\<lambda>dir. [(dir, Some (FileInfo True 0), None), (dir @ ''/f.2.0'', Some (FileInfo False 40), None)])\<rparr>, \<lparr>ctx_done = False, tree = (\<lambda>dir. [(dir, Some (FileInfo True 0), None), (dir @ ''/f.2.0'', Some (FileInfo False 90), None)])\<rparr>]" "\<lparr>ctx_done = False, tree = (\<lambda>dir. [(dir, Some (FileInfo True 0), None), (dir @ ''/f.2.0'', Some (FileInfo False 100), None)])\<rparr>" 100 "[\<lparr>ctx_done = False, tree = (\<lambda>dir. [(dir, Some (FileInfo True 0), None), (dir @ ''/f.2.0'', Some (FileInfo False 100), None)])\<rparr>]"]
  by (simp add: probe_eval)

text \<open>
  C26. Cancellation: when the observations seen first are all quiet and the next one
  finds the context cancelled, \<^verbatim>\<open>ProgressBar\<close> returns without probing the directory
  and without sending anything on either channel; the bar is left unfinished at the
  last size seen.
\<close>

theorem ProgressBar_cancelled:
  assumes "list_all (quiet d) pre" and "ctx_done ob"
  shows "ProgressBar d (pre @ ob # post) =
           \<lparr>bar = map (\<lambda>ob. seen (probe d ob)) pre, bar_finished = False,
            ch_Err = [], ch_Done = [], status = Returned\<rparr>"
  using assms by (simp add: ProgressBar_def poll_loop_last poll_cancelled started_def)

theorem ProgressBar_cancelled_witness:
  "ProgressBar \<lparr>filename = ''f'', filesize = 100, dirname = ''_f.2''\<rparr> [\<lparr>ctx_done = False, tree = (\<lambda>dir. [(dir, Some (FileInfo True 0), None), (dir @ ''/f.2.0'', Some (FileInfo False 0), None)])\<rparr>, \<lparr>ctx_done = False, tree = (\<lambda>dir. [(dir, Some (FileInfo True 0), None), (dir @ ''/f.2.0'', Some (FileInfo False 40), None)])\<rparr>, \<lparr>ctx_done = True, tree = (\<lambda>dir. [])\<rparr>, \<lparr>ctx_done = False, tree = (\<lambda>dir. [(dir, Some (FileInfo True 0), None), (dir @ ''/f.2.0'', Some (FileInfo False 100), None)])\<rparr>] =
     \<lparr>bar = [0, 40], bar_finished = False, ch_Err = [], ch_Done = [], status = Returned\<rparr>"
  using ProgressBar_cancelled [of "\<lparr>filename = ''f'', filesize = 100, dirname = ''_f.2''\<rparr>" "[\<lparr>ctx_done = False, tree = (\<lambda>dir. [(dir, Some (FileInfo True 0), None), (dir @ ''/f.2.0'', Some (FileInfo False 0), None)])\<rparr>, \<lparr>ctx_done = False, tree = (\<lambda>dir. [(dir, Some (FileInfo True 0), None), (dir @ ''/f.2.0'', Some (FileInfo False 40), None)])\<rparr>]"
      "\<lparr>ctx_done = True, tree = (\<lambda>dir. [])\<rparr>" "[\<lparr>ctx_done = False, tree = (\<lambda>dir. [(dir, Some (FileInfo True 0), None), (dir @ ''/f.2.0'', Some (FileInfo False 100), None)])\<rparr>]"]
  by (simp add: probe_eval)

text \<open>
  C27. Probe error: when the observations seen first are all quiet and the next probe
  returns an error, \<^verbatim>\<open>ProgressBar\<close> sends that error, wrapped with
  \<^verbatim>\<open>failed to get directory size\<close>, on \<^verbatim>\<open>ch.Err\<close> once, sends nothing on \<^verbatim>\<open>ch.Done\<close> and
  returns.
\<close>

theorem ProgressBar_probe_error:
  assumes "list_all (quiet d) pre" and "\<not> ctx_done ob" and "probe d ob = Returns (sz, Some err)"
  shows "ProgressBar d (pre @ ob # post) =
           \<lparr>bar = map (\<lambda>ob. seen (probe d ob)) pre, bar_finished = False,
            ch_Err = [Wrap err ''failed to get directory size''], ch_Done = [],
            status = Returned\<rparr>"
  using assms by (simp add: ProgressBar_def poll_loop_last poll_failed started_def)

theorem ProgressBar_probe_error_witness:
  "ProgressBar \<lparr>filename = ''f'', filesize = 100, dirname = ''_f.2''\<rparr> [\<lparr>ctx_done = False, tree = (\<lambda>dir. [(dir, Some (FileInfo True 0), None), (dir @ ''/f.2.0'', Some (FileInfo False 40), None)])\<rparr>, \<lparr>ctx_done = False, tree = (\<lambda>dir.
       [(dir, Some (FileInfo True 0), Some (PathError ''open'' dir ''permission denied''))])\<rparr>] =
     \<lparr>bar = [40], bar_finished = False,
      ch_Err = [Wrap (PathError ''open'' ''_f.2'' ''permission denied'') ''failed to get directory size''],
      ch_Done = [], status = Returned\<rparr>"
  using ProgressBar_probe_error [of "\<lparr>filename = ''f'', filesize = 100, dirname = ''_f.2''\<rparr>" "[\<lparr>ctx_done = False, tree = (\<lambda>dir. [(dir, Some (FileInfo True 0), None), (dir @ ''/f.2.0'', Some (FileInfo False 40), None)])\<rparr>]" "\<lparr>ctx_done = False, tree = (\<lambda>dir.
       [(dir, Some (FileInfo True 0), Some (PathError ''open'' dir ''permission denied''))])\<rparr>"
      0 "PathError ''open'' ''_f.2'' ''permission denied''" "[]"]
  by (simp add: probe_eval)

text \<open>
  Missing workspace: when the directory polled does not exist, the walk passes
  one visit without file information, and \<^verbatim>\<open>ProgressBar\<close> dies with a nil dereference:
  nothing is sent on \<^verbatim>\<open>ch.Err\<close> or \<^verbatim>\<open>ch.Done\<close>.
\<close>

lemma ProgressBar_missing_workspace:
  assumes "list_all (quiet d) pre" and "\<not> ctx_done ob"
    and "tree ob (dirname d) = [(dirname d, None, Some err)]"
  shows "ProgressBar d (pre @ ob # post) =
           \<lparr>bar = map (\<lambda>ob. seen (probe d ob)) pre, bar_finished = False,
            ch_Err = [], ch_Done = [], status = Panicked nil_dereference\<rparr>"
proof -
  have "probe d ob = Panics nil_dereference"
    using assms(3) by (simp add: probe_def subDirsize_def walk_fn_nil)
  with assms(1,2) show ?thesis
    by (simp add: ProgressBar_def poll_loop_last poll_died started_def)
qed

lemma ProgressBar_missing_workspace_witness:
  "ProgressBar \<lparr>filename = ''f'', filesize = 100, dirname = ''_f.2''\<rparr> [\<lparr>ctx_done = False, tree = (\<lambda>dir.
       [(dir, None, Some (PathError ''lstat'' dir ''no such file or directory''))])\<rparr>] =
     \<lparr>bar = [], bar_finished = False, ch_Err = [], ch_Done = [],
      status = Panicked nil_dereference\<rparr>"
  using ProgressBar_missing_workspace [of "\<lparr>filename = ''f'', filesize = 100, dirname = ''_f.2''\<rparr>" "[]" "\<lparr>ctx_done = False, tree = (\<lambda>dir.
       [(dir, None, Some (PathError ''lstat'' dir ''no such file or directory''))])\<rparr>"
      "PathError ''lstat'' ''_f.2'' ''no such file or directory''" "[]"]
  by simp

text \<open>
  C18. Still running: after a list of observations \<^verbatim>\<open>ProgressBar\<close> is still in its loop
  exactly when every observation was quiet. So the function has returned or died as
  soon as one observation shows a cancelled context, a failed probe or a size that is
  not below the file size; and nothing else ends the loop.
\<close>

theorem ProgressBar_running_iff:
  "status (ProgressBar d obs) = Running \<longleftrightarrow> list_all (quiet d) obs"
  by (simp add: ProgressBar_def poll_loop_running started_def)

text \<open>
  C13. Invariant: in every state the monitor can reach, \<^verbatim>\<open>ch.Done\<close> has received \<^verbatim>\<open>true\<close>
  once if the bar was finished and nothing otherwise, \<^verbatim>\<open>ch.Err\<close> has received at most
  one error and none if the bar was finished, nothing has been sent while the
  function is running, a finished bar shows the file size last, and every value
  shown before is below the file size read as \<^verbatim>\<open>int64\<close>.
\<close>

theorem monitor_invariant: "monitor_reachable d m \<Longrightarrow> monitor_inv d m"
  by (induction rule: monitor_reachable.induct) (auto intro: monitor_inv_started monitor_step_inv)

theorem monitor_invariant_witness:
  "monitor_inv \<lparr>filename = ''f'', filesize = 100, dirname = ''_f.2''\<rparr> \<lparr>bar = [40, 100], bar_finished = True, ch_Err = [], ch_Done = [True],
      status = Returned\<rparr>"
proof -
  have "monitor_reachable \<lparr>filename = ''f'', filesize = 100, dirname = ''_f.2''\<rparr> (poll_loop \<lparr>filename = ''f'', filesize = 100, dirname = ''_f.2''\<rparr> [\<lparr>ctx_done = False, tree = (\<lambda>dir. [(dir, Some (FileInfo True 0), None), (dir @ ''/f.2.0'', Some (FileInfo False 40), None)])\<rparr>, \<lparr>ctx_done = False, tree = (\<lambda>dir. [(dir, Some (FileInfo True 0), None), (dir @ ''/f.2.0'', Some (FileInfo False 100), None)])\<rparr>] started)"
    by (rule poll_loop_reachable) (rule monitor_reachable.init)
  then have "monitor_reachable \<lparr>filename = ''f'', filesize = 100, dirname = ''_f.2''\<rparr> \<lparr>bar = [40, 100], bar_finished = True, ch_Err = [],
      ch_Done = [True], status = Returned\<rparr>"
    by (simp add: poll_def probe_eval started_def)
  then show ?thesis by (rule monitor_invariant)
qed

text \<open>
  The loop and the step relation agree: the states reachable by steps of
  \<open>monitor_step\<close> from the started monitor are exactly the states \<^verbatim>\<open>ProgressBar\<close> is in
  after some list of observations.
\<close>

lemma ProgressBar_reachable_iff:
  "monitor_reachable d m \<longleftrightarrow> (\<exists>obs. m = ProgressBar d obs)"
proof
  assume "monitor_reachable d m"
  then show "\<exists>obs. m = ProgressBar d obs"
  proof (induction rule: monitor_reachable.induct)
    case init
    have "started = ProgressBar d []" by (simp add: ProgressBar_def)
    then show ?case ..
  next
    case (step m ob m')
    then obtain obs where m: "m = ProgressBar d obs" by blast
    from step.hyps(2) have "status m = Running" and "m' = poll d ob m"
      by (simp_all add: monitor_step_poll)
    with m have "m' = ProgressBar d (obs @ [ob])"
      by (simp add: ProgressBar_def poll_loop_append)
    then show ?case ..
  qed
next
  assume "\<exists>obs. m = ProgressBar d obs"
  then show "monitor_reachable d m"
    by (auto simp: ProgressBar_def intro: poll_loop_reachable monitor_reachable.init)
qed

text \<open>
  C34. File size beyond \<^verbatim>\<open>int64\<close>: \<^verbatim>\<open>int64(d.filesize)\<close> is negative for a file size of
  \<open>2 ^ 63\<close> or more. Then the first probe that returns a size that is not negative,
  the size 0 of an empty workspace included, is not below it: \<^verbatim>\<open>ProgressBar\<close> sets the
  bar to the negative value, finishes it and signals completion at its first poll.
\<close>

theorem ProgressBar_negative_filesize:
  assumes "2 ^ 63 \<le> unat (filesize d)" and "\<not> ctx_done ob"
    and "probe d ob = Returns (sz, None)" and "unat sz < 2 ^ 63"
  shows "ProgressBar d (ob # post) =
           \<lparr>bar = [int64 (filesize d)], bar_finished = True, ch_Err = [], ch_Done = [True],
            status = Returned\<rparr>"
proof -
  have "word_sless (int64 (filesize d)) 0" using assms(1) by (simp add: int64_def sless_zero_u64)
  moreover have "word_sle 0 sz" using assms(4) by (simp add: sle_zero_u64)
  ultimately have "\<not> word_sless sz (int64 (filesize d))"
    by (meson signed.less_le_trans signed.less_asym)
  with assms(2,3) show ?thesis
    by (simp add: ProgressBar_def poll_complete started_def)
qed

theorem ProgressBar_negative_filesize_witness:
  "ProgressBar \<lparr>filename = ''f'', filesize = 9223372036854775808, dirname = ''_f.2''\<rparr> [\<lparr>ctx_done = False, tree = (\<lambda>dir. [(dir, Some (FileInfo True 0), None), (dir @ ''/f.2.0'', Some (FileInfo False 0), None)])\<rparr>] =
     \<lparr>bar = [9223372036854775808], bar_finished = True, ch_Err = [], ch_Done = [True],
      status = Returned\<rparr>"
  using ProgressBar_negative_filesize
    [of "\<lparr>filename = ''f'', filesize = 9223372036854775808, dirname = ''_f.2''\<rparr>" "\<lparr>ctx_done = False, tree = (\<lambda>dir. [(dir, Some (FileInfo True 0), None), (dir @ ''/f.2.0'', Some (FileInfo False 0), None)])\<rparr>" 0 "[]"]
  by (simp add: probe_def subDirsize_def walk_fn_def int64_def)

text \<open>
  Monotone display: under the conditions of completion, when the sizes seen do
  not decrease (as \<^verbatim>\<open>int64\<close>), the values shown by the bar do not decrease either, up
  to and including the final file size.
\<close>

lemma ProgressBar_monotone:
  assumes "list_all (quiet d) pre" and "\<not> ctx_done ob" and "probe d ob = Returns (sz, None)"
    and "\<not> word_sless sz (int64 (filesize d))"
    and "sorted_wrt word_sle (map (\<lambda>ob. seen (probe d ob)) pre)"
  shows "sorted_wrt word_sle (bar (ProgressBar d (pre @ ob # post)))"
proof -
  have "bar (ProgressBar d (pre @ ob # post)) =
      map (\<lambda>ob. seen (probe d ob)) pre @ [int64 (filesize d)]"
    using assms(1-4) by (simp add: ProgressBar_def poll_loop_last poll_complete started_def)
  moreover have "\<forall>v \<in> set (map (\<lambda>ob. seen (probe d ob)) pre). word_sle v (int64 (filesize d))"
    using quiet_below [OF assms(1)] by (auto simp: list_all_iff signed.less_imp_le)
  ultimately show ?thesis using assms(5) by (simp add: sorted_wrt_append)
qed

lemma ProgressBar_monotone_witness:
  "sorted_wrt word_sle (bar (ProgressBar \<lparr>filename = ''f'', filesize = 100, dirname = ''_f.2''\<rparr> [\<lparr>ctx_done = False, tree = (\<lambda>dir. [(dir, Some (FileInfo True 0), None), (dir @ ''/f.2.0'', Some (FileInfo False 0), None)])\<rparr>, \<lparr>ctx_done = False, tree = (\<lambda>dir. [(dir, Some (FileInfo True 0), None), (dir @ ''/f.2.0'', Some (FileInfo False 40), None)])\<rparr>, \<lparr>ctx_done = False, tree = (\<lambda>dir. [(dir, Some (FileInfo True 0), None), (dir @ ''/f.2.0'', Some (FileInfo False 90), None)])\<rparr>, \<lparr>ctx_done = False, tree = (\<lambda>dir. [(dir, Some (FileInfo True 0), None), (dir @ ''/f.2.0'', Some (FileInfo False 100), None)])\<rparr>]))"
  using ProgressBar_monotone [of "\<lparr>filename = ''f'', filesize = 100, dirname = ''_f.2''\<rparr>" "[\<lparr>ctx_done = False, tree = (\<lambda>dir. [(dir, Some (FileInfo True 0), None), (dir @ ''/f.2.0'', Some (FileInfo False 0), None)])\<rparr>, \<lparr>ctx_done = False, tree = (\<lambda>dir. [(dir, Some (FileInfo True 0), None), (dir @ ''/f.2.0'', Some (FileInfo False 40), None)])\<rparr>, \<lparr>ctx_done = False, tree = (\<lambda>dir. [(dir, Some (FileInfo True 0), None), (dir @ ''/f.2.0'', Some (FileInfo False 90), None)])\<rparr>]" "\<lparr>ctx_done = False, tree = (\<lambda>dir. [(dir, Some (FileInfo True 0), None), (dir @ ''/f.2.0'', Some (FileInfo False 100), None)])\<rparr>" 100 "[]"]
  by (simp add: probe_eval word_sle_eq)

end
