(* ===== verification/Workspace.thy ===== *)
theory Workspace
  imports Data Go_Strings
begin

text \<open>
  The naming scheme of the workspace: \<^verbatim>\<open>SetDirName\<close> of \<^verbatim>\<open>src/util.go\<close>, which names the
  temporary directory \<^verbatim>\<open>_<filename>.<procs>\<close> (below \<^verbatim>\<open>path\<close> when one is given), and the
  name \<^verbatim>\<open><dirname>/<filename>.<procs>.<i>\<close> of worker \<open>i\<close>'s partial file, which
  \<^verbatim>\<open>BindwithFiles\<close> builds with \<^verbatim>\<open>fmt.Sprintf\<close> (\<open>partial_path\<close>).

  The lemmas show that different workers get different partial files, that no
  partial file is the output file, that all partial files lie below the workspace
  directory, that the output file of a target named by \<^verbatim>\<open>SetFileName\<close> and
  \<^verbatim>\<open>SetDirName\<close> is outside the workspace, and that for a fixed destination path the
  directory name determines file name and worker count.
\<close>

section \<open>Operations\<close>

definition SetDirName :: "string \<Rightarrow> string \<Rightarrow> int \<Rightarrow> Data \<Rightarrow> Data" where
  "SetDirName path fname procs d =
     (if path = []
      then d\<lparr>dirname := ''_'' @ fname @ ''.'' @ itoa procs\<rparr>
      else d\<lparr>dirname := path @ ''/_'' @ fname @ ''.'' @ itoa procs\<rparr>)"

definition partial_path :: "Data \<Rightarrow> int \<Rightarrow> int \<Rightarrow> string" where
  "partial_path d procs i =
     dirname d @ ''/'' @ filename d @ ''.'' @ itoa procs @ ''.'' @ itoa i"

section \<open>Frame\<close>

lemma SetDirName_frame [simp]:
  "FileName (SetDirName path fname procs d) = FileName d"
  "FileSize (SetDirName path fname procs d) = FileSize d"
  by (simp_all add: SetDirName_def pget_defs)

lemma DirName_SetDirName:
  "DirName (SetDirName path fname procs d) =
     (if path = [] then [] else path @ ''/'') @ ''_'' @ fname @ ''.'' @ itoa procs"
  by (simp add: SetDirName_def pget_defs)

section \<open>Names of partial files\<close>

lemma partial_path_under [simp]: "under (dirname d) (partial_path d procs i)"
  by (simp add: partial_path_def)

lemma partial_path_inj [simp]: "partial_path d procs i = partial_path d procs j \<longleftrightarrow> i = j"
  by (simp add: partial_path_def)

lemma partial_path_not_output [simp]:
  "partial_path d procs i \<noteq> filename d" "filename d \<noteq> partial_path d procs i"
proof -
  have "length (filename d) < length (partial_path d procs i)"
    by (simp add: partial_path_def)
  then show "partial_path d procs i \<noteq> filename d" "filename d \<noteq> partial_path d procs i"
    by auto
qed

lemma partial_path_not_dir [simp]:
  "partial_path d procs i \<noteq> dirname d" "dirname d \<noteq> partial_path d procs i"
  using partial_path_under [of d procs i] by (auto simp del: partial_path_under)

lemma dirname_longer: "length fname < length (dirname (SetDirName path fname procs d))"
  by (simp add: SetDirName_def)

text \<open>
  The caller names the directory after the file name of the target. Then the output
  file is neither the workspace nor below it.
\<close>

lemma SetDirName_apart:
  "filename (SetDirName path (filename d) procs d) \<noteq> dirname (SetDirName path (filename d) procs d)"
  "\<not> under (dirname (SetDirName path (filename d) procs d))
       (filename (SetDirName path (filename d) procs d))"
proof -
  let ?d = "SetDirName path (filename d) procs d"
  have "filename ?d = filename d" by (simp add: SetDirName_def)
  with dirname_longer [of "filename d" path procs d]
  have "length (filename ?d) < length (dirname ?d)" by simp
  then show "filename ?d \<noteq> dirname ?d" and "\<not> under (dirname ?d) (filename ?d)"
    by (auto dest: under_longer)
qed

section \<open>Properties\<close>

text \<open>
  C29. The workspace and the output are apart: for a target whose file name and
  directory name were set the way the caller does (\<^verbatim>\<open>SetFileName\<close>, then \<^verbatim>\<open>SetDirName\<close>
  with the same name), the output file is neither the workspace directory nor below
  it, every partial file is below the workspace directory and is not the output
  file, and different workers have different partial files.
\<close>

theorem workspace_names:
  assumes "d' = SetDirName path fname procs (SetFileName fname d)"
  shows "filename d' \<noteq> dirname d' \<and> \<not> under (dirname d') (filename d') \<and>
         (\<forall>i. under (dirname d') (partial_path d' procs i) \<and>
               partial_path d' procs i \<noteq> filename d') \<and>
         (\<forall>i j. partial_path d' procs i = partial_path d' procs j \<longleftrightarrow> i = j)"
proof -
  have name: "filename d' = fname"
    using SetDirName_frame(1) [of path fname procs "SetFileName fname d"] assms
    by (simp add: pget_defs)
  have "length (filename d') < length (dirname d')"
    unfolding name unfolding assms by (rule dirname_longer)
  then have "filename d' \<noteq> dirname d'" and "\<not> under (dirname d') (filename d')"
    by (auto dest: under_longer)
  then show ?thesis by simp
qed

theorem workspace_names_witness:
  "\<not> under ''dl/_f.2'' ''f'' \<and> under ''dl/_f.2'' ''dl/_f.2/f.2.1'' \<and>
   ''dl/_f.2/f.2.0'' \<noteq> ''dl/_f.2/f.2.1''"
  using workspace_names [of "SetDirName ''dl'' ''f'' 2
      (SetFileName ''f'' \<lparr>filename = [], filesize = 0, dirname = []\<rparr>)" "''dl''" "''f''" 2
      "\<lparr>filename = [], filesize = 0, dirname = []\<rparr>"]
  by (simp add: SetDirName_def SetFileName_def partial_path_def itoa_eval under_def)

text \<open>
  The directory name tells the download apart: for one destination path, two
  calls of \<^verbatim>\<open>SetDirName\<close> yield the same directory name exactly when they were given
  the same file name and the same worker count, whatever characters the file name
  holds.
\<close>

lemma SetDirName_injective:
  "DirName (SetDirName path f1 n1 d1) = DirName (SetDirName path f2 n2 d2) \<longleftrightarrow>
     f1 = f2 \<and> n1 = n2"
proof
  assume eq: "DirName (SetDirName path f1 n1 d1) = DirName (SetDirName path f2 n2 d2)"
  let ?pre = "(if path = [] then [] else path @ ''/'') @ ''_''"
  from eq have "(?pre @ f1) @ CHR ''.'' # itoa n1 = (?pre @ f2) @ CHR ''.'' # itoa n2"
    by (simp add: DirName_SetDirName)
  then have "?pre @ f1 = ?pre @ f2 \<and> n1 = n2"
    by (rule suffix_number_unique) simp_all
  then show "f1 = f2 \<and> n1 = n2" by simp
qed (simp add: DirName_SetDirName)

end
