(* ===== verification/Merger.thy ===== *)
theory Merger
  imports Workspace Go_OS
begin

text \<open>
  The merge step: \<^verbatim>\<open>BindwithFiles\<close> of \<^verbatim>\<open>src/util.go\<close>. It creates (or truncates) the
  output file, then for \<open>i = 0 .. procs - 1\<close> opens worker \<open>i\<close>'s partial file, appends
  its bytes to the output with \<^verbatim>\<open>io.Copy\<close> and removes it, and at last removes the
  workspace directory with \<^verbatim>\<open>os.RemoveAll\<close>. The file system is passed explicitly:
  \<open>BindwithFiles d procs fs\<close> returns the error value (\<open>None\<close> for \<^verbatim>\<open>nil\<close>) together with
  the file system it leaves behind, on the error paths too. The \<^verbatim>\<open>for\<close> loop is the
  function \<open>bind_loop\<close>, which terminates because \<open>procs - i\<close> decreases. Messages on
  standard output and the progress bar of the merge are not modelled; \<^verbatim>\<open>defer\<close>red
  \<^verbatim>\<open>Close\<close> calls have no effect on the state of the model.

  \<^item> \<open>bind_loop_step\<close>, \<open>bind_loop_prefix\<close>: the state after the parts \<open>i .. k - 1\<close> have
    been merged, as the map \<open>after_parts\<close> (the abstract specification of the loop).
  \<^item> \<open>bind_loop_invariant\<close>, \<open>BindwithFiles_invariant\<close>: a predicate kept by
    \<^verbatim>\<open>os.Create\<close>, \<^verbatim>\<open>io.Copy\<close>, \<^verbatim>\<open>os.Remove\<close> and \<^verbatim>\<open>os.RemoveAll\<close> is kept by the merge
    on every path; the frame and well-formedness properties are instances.
  \<^item> The properties at the end: the success path, the path of a missing part, the
    frame, the cleanup, and the ignored result of \<^verbatim>\<open>io.Copy\<close>.
\<close>

section \<open>Operations\<close>

function bind_loop :: "Data \<Rightarrow> int \<Rightarrow> int \<Rightarrow> filesys \<Rightarrow> go_error option \<times> filesys" where
  "bind_loop d procs i fs =
     (if i < procs then
        let f = partial_path d procs i in
        case os_Open fs f of
          Inl err \<Rightarrow> (Some (Wrap err (''failed to open '' @ f @ '' in download location'')), fs)
        | Inr subfp \<Rightarrow>
            let fs1 = io_Copy fs (filename d) subfp in
            (case os_Remove fs1 f of
               Inl err \<Rightarrow> (Some (Wrap err ''failed to remove a file in download location''), fs1)
             | Inr fs2 \<Rightarrow> bind_loop d procs (i + 1) fs2)
      else (None, fs))"
  by pat_completeness auto
termination
  by (relation "measure (\<lambda>(d, procs, i, fs). nat (procs - i))") auto

declare bind_loop.simps [simp del]

definition BindwithFiles :: "Data \<Rightarrow> int \<Rightarrow> filesys \<Rightarrow> go_error option \<times> filesys" where
  "BindwithFiles d procs fs =
     (case os_Create fs (filename d) of
        Inl err \<Rightarrow> (Some (Wrap err ''failed to create a file in download location''), fs)
      | Inr fs0 \<Rightarrow>
          (case bind_loop d procs 0 fs0 of
             (Some err, fs1) \<Rightarrow> (Some err, fs1)
           | (None, fs1) \<Rightarrow>
               (case os_RemoveAll fs1 (dirname d) of
                  (Some err, fs2) \<Rightarrow> (Some (Wrap err ''failed to remove download location''), fs2)
                | (None, fs2) \<Rightarrow> (None, fs2))))"

section \<open>Parts\<close>

text \<open>
  \<open>is_part d procs fs j\<close>: worker \<open>j\<close>'s partial file exists as a file and may be opened
  and removed; \<open>part_bytes\<close> are its bytes. \<open>part_ok\<close> is the same with the bytes given
  by a function, which stays fixed while the loop changes the file system.
\<close>

definition is_part :: "Data \<Rightarrow> int \<Rightarrow> filesys \<Rightarrow> int \<Rightarrow> bool" where
  "is_part d procs fs j =
     ((case lookup fs (partial_path d procs j) of Some (File _) \<Rightarrow> True | _ \<Rightarrow> False) \<and>
      partial_path d procs j \<notin> set (denied fs))"

definition part_bytes :: "Data \<Rightarrow> int \<Rightarrow> filesys \<Rightarrow> int \<Rightarrow> string" where
  "part_bytes d procs fs j =
     (case lookup fs (partial_path d procs j) of Some (File bytes) \<Rightarrow> bytes | _ \<Rightarrow> [])"

definition part_ok :: "Data \<Rightarrow> int \<Rightarrow> filesys \<Rightarrow> (int \<Rightarrow> string) \<Rightarrow> int \<Rightarrow> bool" where
  "part_ok d procs fs c j =
     (lookup fs (partial_path d procs j) = Some (File (c j)) \<and>
      partial_path d procs j \<notin> set (denied fs))"

lemma is_part_ok: "is_part d procs fs j \<Longrightarrow> part_ok d procs fs (part_bytes d procs fs) j"
  by (auto simp: is_part_def part_ok_def part_bytes_def split: option.splits node.splits)

lemma part_ok_cong:
  "lookup fs' (partial_path d procs j) = lookup fs (partial_path d procs j) \<Longrightarrow>
   denied fs' = denied fs \<Longrightarrow> part_ok d procs fs' c j = part_ok d procs fs c j"
  by (simp add: part_ok_def)

lemma doomed_partial_path [simp]: "doomed (dirname d) (partial_path d procs j)"
  by (simp add: doomed_def)

section \<open>One iteration, and a run of iterations\<close>

lemma bind_loop_done: "\<not> i < procs \<Longrightarrow> bind_loop d procs i fs = (None, fs)"
  by (simp add: bind_loop.simps)

lemma bind_loop_open_fails:
  assumes "i < procs" and "os_Open fs (partial_path d procs i) = Inl err"
  shows "bind_loop d procs i fs =
    (Some (Wrap err (''failed to open '' @ partial_path d procs i @ '' in download location'')), fs)"
  using assms by (simp add: bind_loop.simps [of d procs i fs])

text \<open>
  What the calls of one iteration return when the part is in place: \<^verbatim>\<open>os.Open\<close> yields
  the part, and \<^verbatim>\<open>os.Remove\<close> after the copy succeeds and leaves \<open>part_merged\<close>.
\<close>

definition part_merged :: "Data \<Rightarrow> int \<Rightarrow> (int \<Rightarrow> string) \<Rightarrow> int \<Rightarrow> filesys \<Rightarrow> filesys" where
  "part_merged d procs c i fs =
     (let fs1 = io_Copy fs (filename d) (File (c i))
      in fs1\<lparr>entries := AList.delete (partial_path d procs i) (entries fs1)\<rparr>)"

lemma part_calls:
  assumes "part_ok d procs fs c i" and "lookup fs (filename d) = Some (File acc)"
  shows "os_Open fs (partial_path d procs i) = Inr (File (c i))"
    and "os_Remove (io_Copy fs (filename d) (File (c i))) (partial_path d procs i) =
           Inr (part_merged d procs c i fs)"
proof -
  let ?f = "partial_path d procs i"
  let ?fs1 = "io_Copy fs (filename d) (File (c i))"
  show "os_Open fs ?f = Inr (File (c i))"
    using assms(1) by (simp add: part_ok_def Open_ok)
  have "lookup ?fs1 = (lookup fs)(filename d \<mapsto> File (acc @ c i))"
    using assms(2) by simp
  then have "lookup ?fs1 ?f = Some (File (c i))" using assms(1) by (simp add: part_ok_def)
  moreover have "?f \<notin> set (denied ?fs1)" using assms(1) by (simp add: part_ok_def)
  ultimately show "os_Remove ?fs1 ?f = Inr (part_merged d procs c i fs)"
    unfolding part_merged_def Let_def by (rule Remove_file_ok)
qed

lemma part_merged_facts:
  assumes "lookup fs (filename d) = Some (File acc)"
  shows "lookup (part_merged d procs c i fs) =
           ((lookup fs)(filename d \<mapsto> File (acc @ c i)))(partial_path d procs i := None)"
    and "denied (part_merged d procs c i fs) = denied fs"
    and "wf_fs fs \<Longrightarrow> wf_fs (part_merged d procs c i fs)"
  using assms
  by (simp_all add: part_merged_def Let_def wf_fs_def distinct_delete wf_Copy [unfolded wf_fs_def])

lemma bind_loop_unfold:
  assumes "i < procs" and "part_ok d procs fs c i"
    and "lookup fs (filename d) = Some (File acc)"
  shows "bind_loop d procs i fs = bind_loop d procs (i + 1) (part_merged d procs c i fs)"
  using assms(1) part_calls [OF assms(2,3)] by (subst bind_loop.simps) (simp add: Let_def)

lemma bind_loop_step:
  assumes "i < procs" and "part_ok d procs fs c i"
    and "lookup fs (filename d) = Some (File acc)"
  shows "\<exists>fs'. bind_loop d procs i fs = bind_loop d procs (i + 1) fs' \<and>
           lookup fs' = ((lookup fs)(filename d \<mapsto> File (acc @ c i)))(partial_path d procs i := None) \<and>
           denied fs' = denied fs \<and> (wf_fs fs \<longrightarrow> wf_fs fs')"
  using bind_loop_unfold [OF assms] part_merged_facts [OF assms(3), of procs c i] by blast

text \<open>
  The abstract specification of the loop: after the parts \<open>i .. k - 1\<close> have been
  merged into an output that held \<open>acc\<close>, the output holds \<open>acc\<close> followed by these parts
  in index order, the parts are gone, and every other path is as before.
\<close>

definition after_parts ::
  "Data \<Rightarrow> int \<Rightarrow> (int \<Rightarrow> string) \<Rightarrow> string \<Rightarrow> int \<Rightarrow> int \<Rightarrow>
     (string \<rightharpoonup> node) \<Rightarrow> (string \<rightharpoonup> node)" where
  "after_parts d procs c acc i k m =
     (\<lambda>q. if q = filename d then Some (File (acc @ concat (map c [i..k - 1])))
          else if q \<in> set (map (partial_path d procs) [i..k - 1]) then None
          else m q)"

lemma after_parts_empty:
  "m (filename d) = Some (File acc) \<Longrightarrow> after_parts d procs c acc i i m = m"
  by (rule ext) (simp add: after_parts_def)

lemma after_parts_step:
  assumes "i < k"
  shows "after_parts d procs c (acc @ c i) (i + 1) k
           ((m(filename d \<mapsto> File (acc @ c i)))(partial_path d procs i := None)) =
         after_parts d procs c acc i k m"
proof -
  have "[i..k - 1] = i # [i + 1..k - 1]" using assms by (simp add: upto_rec1)
  then show ?thesis by (auto simp: after_parts_def fun_eq_iff)
qed

lemma bind_loop_prefix:
  assumes "i \<le> k" and "k \<le> procs"
    and "\<forall>j. i \<le> j \<and> j < k \<longrightarrow> part_ok d procs fs c j"
    and "lookup fs (filename d) = Some (File acc)"
  shows "\<exists>fs'. bind_loop d procs i fs = bind_loop d procs k fs' \<and>
           lookup fs' = after_parts d procs c acc i k (lookup fs) \<and>
           denied fs' = denied fs \<and> (wf_fs fs \<longrightarrow> wf_fs fs')"
  using assms
proof (induction n \<equiv> "nat (k - i)" arbitrary: i fs acc)
  case 0
  then have "i = k" by simp
  with "0.prems" show ?case by (auto simp: after_parts_empty)
next
  case (Suc n)
  then have lt: "i < k" "i < procs" by simp_all
  from Suc.prems have ok: "part_ok d procs fs c i" using lt by simp
  from bind_loop_step [OF lt(2) ok Suc.prems(4)] obtain fs1 where
    step: "bind_loop d procs i fs = bind_loop d procs (i + 1) fs1"
    and l1: "lookup fs1 = ((lookup fs)(filename d \<mapsto> File (acc @ c i)))(partial_path d procs i := None)"
    and d1: "denied fs1 = denied fs" and w1: "wf_fs fs \<longrightarrow> wf_fs fs1"
    by blast
  have "\<forall>j. i + 1 \<le> j \<and> j < k \<longrightarrow> part_ok d procs fs1 c j"
    using Suc.prems(3) l1 d1 by (auto simp: part_ok_def)
  moreover have "lookup fs1 (filename d) = Some (File (acc @ c i))" using l1 by simp
  moreover have "n = nat (k - (i + 1))" using Suc.hyps(2) by simp
  ultimately obtain fs' where
    "bind_loop d procs (i + 1) fs1 = bind_loop d procs k fs'"
    "lookup fs' = after_parts d procs c (acc @ c i) (i + 1) k (lookup fs1)"
    "denied fs' = denied fs1" "wf_fs fs1 \<longrightarrow> wf_fs fs'"
    using Suc.hyps(1) [of "i + 1" fs1 "acc @ c i"] lt Suc.prems(2) by auto
  with step l1 d1 w1 lt show ?case by (auto simp: after_parts_step)
qed

lemma bind_loop_all:
  assumes "list_all (part_ok d procs fs c) [0..procs - 1]"
    and "lookup fs (filename d) = Some (File [])"
  shows "\<exists>fs'. bind_loop d procs 0 fs = (None, fs') \<and>
           lookup fs' = after_parts d procs c [] 0 procs (lookup fs) \<and>
           denied fs' = denied fs"
proof (cases "0 \<le> procs")
  case True
  from bind_loop_prefix [of 0 procs procs d fs c "[]"] True assms obtain fs' where
    "bind_loop d procs 0 fs = bind_loop d procs procs fs'"
    "lookup fs' = after_parts d procs c [] 0 procs (lookup fs)" "denied fs' = denied fs"
    by (auto simp: list_all_iff)
  then show ?thesis by (auto simp: bind_loop_done)
next
  case False
  then have "[0..procs - 1] = []" by simp
  then have "after_parts d procs c [] 0 procs (lookup fs) = lookup fs"
    using assms(2) by (auto simp: after_parts_def fun_eq_iff)
  with False show ?thesis by (simp add: bind_loop_done)
qed

section \<open>Invariants of the merge\<close>

lemma bind_loop_invariant:
  assumes copy: "\<And>fs src. I fs \<Longrightarrow> I (io_Copy fs (filename d) src)"
    and remove: "\<And>fs j fs'. os_Remove fs (partial_path d procs j) = Inr fs' \<Longrightarrow> I fs \<Longrightarrow> I fs'"
    and init: "I fs"
  shows "I (snd (bind_loop d procs i fs))"
  using assms
proof (induction d procs i fs rule: bind_loop.induct)
  case (1 d procs i fs)
  note copy = "1.prems"(1) and remove = "1.prems"(2) and init = "1.prems"(3)
  show ?case
  proof (cases "i < procs")
    case False
    with init show ?thesis by (simp add: bind_loop_done)
  next
    case True
    show ?thesis
    proof (cases "os_Open fs (partial_path d procs i)")
      case (Inl err)
      with True init show ?thesis by (simp add: bind_loop.simps [of d procs i fs])
    next
      case (Inr subfp)
      let ?fs1 = "io_Copy fs (filename d) subfp"
      have I1: "I ?fs1" using init by (rule copy)
      show ?thesis
      proof (cases "os_Remove ?fs1 (partial_path d procs i)")
        case (Inl err)
        with True Inr I1 show ?thesis by (simp add: bind_loop.simps [of d procs i fs])
      next
        case rm: (Inr fs2)
        from remove [OF rm I1] have "I fs2" .
        with "1.IH" [OF True refl Inr refl rm copy remove] True Inr rm show ?thesis
          by (simp add: bind_loop.simps [of d procs i fs])
      qed
    qed
  qed
qed

lemma BindwithFiles_invariant:
  assumes create: "\<And>fs'. os_Create fs (filename d) = Inr fs' \<Longrightarrow> I fs'"
    and copy: "\<And>fs src. I fs \<Longrightarrow> I (io_Copy fs (filename d) src)"
    and remove: "\<And>fs j fs'. os_Remove fs (partial_path d procs j) = Inr fs' \<Longrightarrow> I fs \<Longrightarrow> I fs'"
    and remove_all: "\<And>fs. I fs \<Longrightarrow> I (snd (os_RemoveAll fs (dirname d)))"
    and init: "I fs"
  shows "I (snd (BindwithFiles d procs fs))"
proof (cases "os_Create fs (filename d)")
  case (Inl err)
  with init show ?thesis by (simp add: BindwithFiles_def)
next
  case (Inr fs0)
  then have "I fs0" by (rule create)
  with copy remove have loop: "I (snd (bind_loop d procs 0 fs0))"
    by (rule bind_loop_invariant)
  obtain r fs1 where b: "bind_loop d procs 0 fs0 = (r, fs1)" by (cases "bind_loop d procs 0 fs0")
  with loop remove_all [of fs1] Inr show ?thesis
    by (cases r; cases "os_RemoveAll fs1 (dirname d)") (auto simp: BindwithFiles_def split: option.splits)
qed

lemma denied_bind_loop: "denied (snd (bind_loop d procs i fs)) = denied fs"
proof (rule bind_loop_invariant [where I = "\<lambda>fs'. denied fs' = denied fs"])
  fix fs1 j fs' assume "os_Remove fs1 (partial_path d procs j) = Inr fs'" and "denied fs1 = denied fs"
  then show "denied fs' = denied fs" using denied_Remove [of fs1 _ fs'] by simp
qed simp_all

section \<open>The success path\<close>

text \<open>After \<^verbatim>\<open>os.Create\<close> the output is empty and the parts are as they were.\<close>

lemma created_parts:
  assumes "list_all (is_part d procs fs) [0..procs - 1]"
    and "filename d \<notin> set (denied fs)" "lookup fs (filename d) \<noteq> Some Dir"
  shows "os_Create fs (filename d) =
           Inr (fs\<lparr>entries := AList.update (filename d) (File []) (entries fs)\<rparr>)"
    and "list_all (part_ok d procs
           (fs\<lparr>entries := AList.update (filename d) (File []) (entries fs)\<rparr>)
           (part_bytes d procs fs)) [0..procs - 1]"
    and "lookup (fs\<lparr>entries := AList.update (filename d) (File []) (entries fs)\<rparr>) (filename d) =
           Some (File [])"
proof -
  show "os_Create fs (filename d) =
      Inr (fs\<lparr>entries := AList.update (filename d) (File []) (entries fs)\<rparr>)"
    using assms(2,3) by (rule Create_ok)
  show "list_all (part_ok d procs
      (fs\<lparr>entries := AList.update (filename d) (File []) (entries fs)\<rparr>)
      (part_bytes d procs fs)) [0..procs - 1]"
    using assms(1) by (auto dest!: is_part_ok simp: part_ok_def list_all_iff)
qed simp

lemma BindwithFiles_all_parts:
  assumes parts: "list_all (is_part d procs fs) [0..procs - 1]"
    and out: "filename d \<notin> set (denied fs)" "lookup fs (filename d) \<noteq> Some Dir"
    and ws: "\<forall>q \<in> set (denied fs). \<not> doomed (dirname d) q"
    and sep: "\<not> doomed (dirname d) (filename d)"
  shows "fst (BindwithFiles d procs fs) = None"
    and "lookup (snd (BindwithFiles d procs fs)) =
           (\<lambda>q. if q = filename d
                 then Some (File (concat (map (part_bytes d procs fs) [0..procs - 1])))
                else if doomed (dirname d) q then None else lookup fs q)"
proof -
  let ?c = "part_bytes d procs fs"
  let ?fs0 = "fs\<lparr>entries := AList.update (filename d) (File []) (entries fs)\<rparr>"
  note cr = created_parts(1) [OF parts out]
  from created_parts(2,3) [OF parts out] obtain fs1 where
    loop: "bind_loop d procs 0 ?fs0 = (None, fs1)"
    and l1: "lookup fs1 = after_parts d procs ?c [] 0 procs (lookup ?fs0)"
    and d1: "denied fs1 = denied ?fs0"
    using bind_loop_all [where d = d and procs = procs and fs = ?fs0 and c = ?c] by blast
  have "blocked fs1 (dirname d) = []" using ws d1 by (simp add: blocked_empty)
  note rm = RemoveAll_unblocked [OF this]
  obtain fs2 where ra: "os_RemoveAll fs1 (dirname d) = (None, fs2)"
    using rm(1) by (cases "os_RemoveAll fs1 (dirname d)") auto
  have res: "BindwithFiles d procs fs = (None, fs2)"
    by (simp add: BindwithFiles_def cr loop ra)
  then show "fst (BindwithFiles d procs fs) = None" by simp
  have "lookup fs2 =
      (\<lambda>q. if q = filename d then Some (File (concat (map ?c [0..procs - 1])))
           else if doomed (dirname d) q then None else lookup fs q)"
    using sep rm(2) by (auto simp: ra l1 after_parts_def fun_eq_iff)
  then show "lookup (snd (BindwithFiles d procs fs)) =
      (\<lambda>q. if q = filename d then Some (File (concat (map ?c [0..procs - 1])))
           else if doomed (dirname d) q then None else lookup fs q)"
    by (simp add: res)
qed

section \<open>Properties\<close>

text \<open>
  C3. Merge order: if every partial file \<open>0 .. procs - 1\<close> exists as a file that may be
  opened and removed, the output path may be created, nothing at or below the workspace
  directory is denied and the output is not inside the workspace, then \<^verbatim>\<open>BindwithFiles\<close>
  returns \<^verbatim>\<open>nil\<close>; afterwards the output file holds the bytes of the partial files
  concatenated in ascending worker index, the workspace directory and everything below
  it are gone, and every other path is unchanged. The witness has the parts
  \<open>''B''\<close>, \<open>''A''\<close>, \<open>''C''\<close> stored for the indices 1, 0, 2 and yields \<open>''ABC''\<close>.
\<close>

theorem BindwithFiles_merges:
  assumes parts: "list_all (is_part d procs fs) [0..procs - 1]"
    and out: "filename d \<notin> set (denied fs)" "lookup fs (filename d) \<noteq> Some Dir"
    and ws: "\<forall>q \<in> set (denied fs). \<not> doomed (dirname d) q"
    and sep: "\<not> doomed (dirname d) (filename d)"
  shows "\<exists>fs'. BindwithFiles d procs fs = (None, fs') \<and>
           lookup fs' =
             (\<lambda>q. if q = filename d
                   then Some (File (concat (map (part_bytes d procs fs) [0..procs - 1])))
                  else if doomed (dirname d) q then None else lookup fs q)"
proof (intro exI conjI)
  show "BindwithFiles d procs fs = (None, snd (BindwithFiles d procs fs))"
    using BindwithFiles_all_parts(1) [OF assms] by (simp add: prod_eq_iff)
qed (rule BindwithFiles_all_parts(2) [OF assms])

theorem BindwithFiles_merges_witness:
  "\<exists>fs'. BindwithFiles \<lparr>filename = ''f'', filesize = 3, dirname = ''_f.3''\<rparr> 3
      \<lparr>entries = [(''_f.3'', Dir), (''_f.3/f.3.1'', File ''B''),
    (''_f.3/f.3.0'', File ''A''), (''_f.3/f.3.2'', File ''C''), (''other'', File ''x'')],
    denied = [''other'']\<rparr> = (None, fs') \<and>
     lookup fs' ''f'' = Some (File ''ABC'') \<and> lookup fs' ''_f.3/f.3.1'' = None \<and>
     lookup fs' ''_f.3'' = None \<and> lookup fs' ''other'' = Some (File ''x'')"
proof -
  let ?d = "\<lparr>filename = ''f'', filesize = 3, dirname = ''_f.3''\<rparr>"
  let ?fs = "\<lparr>entries = [(''_f.3'', Dir), (''_f.3/f.3.1'', File ''B''),
    (''_f.3/f.3.0'', File ''A''), (''_f.3/f.3.2'', File ''C''), (''other'', File ''x'')],
    denied = [''other'']\<rparr>"
  have parts: "list_all (is_part ?d 3 ?fs) [0..3 - 1]"
    by (simp add: is_part_def partial_path_def itoa_eval lookup_def upto.simps)
  have bytes: "concat (map (part_bytes ?d 3 ?fs) [0..3 - 1]) = ''ABC''"
    by (simp add: part_bytes_def partial_path_def itoa_eval lookup_def upto.simps)
  have "\<exists>fs'. BindwithFiles ?d 3 ?fs = (None, fs') \<and>
      lookup fs' = (\<lambda>q. if q = filename ?d
          then Some (File (concat (map (part_bytes ?d 3 ?fs) [0..3 - 1])))
          else if doomed (dirname ?d) q then None else lookup ?fs q)"
    by (rule BindwithFiles_merges [OF parts]) (simp_all add: lookup_def doomed_def under_def)
  moreover have "lookup ?fs ''other'' = Some (File ''x'')" by (simp add: lookup_def)
  ultimately show ?thesis unfolding bytes by (auto simp: doomed_def under_def)
qed

text \<open>
  C9. Missing part: if the parts \<open>0 .. k - 1\<close> are in place but the partial file of worker
  \<open>k < procs\<close> does not exist, \<^verbatim>\<open>BindwithFiles\<close> returns the wrapped error of \<^verbatim>\<open>os.Open\<close>
  (\<^verbatim>\<open>failed to open ... in download location\<close>). The output file is left holding the
  first \<open>k\<close> parts, these parts are deleted, and nothing else has changed: the output
  is not rolled back and the workspace is not removed.
\<close>

theorem BindwithFiles_missing_part:
  assumes k: "0 \<le> k" "k < procs"
    and parts: "list_all (is_part d procs fs) [0..k - 1]"
    and missing: "lookup fs (partial_path d procs k) = None"
      "partial_path d procs k \<notin> set (denied fs)"
    and out: "filename d \<notin> set (denied fs)" "lookup fs (filename d) \<noteq> Some Dir"
  shows "\<exists>fs'. BindwithFiles d procs fs =
           (Some (Wrap (enoent ''open'' (partial_path d procs k))
              (''failed to open '' @ partial_path d procs k @ '' in download location'')), fs') \<and>
         lookup fs' =
           (\<lambda>q. if q = filename d
                 then Some (File (concat (map (part_bytes d procs fs) [0..k - 1])))
                else if q \<in> set (map (partial_path d procs) [0..k - 1]) then None
                else lookup fs q)"
proof -
  let ?c = "part_bytes d procs fs"
  let ?fs0 = "fs\<lparr>entries := AList.update (filename d) (File []) (entries fs)\<rparr>"
  have cr: "os_Create fs (filename d) = Inr ?fs0" using out by (rule Create_ok)
  have "\<forall>j. 0 \<le> j \<and> j < k \<longrightarrow> part_ok d procs ?fs0 ?c j"
    using parts by (auto dest!: is_part_ok simp: part_ok_def list_all_iff)
  moreover have "lookup ?fs0 (filename d) = Some (File [])" by simp
  ultimately obtain fs1 where
    pre: "bind_loop d procs 0 ?fs0 = bind_loop d procs k fs1"
    and l1: "lookup fs1 = after_parts d procs ?c [] 0 k (lookup ?fs0)"
    and d1: "denied fs1 = denied ?fs0"
    using bind_loop_prefix [of 0 k procs d ?fs0 ?c "[]"] k by auto
  have "lookup fs1 (partial_path d procs k) = None"
    using missing(1) by (simp add: l1 after_parts_def)
  then have "os_Open fs1 (partial_path d procs k) = Inl (enoent ''open'' (partial_path d procs k))"
    using missing(2) d1 by (simp add: os_Open_def)
  from bind_loop_open_fails [OF k(2) this]
  have "BindwithFiles d procs fs =
      (Some (Wrap (enoent ''open'' (partial_path d procs k))
         (''failed to open '' @ partial_path d procs k @ '' in download location'')), fs1)"
    by (simp add: BindwithFiles_def cr pre)
  moreover have "lookup fs1 =
      (\<lambda>q. if q = filename d then Some (File (concat (map ?c [0..k - 1])))
           else if q \<in> set (map (partial_path d procs) [0..k - 1]) then None
           else lookup fs q)"
    by (auto simp: l1 after_parts_def fun_eq_iff)
  ultimately show ?thesis by blast
qed

theorem BindwithFiles_missing_part_witness:
  "\<exists>fs'. BindwithFiles \<lparr>filename = ''f'', filesize = 3, dirname = ''_f.3''\<rparr> 3
      \<lparr>entries = [(''_f.3'', Dir), (''_f.3/f.3.0'', File ''A''),
    (''_f.3/f.3.2'', File ''C'')], denied = []\<rparr> =
       (Some (Wrap (enoent ''open'' ''_f.3/f.3.1'')
          ''failed to open _f.3/f.3.1 in download location''), fs') \<and>
     lookup fs' ''f'' = Some (File ''A'') \<and> lookup fs' ''_f.3/f.3.0'' = None \<and>
     lookup fs' ''_f.3'' = Some Dir \<and> lookup fs' ''_f.3/f.3.2'' = Some (File ''C'')"
proof -
  let ?d = "\<lparr>filename = ''f'', filesize = 3, dirname = ''_f.3''\<rparr>"
  let ?fs = "\<lparr>entries = [(''_f.3'', Dir), (''_f.3/f.3.0'', File ''A''),
    (''_f.3/f.3.2'', File ''C'')], denied = []\<rparr>"
  have parts: "list_all (is_part ?d 3 ?fs) [0..1 - 1]"
    by (simp add: is_part_def partial_path_def itoa_eval lookup_def upto.simps)
  have bytes: "concat (map (part_bytes ?d 3 ?fs) [0..1 - 1]) = ''A''"
    by (simp add: part_bytes_def partial_path_def itoa_eval lookup_def upto.simps)
  have names: "partial_path ?d 3 1 = ''_f.3/f.3.1''"
    "map (partial_path ?d 3) [0..1 - 1] = [''_f.3/f.3.0'']"
    by (simp_all add: partial_path_def itoa_eval upto.simps)
  have "\<exists>fs'. BindwithFiles ?d 3 ?fs =
        (Some (Wrap (enoent ''open'' (partial_path ?d 3 1))
           (''failed to open '' @ partial_path ?d 3 1 @ '' in download location'')), fs') \<and>
      lookup fs' = (\<lambda>q. if q = filename ?d
          then Some (File (concat (map (part_bytes ?d 3 ?fs) [0..1 - 1])))
          else if q \<in> set (map (partial_path ?d 3) [0..1 - 1]) then None
          else lookup ?fs q)"
    by (rule BindwithFiles_missing_part [OF _ _ parts])
      (simp_all add: lookup_def partial_path_def itoa_eval)
  moreover have "lookup ?fs ''_f.3'' = Some Dir" "lookup ?fs ''_f.3/f.3.2'' = Some (File ''C'')"
    by (simp_all add: lookup_def)
  ultimately show ?thesis unfolding bytes names by auto
qed

text \<open>
  C23. Frame: on every path, successful or not, \<^verbatim>\<open>BindwithFiles\<close> leaves each path alone
  that is neither the output file nor the workspace directory nor below it.
\<close>

theorem BindwithFiles_frame:
  assumes "q \<noteq> filename d" and "\<not> doomed (dirname d) q"
  shows "lookup (snd (BindwithFiles d procs fs)) q = lookup fs q"
proof (rule BindwithFiles_invariant [where I = "\<lambda>fs'. lookup fs' q = lookup fs q"])
  fix fs' assume "os_Create fs (filename d) = Inr fs'"
  then show "lookup fs' q = lookup fs q" using assms(1) by (simp add: lookup_Create)
next
  fix fs' src assume "lookup fs' q = lookup fs q"
  then show "lookup (io_Copy fs' (filename d) src) q = lookup fs q"
    using assms(1) by (simp add: lookup_Copy split: option.splits node.splits)
next
  fix fs1 j fs' assume "os_Remove fs1 (partial_path d procs j) = Inr fs'" "lookup fs1 q = lookup fs q"
  moreover have "q \<noteq> partial_path d procs j" using assms(2) by auto
  ultimately show "lookup fs' q = lookup fs q" by (simp add: lookup_Remove)
next
  fix fs' assume "lookup fs' q = lookup fs q"
  then show "lookup (snd (os_RemoveAll fs' (dirname d))) q = lookup fs q"
    using assms(2) by (simp add: lookup_RemoveAll survives_def)
qed simp

theorem BindwithFiles_frame_witness:
  "lookup (snd (BindwithFiles \<lparr>filename = ''f'', filesize = 3, dirname = ''_f.3''\<rparr> 3
      \<lparr>entries = [(''_f.3'', Dir), (''_f.3/f.3.1'', File ''B''),
    (''_f.3/f.3.0'', File ''A''), (''_f.3/f.3.2'', File ''C''), (''other'', File ''x'')],
    denied = [''other'']\<rparr>)) ''other'' = Some (File ''x'')"
  using BindwithFiles_frame [of "''other''" "\<lparr>filename = ''f'', filesize = 3, dirname = ''_f.3''\<rparr>" 3
      "\<lparr>entries = [(''_f.3'', Dir), (''_f.3/f.3.1'', File ''B''),
    (''_f.3/f.3.0'', File ''A''), (''_f.3/f.3.2'', File ''C''), (''other'', File ''x'')],
    denied = [''other'']\<rparr>"]
  by (simp add: doomed_def under_def lookup_def)

text \<open>
  Representation: on every path \<^verbatim>\<open>BindwithFiles\<close> keeps the file system well formed
  (no path is listed twice) and does not change which paths are denied, as every
  program over the calls of theory \<open>Go_OS\<close> does.
\<close>

lemma BindwithFiles_wf:
  assumes "wf_fs fs"
  shows "wf_fs (snd (BindwithFiles d procs fs)) \<and>
         denied (snd (BindwithFiles d procs fs)) = denied fs"
proof (rule BindwithFiles_invariant [where I = "\<lambda>fs'. wf_fs fs' \<and> denied fs' = denied fs"])
  fix fs' assume "os_Create fs (filename d) = Inr fs'"
  then show "wf_fs fs' \<and> denied fs' = denied fs"
    using assms by (simp add: wf_Create denied_Create)
next
  fix fs1 j fs' assume "os_Remove fs1 (partial_path d procs j) = Inr fs'"
    and "wf_fs fs1 \<and> denied fs1 = denied fs"
  then show "wf_fs fs' \<and> denied fs' = denied fs"
    using wf_Remove [of fs1 _ fs'] denied_Remove [of fs1 _ fs'] by auto
qed (use assms in \<open>simp_all add: wf_Copy wf_RemoveAll\<close>)

text \<open>
  C24. Cleanup: whenever \<^verbatim>\<open>BindwithFiles\<close> returns \<^verbatim>\<open>nil\<close>, neither the workspace directory
  nor anything below it exists afterwards, and removing the workspace once more
  succeeds and changes nothing.
\<close>

theorem BindwithFiles_cleanup:
  assumes "BindwithFiles d procs fs = (None, fs')"
  shows "(\<forall>q. doomed (dirname d) q \<longrightarrow> lookup fs' q = None) \<and>
         os_RemoveAll fs' (dirname d) = (None, fs')"
proof -
  from assms obtain fs1 where "os_RemoveAll fs1 (dirname d) = (None, fs')"
    by (auto simp: BindwithFiles_def split: sum.splits prod.splits option.splits)
  then have gone: "\<forall>q. doomed (dirname d) q \<longrightarrow> lookup fs' q = None"
    by (simp add: RemoveAll_None)
  then show ?thesis by (simp add: RemoveAll_absent)
qed

theorem BindwithFiles_cleanup_witness:
  "lookup \<lparr>entries = [(''f'', File ''AB'')], denied = []\<rparr> ''_f.2'' = None \<and>
   os_RemoveAll \<lparr>entries = [(''f'', File ''AB'')], denied = []\<rparr> ''_f.2'' =
     (None, \<lparr>entries = [(''f'', File ''AB'')], denied = []\<rparr>)"
proof -
  have "BindwithFiles \<lparr>filename = ''f'', filesize = 2, dirname = ''_f.2''\<rparr> 2
      \<lparr>entries = [(''_f.2'', Dir), (''_f.2/f.2.0'', File ''A''), (''_f.2/f.2.1'', File ''B'')],
       denied = []\<rparr> = (None, \<lparr>entries = [(''f'', File ''AB'')], denied = []\<rparr>)"
    by (simp add: BindwithFiles_def bind_loop.simps partial_path_def itoa_eval os_defs under_def
        AList.delete_eq)
  from BindwithFiles_cleanup [OF this] show ?thesis by (simp add: doomed_def)
qed

text \<open>
  C35. Ignored copy result: when the path of worker \<open>i\<close>'s partial file is an empty
  directory, \<^verbatim>\<open>os.Open\<close> succeeds, \<^verbatim>\<open>io.Copy\<close> fails and its result is dropped, and
  \<^verbatim>\<open>os.Remove\<close> succeeds: the iteration appends nothing, reports nothing and goes on
  with worker \<open>i + 1\<close>. In the witness the merge of two parts then returns \<^verbatim>\<open>nil\<close> with
  an output that holds the second part only.
\<close>

theorem bind_loop_ignores_copy_error:
  assumes "i < procs" and "lookup fs (partial_path d procs i) = Some Dir"
    and "partial_path d procs i \<notin> set (denied fs)"
    and "\<not> has_children fs (partial_path d procs i)"
  shows "bind_loop d procs i fs =
           bind_loop d procs (i + 1)
             (fs\<lparr>entries := AList.delete (partial_path d procs i) (entries fs)\<rparr>)"
proof -
  have "os_Open fs (partial_path d procs i) = Inr Dir" using assms(2,3) by (rule Open_ok)
  moreover have "io_Copy fs (filename d) Dir = fs"
    by (simp add: io_Copy_def split: option.splits node.splits)
  moreover have "os_Remove fs (partial_path d procs i) =
      Inr (fs\<lparr>entries := AList.delete (partial_path d procs i) (entries fs)\<rparr>)"
    using assms(2-4) by (simp add: os_Remove_def)
  ultimately show ?thesis using assms(1) by (subst bind_loop.simps) simp
qed

theorem bind_loop_ignores_copy_error_witness:
  "bind_loop \<lparr>filename = ''f'', filesize = 3, dirname = ''_f.2''\<rparr> 2 0
     \<lparr>entries = [(''f'', File ''''), (''_f.2/f.2.0'', Dir),
    (''_f.2/f.2.1'', File ''B'')], denied = []\<rparr> =
   (None, \<lparr>entries = [(''f'', File ''B'')], denied = []\<rparr>)"
  using bind_loop_ignores_copy_error [of 0 2
     "\<lparr>entries = [(''f'', File ''''), (''_f.2/f.2.0'', Dir),
    (''_f.2/f.2.1'', File ''B'')], denied = []\<rparr>"
     "\<lparr>filename = ''f'', filesize = 3, dirname = ''_f.2''\<rparr>"]
  by (simp add: bind_loop.simps partial_path_def itoa_eval os_defs under_def AList.delete_eq)

end
