(* ===== verification/Utils.thy ===== *)
theory Utils
  imports Range_Calculator Space_Guard Split_Path URL_File_Name Progress_Monitor Merger
begin

text \<open>
  The interface \<^verbatim>\<open>Utils\<close> of \<^verbatim>\<open>src/util.go\<close>: the twelve methods through which the rest
  of the package uses \<^verbatim>\<open>Data\<close>. A method of the interface is a constructor of \<open>call\<close>
  with the arguments of its signature, what it returns is a \<open>reply\<close>, and \<open>Utils\<close>
  dispatches a call to the definition that models the method. The state a call runs
  in is the \<open>world\<close>: the target, the file system and the platform. A run of calls is
  \<open>run\<close>; it stops at the first call that dies.

  The lemmas are the frame of the interface: which calls can change which part of
  the world. They are what a caller relies on when it orders the calls. The caller's
  loop over \<^verbatim>\<open>MakeRange\<close> is a run of calls whose replies are the list \<open>ranges_of\<close>.
\<close>

section \<open>Calls and replies\<close>

record world =
  target :: Data
  files :: filesys
  host :: platform

datatype call =
    Call_SplitFilePath string
  | Call_ProgressBar "obs list"
  | Call_BindwithFiles int
  | Call_IsFree u64
  | Call_MakeRange u64 u64 u64
  | Call_SetFileName string
  | Call_URLFileName string
  | Call_SetDirName string string int
  | Call_SetFileSize u64
  | Call_FileName
  | Call_FileSize
  | Call_DirName

datatype reply =
    Reply_split "(string \<times> string) result"
  | Reply_monitor monitor
  | Reply_error "go_error option"
  | Reply_range Range
  | Reply_string string
  | Reply_size u64
  | Reply_none

fun Utils :: "world \<Rightarrow> call \<Rightarrow> (reply \<times> world) outcome" where
  "Utils w (Call_SplitFilePath output) =
     (case SplitFilePath (host w) (target w) output of
        Panics why \<Rightarrow> Panics why
      | Returns r \<Rightarrow> Returns (Reply_split r, w))"
| "Utils w (Call_ProgressBar obs) =
     (let m = ProgressBar (target w) obs in
      case status m of
        Panicked why \<Rightarrow> Panics why
      | _ \<Rightarrow> Returns (Reply_monitor m, w))"
| "Utils w (Call_BindwithFiles procs) =
     (case BindwithFiles (target w) procs (files w) of
        (err, fs) \<Rightarrow> Returns (Reply_error err, w\<lparr>files := fs\<rparr>))"
| "Utils w (Call_IsFree split) = Returns (Reply_error (IsFree (host w) (target w) split), w)"
| "Utils w (Call_MakeRange i split procs) =
     Returns (Reply_range (MakeRange (target w) i split procs), w)"
| "Utils w (Call_SetFileName output) =
     Returns (Reply_none, w\<lparr>target := SetFileName output (target w)\<rparr>)"
| "Utils w (Call_URLFileName url) =
     (case URLFileName (files w) url (target w) of
        Panics why \<Rightarrow> Panics why
      | Returns d \<Rightarrow> Returns (Reply_none, w\<lparr>target := d\<rparr>))"
| "Utils w (Call_SetDirName path fname procs) =
     Returns (Reply_none, w\<lparr>target := SetDirName path fname procs (target w)\<rparr>)"
| "Utils w (Call_SetFileSize sz) =
     Returns (Reply_none, w\<lparr>target := SetFileSize sz (target w)\<rparr>)"
| "Utils w Call_FileName = Returns (Reply_string (FileName (target w)), w)"
| "Utils w Call_FileSize = Returns (Reply_size (FileSize (target w)), w)"
| "Utils w Call_DirName = Returns (Reply_string (DirName (target w)), w)"

fun run :: "world \<Rightarrow> call list \<Rightarrow> (reply list \<times> world) outcome" where
  "run w [] = Returns ([], w)"
| "run w (c # cs) =
     (case Utils w c of
        Panics why \<Rightarrow> Panics why
      | Returns (r, w') \<Rightarrow>
          (case run w' cs of
             Panics why \<Rightarrow> Panics why
           | Returns (rs, w'') \<Rightarrow> Returns (r # rs, w'')))"

section \<open>Kinds of call\<close>




section \<open>Frame\<close>







section \<open>The caller's loop over \<^verbatim>\<open>MakeRange\<close>\<close>

text \<open>
  The caller asks for one range per worker. Through the interface this is a run of
  \<^verbatim>\<open>MakeRange\<close> calls; the replies are the list \<open>ranges_of\<close> and the world is unchanged.
\<close>

lemma run_MakeRange_calls:
  "run w (map (\<lambda>i. Call_MakeRange (f i) split procs) ns) =
     Returns (map (\<lambda>i. Reply_range (MakeRange (target w) (f i) split procs)) ns, w)"
  by (induction ns) simp_all

lemma run_MakeRange:
  "run w (map (\<lambda>i. Call_MakeRange (of_nat i) split procs) [0..<unat procs]) =
     Returns (map Reply_range (ranges_of (target w) split procs), w)"
  by (simp add: run_MakeRange_calls ranges_of_def comp_def)

section \<open>Properties\<close>



end
