(* ===== verification/Workspace_View.thy ===== *)
theory Workspace_View
  imports Progress_Monitor Go_OS
begin

text \<open>
  What \<^verbatim>\<open>filepath.Walk\<close> finds in a file system of the model: \<open>walk_of fs\<close> is the tree
  view that the monitor is given when it polls the state \<open>fs\<close>. The definition is
  written from the documented behaviour of \<^verbatim>\<open>filepath.Walk\<close> and \<^verbatim>\<open>os.Lstat\<close>, not from
  code under \<^verbatim>\<open>src/\<close>: a root that does not exist is visited once, without file
  information and with the error of \<^verbatim>\<open>os.Lstat\<close>; a file is visited once; a directory
  that cannot be read is visited once with the error of reading it; any other
  directory is visited, and then everything below it. The entries below the root are
  visited in the order of the association list, and only the root is tested for
  permission.

  The lemmas show what \<^verbatim>\<open>subDirsize\<close> returns on such a view: the number of bytes in the
  files below the directory, and a panic for a directory that does not exist; and
  that the order of the entries does not matter for the result.
\<close>

section \<open>The view of a file system\<close>

fun info_of :: "node \<Rightarrow> file_info" where
  "info_of (File bytes) = FileInfo False (of_nat (length bytes))"
| "info_of Dir = FileInfo True 0"

fun entry_visit :: "string \<times> node \<Rightarrow> visit" where
  "entry_visit (q, n) = (q, Some (info_of n), None)"

definition below :: "filesys \<Rightarrow> string \<Rightarrow> (string \<times> node) list" where
  "below fs dir = filter (\<lambda>(q, n). under dir q) (entries fs)"

definition walk_of :: "filesys \<Rightarrow> tree_view" where
  "walk_of fs dir =
     (case lookup fs dir of
        None \<Rightarrow> [(dir, None, Some (enoent ''lstat'' dir))]
      | Some (File bytes) \<Rightarrow> [(dir, Some (info_of (File bytes)), None)]
      | Some Dir \<Rightarrow>
          if dir \<in> set (denied fs) then [(dir, Some (info_of Dir), Some (eacces ''open'' dir))]
          else (dir, Some (info_of Dir), None) # map entry_visit (below fs dir))"

definition observe :: "bool \<Rightarrow> filesys \<Rightarrow> obs" where
  "observe cancelled fs = \<lparr>ctx_done = cancelled, tree = walk_of fs\<rparr>"

section \<open>The size of a directory\<close>

definition bytes_below :: "filesys \<Rightarrow> string \<Rightarrow> nat" where
  "bytes_below fs dir = sum_list (map (\<lambda>e. node_bytes (snd e)) (below fs dir))"

lemma below_empty_lookup:
  "below fs dir = [] \<Longrightarrow> under dir p \<Longrightarrow> lookup fs p = None"
  by (force simp: below_def filter_empty_conv lookup_def map_of_eq_None_iff)

lemma below_empty: "(\<And>q. under dir q \<Longrightarrow> lookup fs q = None) \<Longrightarrow> below fs dir = []"
  by (force simp: below_def filter_empty_conv lookup_def map_of_eq_None_iff)

text \<open>Writing a file below the directory changes the size by the difference.\<close>

lemma bytes_below_update:
  "under dir p \<Longrightarrow>
     bytes_below (fs\<lparr>entries := AList.update p n (entries fs)\<rparr>) dir +
       (case lookup fs p of None \<Rightarrow> 0 | Some n' \<Rightarrow> node_bytes n') =
     bytes_below fs dir + node_bytes n"
  using sum_bytes_update [of "under dir" p n "entries fs"]
  by (simp add: bytes_below_def below_def lookup_def)

lemma plain_entry_visit [simp]: "plain_visit (entry_visit e)"
  by (cases e) simp

lemma visit_size_entry [simp]: "visit_size (entry_visit e) = of_nat (node_bytes (snd e))"
  by (cases e; cases "snd e") auto

lemma sum_entries:
  "sum_list (map (visit_size \<circ> entry_visit) al) =
     of_nat (sum_list (map (\<lambda>e. node_bytes (snd e)) al))"
  by (induction al) simp_all

lemma subDirsize_walk_of:
  assumes "lookup fs dir = Some Dir" and "dir \<notin> set (denied fs)"
  shows "subDirsize (walk_of fs) d dir = Returns (of_nat (bytes_below fs dir), None)"
proof -
  have "list_all plain_visit (walk_of fs dir)"
    using assms by (simp add: walk_of_def list_all_iff)
  from Walk_plain [OF this, of "[]" 0] show ?thesis
    using assms by (simp add: subDirsize_def walk_of_def sum_entries bytes_below_def)
qed

text \<open>
  The model visits the entries below a directory in the order of the association
  list, \<^verbatim>\<open>filepath.Walk\<close> in lexical order. For the size this is the same: file systems
  with the same entries in any order give the same result.
\<close>

lemma subDirsize_walk_of_order:
  assumes "lookup fs dir = Some Dir" and "dir \<notin> set (denied fs)"
    and "mset (entries fs') = mset (entries fs)" and "denied fs' = denied fs" and "wf_fs fs"
  shows "subDirsize (walk_of fs') d dir = subDirsize (walk_of fs) d dir"
proof -
  have "distinct (map fst (entries fs'))"
    using assms(3,5) by (metis wf_fs_def mset_map mset_eq_imp_distinct_iff)
  moreover have "set (entries fs') = set (entries fs)" using assms(3) by (rule mset_eq_setD)
  ultimately have "lookup fs' = lookup fs"
    using assms(5) map_of_inject_set [of "entries fs'" "entries fs"]
    by (simp add: lookup_eq wf_fs_def)
  with assms(1,3) have "mset (walk_of fs' dir) = mset (walk_of fs dir)"
    by (simp add: walk_of_def assms(4) below_def)
  moreover have "list_all plain_visit (walk_of fs dir)"
    using assms(1,2) by (simp add: walk_of_def list_all_iff)
  ultimately show ?thesis by (intro subDirsize_order)
qed

lemma subDirsize_walk_of_missing:
  "lookup fs dir = None \<Longrightarrow> subDirsize (walk_of fs) d dir = Panics nil_dereference"
  by (simp add: subDirsize_def walk_of_def walk_fn_nil)

lemma subDirsize_walk_of_denied:
  "lookup fs dir = Some Dir \<Longrightarrow> dir \<in> set (denied fs) \<Longrightarrow>
     subDirsize (walk_of fs) d dir = Returns (0, Some (eacces ''open'' dir))"
  by (simp add: subDirsize_def walk_of_def walk_fn_def)

end
