(* ===== verification/Worker_Pool.thy ===== *)
theory Worker_Pool
  imports Range_Calculator Workspace Go_OS
begin

text \<open>
  The workers, as far as the components of \<^verbatim>\<open>src/util.go\<close> depend on them. The code of
  the workers and of the transport is not under \<^verbatim>\<open>src/\<close>; the definitions here are
  written from the specification: a worker asks the server for the bytes
  \<^verbatim>\<open>low .. high\<close> of the remote file (both ends included; a server cuts a range that
  reaches beyond the end of the file) and writes the answer to its partial file, whose
  name is the one \<^verbatim>\<open>BindwithFiles\<close> will open.

  \<open>download\<close> lets the workers write one after the other in the order of their
  ranges. The lemmas show that the order does not matter, because the names of the
  partial files differ, that the answers to ranges that tile the file, put
  together in order, are the file, how many bytes the workers add to the disk, and
  how long the answers are: a chunk each, and for the last worker the chunk and the
  remainder.
\<close>

section \<open>One worker\<close>

definition fetch_range :: "string \<Rightarrow> Range \<Rightarrow> string" where
  "fetch_range content r =
     take (Suc (unat (high r)) - unat (low r)) (drop (unat (low r)) content)"

definition part_of :: "Data \<Rightarrow> int \<Rightarrow> Range \<Rightarrow> string" where
  "part_of d procs r = partial_path d procs (uint (worker r))"

definition store_part :: "Data \<Rightarrow> int \<Rightarrow> string \<Rightarrow> Range \<Rightarrow> filesys \<Rightarrow> filesys" where
  "store_part d procs content r fs =
     fs\<lparr>entries := AList.update (part_of d procs r) (File (fetch_range content r)) (entries fs)\<rparr>"

section \<open>All workers\<close>

definition run_workers :: "Data \<Rightarrow> int \<Rightarrow> string \<Rightarrow> Range list \<Rightarrow> filesys \<Rightarrow> filesys" where
  "run_workers d procs content rs fs = fold (store_part d procs content) rs fs"

definition download :: "Data \<Rightarrow> u64 \<Rightarrow> u64 \<Rightarrow> string \<Rightarrow> filesys \<Rightarrow> filesys" where
  "download d split procs content fs =
     run_workers d (uint procs) content (ranges_of d split procs) fs"

section \<open>What the workers leave behind\<close>

lemma part_of_inj: "part_of d procs r = part_of d procs r' \<longleftrightarrow> worker r = worker r'"
  by (simp add: part_of_def word_uint_eq_iff)

lemma part_of_under [simp]: "under (dirname d) (part_of d procs r)"
  by (simp add: part_of_def)

lemma part_of_not_dir [simp]: "part_of d procs r \<noteq> dirname d" "dirname d \<noteq> part_of d procs r"
  by (simp_all add: part_of_def)

lemma same_worker:
  "distinct (map worker rs) \<Longrightarrow> r \<in> set rs \<Longrightarrow> r' \<in> set rs \<Longrightarrow> worker r' = worker r \<Longrightarrow> r' = r"
  by (auto simp: distinct_map dest: inj_onD)

lemma lookup_store_part [simp]:
  "lookup (store_part d procs content r fs) =
     (lookup fs)(part_of d procs r \<mapsto> File (fetch_range content r))"
  by (simp add: store_part_def)

lemma denied_store_part [simp]: "denied (store_part d procs content r fs) = denied fs"
  by (simp add: store_part_def)

lemma wf_store_part: "wf_fs fs \<Longrightarrow> wf_fs (store_part d procs content r fs)"
  by (simp add: store_part_def wf_fs_def distinct_update)

lemma denied_run_workers [simp]: "denied (run_workers d procs content rs fs) = denied fs"
  unfolding run_workers_def by (induction rs arbitrary: fs) simp_all

lemma wf_run_workers: "wf_fs fs \<Longrightarrow> wf_fs (run_workers d procs content rs fs)"
  unfolding run_workers_def by (induction rs arbitrary: fs) (simp_all add: wf_store_part)

lemma lookup_run_workers_other:
  "q \<notin> part_of d procs ` set rs \<Longrightarrow> lookup (run_workers d procs content rs fs) q = lookup fs q"
  unfolding run_workers_def by (induction rs arbitrary: fs) simp_all

lemma lookup_run_workers_part:
  assumes "distinct (map worker rs)" and "r \<in> set rs"
  shows "lookup (run_workers d procs content rs fs) (part_of d procs r) =
           Some (File (fetch_range content r))"
  using assms unfolding run_workers_def
proof (induction rs arbitrary: fs)
  case Nil
  then show ?case by simp
next
  case (Cons x rs)
  show ?case
  proof (cases "r \<in> set rs")
    case True
    with Cons show ?thesis by simp
  next
    case False
    with Cons.prems have "r = x" and "worker x \<notin> worker ` set rs" by auto
    then have "part_of d procs r \<notin> part_of d procs ` set rs"
      by (auto simp: part_of_inj)
    from lookup_run_workers_other [OF this] \<open>r = x\<close> show ?thesis
      by (simp add: run_workers_def)
  qed
qed

text \<open>
  When no partial file exists yet, the workers append their files to the entries in
  the order in which they finish.
\<close>

lemma entries_run_workers:
  assumes "distinct (map worker rs)"
    and "\<forall>r \<in> set rs. part_of d procs r \<notin> fst ` set (entries fs)"
  shows "entries (run_workers d procs content rs fs) =
           entries fs @ map (\<lambda>r. (part_of d procs r, File (fetch_range content r))) rs"
  using assms unfolding run_workers_def
proof (induction rs arbitrary: fs)
  case Nil
  then show ?case by simp
next
  case (Cons r rs)
  let ?fs = "store_part d procs content r fs"
  have e: "entries ?fs = entries fs @ [(part_of d procs r, File (fetch_range content r))]"
    using Cons.prems(2) by (simp add: store_part_def update_fresh)
  have "\<forall>r' \<in> set rs. part_of d procs r' \<notin> fst ` set (entries ?fs)"
    using Cons.prems by (auto simp: e part_of_inj intro: rev_image_eqI)
  with Cons.IH [of ?fs] Cons.prems(1) show ?case by (simp add: e)
qed

text \<open>Then the disk holds the bytes of their answers in addition.\<close>

lemma usage_run_workers:
  assumes "distinct (map worker rs)"
    and "\<forall>r \<in> set rs. lookup fs (part_of d procs r) = None"
  shows "usage (run_workers d procs content rs fs) =
           usage fs + length (concat (map (fetch_range content) rs))"
proof -
  have "\<forall>r \<in> set rs. part_of d procs r \<notin> fst ` set (entries fs)"
    using assms(2) by (simp add: lookup_eq map_of_eq_None_iff)
  from entries_run_workers [OF assms(1) this] show ?thesis
    by (simp add: usage_def length_concat comp_def)
qed

section \<open>The answers put together\<close>

lemma tiles_concat:
  "tiles a b rs \<Longrightarrow> concat (map (fetch_range content) rs) = take (Suc b - a) (drop a content)"
proof (induction rs arbitrary: a)
  case Nil
  then show ?case by simp
next
  case (Cons r rs)
  let ?h = "unat (high r)"
  from Cons.prems have low: "unat (low r) = a" and le: "a \<le> ?h" and rest: "tiles (Suc ?h) b rs"
    by simp_all
  have hb: "Suc ?h \<le> Suc b" using rest by (rule tiles_le)
  have "fetch_range content r = take (Suc ?h - a) (drop a content)"
    by (simp add: fetch_range_def low)
  then have "concat (map (fetch_range content) (r # rs)) =
      take (Suc ?h - a) (drop a content) @ take (Suc b - Suc ?h) (drop (Suc ?h) content)"
    using Cons.IH [OF rest] by simp
  also have "drop (Suc ?h) content = drop (Suc ?h - a) (drop a content)"
    using le by simp
  also have "take (Suc ?h - a) (drop a content) @
      take (Suc b - Suc ?h) (drop (Suc ?h - a) (drop a content)) =
      take ((Suc ?h - a) + (Suc b - Suc ?h)) (drop a content)"
    by (simp add: take_add)
  also have "(Suc ?h - a) + (Suc b - Suc ?h) = Suc b - a" using le hb by simp
  finally show ?case .
qed

lemma ranges_concat:
  assumes "procs \<noteq> 0" and "split = FileSize d div procs" and "split \<noteq> 0"
    and "length content \<le> Suc (unat (FileSize d))"
  shows "concat (map (fetch_range content) (ranges_of d split procs)) = content"
  using tiles_concat [OF tiles_ranges_of [OF assms(1-3)], of content] assms(4) by simp

lemma distinct_workers: "distinct (map worker (ranges_of d split procs))"
proof -
  have "map worker (ranges_of d split procs) = map of_nat [0..<unat procs]"
    by (simp add: ranges_of_def comp_def)
  moreover have "inj_on (of_nat :: nat \<Rightarrow> u64) (set [0..<unat procs])"
    by (auto simp: inj_on_def dest!: arg_cong [where f = unat] simp: unat_index)
  ultimately show ?thesis by (simp add: distinct_map)
qed

section \<open>The lengths of the answers\<close>

text \<open>
  Every worker but the last receives one chunk. The last worker receives the chunk
  and the remainder of the division of the file size by the worker count.
\<close>

lemma length_fetch_inner:
  assumes "split = FileSize d div procs" and "split \<noteq> 0" and "Suc k < unat procs"
    and "length content = unat (FileSize d)"
  shows "length (fetch_range content (MakeRange d (of_nat k) split procs)) = unat split"
proof -
  have "unat split * Suc k \<le> unat (FileSize d)"
    using chunk_fits [OF assms(1), of "Suc k"] assms(3) by simp
  then show ?thesis
    using unat_high_inner [OF assms(1,3,2)] unat_low [OF assms(1), of k] assms(3,4)
    by (simp add: fetch_range_def)
qed

lemma length_fetch_last:
  assumes "procs \<noteq> 0" and "split = FileSize d div procs"
    and "length content = unat (FileSize d)"
  shows "length (fetch_range content (MakeRange d (procs - 1) split procs)) =
           unat split + unat (FileSize d mod procs)"
proof -
  let ?F = "unat (FileSize d)" and ?p = "unat procs"
  have p: "0 < ?p" using assms(1) by (simp add: unat_gt_0)
  then have last: "of_nat (?p - 1) = procs - 1"
    using index_last_iff [of "?p - 1" procs] by simp
  have low: "unat (split * (procs - 1)) = unat split * (?p - 1)"
    using unat_low [OF assms(2), of "?p - 1"] p by (simp add: last)
  have s: "unat split = ?F div ?p" using assms(2) by (simp add: unat_div)
  have "?F = (?F div ?p) * ?p + ?F mod ?p" by simp
  also have "(?F div ?p) * ?p = (?F div ?p) * (?p - 1) + ?F div ?p"
    using p by (cases ?p) simp_all
  finally have "?F - unat split * (?p - 1) = unat split + ?F mod ?p" by (simp add: s)
  then show ?thesis
    using assms(3) by (simp add: fetch_range_def low unat_mod min_def)
qed

end
