(* ===== verification/Job.thy ===== *)
theory Job
  imports Workspace_View Worker_Pool
begin

text \<open>
  The download as a concurrent job: the workers write into their partial files while
  \<^verbatim>\<open>ProgressBar\<close> of \<^verbatim>\<open>src/util.go\<close> polls the size of the workspace. The goroutines of
  the workers are not under \<^verbatim>\<open>src/\<close>; their steps are written from the specification
  (one task per worker, no order between workers, the workspace as the only shared
  resource). The step of the monitor is \<open>poll\<close>, the loop body of \<^verbatim>\<open>ProgressBar\<close>, run on
  what \<^verbatim>\<open>filepath.Walk\<close> has found on the disk.

  A schedule is a list of events. \<open>Write r n\<close>: the worker of range \<open>r\<close> has written the
  first \<open>n\<close> bytes of its answer (a worker only appends, and a worker that has failed
  writes no more). \<open>Fail r\<close>: the transport of that worker fails. \<open>Poll c ns\<close>: the
  monitor ends one iteration, with the context cancelled or not, in which the walk
  has found the partial files with the lengths \<open>ns\<close>. \<open>job_step\<close> is the effect of one
  event and is \<open>None\<close> when the event cannot happen in the state; \<open>job_run\<close> runs a
  schedule. Every theorem holds for all schedules, that is for every interleaving.

  The walk is not atomic: the workers go on writing while it visits the files one
  after the other. Every file is therefore seen with a length it had at some moment
  between the end of the walk before and the end of this one: not shorter than the
  walk before saw it (\<open>walked\<close>), not longer than it is now. \<open>glimpse\<close> is the disk as
  such a walk sees it; the walk that sees every file as it is now is one of them.

  \<^item> \<open>disk_inv\<close>: every partial file is a prefix of its answer, and the bytes below
    the workspace plus the bytes still to write are the bytes of all answers.
  \<^item> \<open>job_inv\<close>: in addition the monitor has reported no error, has not died, has
    signalled completion only when nothing is left to write, and has shown sizes that
    do not decrease. It holds in every reachable state (rule induction over
    \<open>job_reachable\<close>).
  \<^item> \<open>glimpse_sees\<close>: a walk finds exactly the bytes it saw, file by file; \<open>glimpse_now\<close>: the
    walk that sees every file as it is now sees the disk.
  \<^item> \<open>job_watcher_ProgressBar\<close>: the monitor at the end of a schedule is \<^verbatim>\<open>ProgressBar\<close> run
    on what the polls of the schedule observed (\<open>job_obs\<close>).
  \<^item> The properties: completion implies that every part is complete; the monitor is
    safe; the job can always finish; a failed worker keeps the monitor from ever
    completing; a foreign file in the workspace makes it complete too early.
\<close>

section \<open>Events and steps\<close>

datatype event = Write Range nat | Fail Range | Poll bool "nat list"

record job =
  disk :: filesys
  watcher :: monitor
  failed :: "Range list"
  walked :: "nat list"

definition written :: "Data \<Rightarrow> int \<Rightarrow> filesys \<Rightarrow> Range \<Rightarrow> nat" where
  "written d procs fs r =
     (case lookup fs (part_of d procs r) of None \<Rightarrow> 0 | Some n \<Rightarrow> node_bytes n)"

definition write_part :: "Data \<Rightarrow> int \<Rightarrow> string \<Rightarrow> Range \<Rightarrow> nat \<Rightarrow> filesys \<Rightarrow> filesys" where
  "write_part d procs content r n fs =
     fs\<lparr>entries := AList.update (part_of d procs r) (File (take n (fetch_range content r)))
                     (entries fs)\<rparr>"

definition shorten :: "string \<Rightarrow> nat \<Rightarrow> filesys \<Rightarrow> filesys" where
  "shorten p n fs =
     (case lookup fs p of
        Some (File bytes) \<Rightarrow> fs\<lparr>entries := AList.update p (File (take n bytes)) (entries fs)\<rparr>
      | _ \<Rightarrow> fs)"

fun glimpse :: "Data \<Rightarrow> int \<Rightarrow> Range list \<Rightarrow> nat list \<Rightarrow> filesys \<Rightarrow> filesys" where
  "glimpse d procs (r # rs) (n # ns) fs =
     glimpse d procs rs ns (shorten (part_of d procs r) n fs)"
| "glimpse d procs rs ns fs = fs"

fun job_step :: "Data \<Rightarrow> int \<Rightarrow> string \<Rightarrow> Range list \<Rightarrow> event \<Rightarrow> job \<Rightarrow> job option" where
  "job_step d procs content rs (Write r n) s =
     (if r \<in> set rs \<and> r \<notin> set (failed s) \<and>
         written d procs (disk s) r \<le> n \<and> n \<le> length (fetch_range content r)
      then Some (s\<lparr>disk := write_part d procs content r n (disk s)\<rparr>)
      else None)"
| "job_step d procs content rs (Fail r) s =
     (if r \<in> set rs then Some (s\<lparr>failed := r # failed s\<rparr>) else None)"
| "job_step d procs content rs (Poll cancelled ns) s =
     (if status (watcher s) = Running \<and> list_all2 (\<le>) (walked s) ns \<and>
         list_all2 (\<lambda>n r. n \<le> written d procs (disk s) r) ns rs
      then Some (s\<lparr>watcher := poll d (observe cancelled (glimpse d procs rs ns (disk s)))
                                 (watcher s),
                   walked := ns\<rparr>)
      else None)"

fun job_run :: "Data \<Rightarrow> int \<Rightarrow> string \<Rightarrow> Range list \<Rightarrow> event list \<Rightarrow> job \<Rightarrow> job option" where
  "job_run d procs content rs [] s = Some s"
| "job_run d procs content rs (e # es) s =
     (case job_step d procs content rs e s of
        None \<Rightarrow> None
      | Some s' \<Rightarrow> job_run d procs content rs es s')"

definition job_start :: "Range list \<Rightarrow> filesys \<Rightarrow> job" where
  "job_start rs fs = \<lparr>disk = fs, watcher = started, failed = [], walked = map (\<lambda>r. 0) rs\<rparr>"

inductive job_reachable ::
  "Data \<Rightarrow> int \<Rightarrow> string \<Rightarrow> Range list \<Rightarrow> filesys \<Rightarrow> job \<Rightarrow> bool"
  for d procs content rs fs where
  init: "job_reachable d procs content rs fs (job_start rs fs)"
| step: "job_reachable d procs content rs fs s \<Longrightarrow>
         job_step d procs content rs e s = Some s' \<Longrightarrow>
         job_reachable d procs content rs fs s'"

section \<open>Runs\<close>

lemma job_run_append:
  "job_run d procs content rs (es @ es') s =
     (case job_run d procs content rs es s of
        None \<Rightarrow> None
      | Some s' \<Rightarrow> job_run d procs content rs es' s')"
  by (induction es arbitrary: s) (simp_all split: option.splits)

lemma job_run_reachable:
  "job_reachable d procs content rs fs s \<Longrightarrow> job_run d procs content rs es s = Some s' \<Longrightarrow>
     job_reachable d procs content rs fs s'"
  by (induction es arbitrary: s) (auto split: option.splits intro: job_reachable.step)

lemma job_reachable_run:
  "job_reachable d procs content rs fs s \<Longrightarrow>
     \<exists>es. job_run d procs content rs es (job_start rs fs) = Some s"
proof (induction rule: job_reachable.induct)
  case init
  have "job_run d procs content rs [] (job_start rs fs) = Some (job_start rs fs)" by simp
  then show ?case by blast
next
  case (step s e s')
  then obtain es where "job_run d procs content rs es (job_start rs fs) = Some s" by blast
  with step.hyps(2) have "job_run d procs content rs (es @ [e]) (job_start rs fs) = Some s'"
    by (simp add: job_run_append)
  then show ?case by blast
qed

lemma run_reachable:
  "job_run d procs content rs es (job_start rs fs) = Some s \<Longrightarrow> job_reachable d procs content rs fs s"
  using job_reachable.init by (rule job_run_reachable)

section \<open>The plan and the state of the disk\<close>

text \<open>
  \<open>total\<close> is the number of bytes of all answers. A plan is in order when no two
  ranges belong to the same worker, no answer is empty, the answers together have
  the size recorded in the target, and that size is below \<open>2 ^ 63\<close>, so that the
  monitor's \<^verbatim>\<open>int64\<close> comparison is the comparison of the sizes. The workspace is
  ready when the directory exists, may be read and holds nothing.
\<close>

definition total :: "string \<Rightarrow> Range list \<Rightarrow> nat" where
  "total content rs = sum_list (map (\<lambda>r. length (fetch_range content r)) rs)"

definition plan_ok :: "Data \<Rightarrow> string \<Rightarrow> Range list \<Rightarrow> bool" where
  "plan_ok d content rs =
     (distinct (map worker rs) \<and> list_all (\<lambda>r. fetch_range content r \<noteq> []) rs \<and>
      total content rs = unat (filesize d) \<and> unat (filesize d) < 2 ^ 63)"

definition ready :: "Data \<Rightarrow> filesys \<Rightarrow> bool" where
  "ready d fs =
     (lookup fs (dirname d) = Some Dir \<and> dirname d \<notin> set (denied fs) \<and>
      below fs (dirname d) = [])"

definition todo :: "Data \<Rightarrow> int \<Rightarrow> string \<Rightarrow> Range list \<Rightarrow> filesys \<Rightarrow> nat" where
  "todo d procs content rs fs =
     sum_list (map (\<lambda>r. length (fetch_range content r) - written d procs fs r) rs)"

definition part_prefix :: "Data \<Rightarrow> int \<Rightarrow> string \<Rightarrow> filesys \<Rightarrow> Range \<Rightarrow> bool" where
  "part_prefix d procs content fs r =
     (case lookup fs (part_of d procs r) of
        None \<Rightarrow> True
      | Some n \<Rightarrow> node_bytes n \<le> length (fetch_range content r) \<and>
                 n = File (take (node_bytes n) (fetch_range content r)))"

definition disk_inv :: "Data \<Rightarrow> int \<Rightarrow> string \<Rightarrow> Range list \<Rightarrow> filesys \<Rightarrow> bool" where
  "disk_inv d procs content rs fs =
     (lookup fs (dirname d) = Some Dir \<and> dirname d \<notin> set (denied fs) \<and>
      list_all (part_prefix d procs content fs) rs \<and>
      bytes_below fs (dirname d) + todo d procs content rs fs = total content rs)"

lemma lookup_write_part [simp]:
  "lookup (write_part d procs content r n fs) =
     (lookup fs)(part_of d procs r \<mapsto> File (take n (fetch_range content r)))"
  by (simp add: write_part_def)

lemma denied_write_part [simp]: "denied (write_part d procs content r n fs) = denied fs"
  by (simp add: write_part_def)

lemma written_write_part:
  "written d procs (write_part d procs content r n fs) r' =
     (if worker r' = worker r then min n (length (fetch_range content r))
      else written d procs fs r')"
  by (simp add: written_def part_of_inj min_def)

lemma written_le:
  "part_prefix d procs content fs r \<Longrightarrow> written d procs fs r \<le> length (fetch_range content r)"
  by (simp add: part_prefix_def written_def split: option.splits)

lemma bytes_below_write_part:
  "bytes_below (write_part d procs content r n fs) (dirname d) + written d procs fs r =
     bytes_below fs (dirname d) + min n (length (fetch_range content r))"
  using bytes_below_update [of "dirname d" "part_of d procs r"
      "File (take n (fetch_range content r))" fs]
  by (simp add: write_part_def written_def min_def)

lemma disk_inv_start:
  assumes "ready d fs"
  shows "disk_inv d procs content rs fs"
proof -
  have "lookup fs (part_of d procs r) = None" for r
    using assms by (auto simp: ready_def intro: below_empty_lookup)
  then have "written d procs fs r = 0" and "part_prefix d procs content fs r" for r
    by (simp_all add: written_def part_prefix_def)
  then show ?thesis
    using assms by (simp add: disk_inv_def ready_def todo_def total_def bytes_below_def list_all_iff)
qed

lemma disk_inv_write:
  assumes inv: "disk_inv d procs content rs fs" and d: "distinct (map worker rs)"
    and r: "r \<in> set rs" and n: "written d procs fs r \<le> n" "n \<le> length (fetch_range content r)"
  shows "disk_inv d procs content rs (write_part d procs content r n fs)"
proof -
  let ?fs = "write_part d procs content r n fs"
  let ?L = "\<lambda>r. length (fetch_range content r)"
  have w: "written d procs ?fs r' = (if r' = r then n else written d procs fs r')"
    if "r' \<in> set rs" for r'
    using that n(2) same_worker [OF d r that] by (auto simp: written_write_part)
  have pre: "part_prefix d procs content ?fs r'" if "r' \<in> set rs" for r'
  proof (cases "r' = r")
    case True
    with n(2) show ?thesis by (simp add: part_prefix_def)
  next
    case False
    then have "worker r' \<noteq> worker r" using same_worker [OF d r that] by blast
    moreover have "part_prefix d procs content fs r'"
      using inv that by (simp add: disk_inv_def list_all_iff)
    ultimately show ?thesis by (simp add: part_prefix_def part_of_inj)
  qed
  have "distinct rs" using d by (simp add: distinct_map)
  from sum_list_map_change [OF this r, of "\<lambda>r'. ?L r' - written d procs ?fs r'"
      "\<lambda>r'. ?L r' - written d procs fs r'"]
  have "todo d procs content rs ?fs + (?L r - written d procs fs r) =
        todo d procs content rs fs + (?L r - n)"
    using w r by (simp add: todo_def)
  moreover have "bytes_below ?fs (dirname d) + written d procs fs r = bytes_below fs (dirname d) + n"
    using bytes_below_write_part [of d procs content r n fs] n(2) by simp
  ultimately have "bytes_below ?fs (dirname d) + todo d procs content rs ?fs =
      bytes_below fs (dirname d) + todo d procs content rs fs"
    using n by simp
  with inv pre show ?thesis by (simp add: disk_inv_def list_all_iff)
qed

lemma written_write_mono:
  assumes d: "distinct (map worker rs)"
    and r: "r \<in> set rs" and n: "written d procs fs r \<le> n" "n \<le> length (fetch_range content r)"
    and r': "r' \<in> set rs"
  shows "written d procs fs r' \<le> written d procs (write_part d procs content r n fs) r'"
  using n same_worker [OF d r r'] by (auto simp: written_write_part)

lemma todo_write:
  assumes d: "distinct (map worker rs)"
    and r: "r \<in> set rs" and n: "written d procs fs r \<le> n" "n \<le> length (fetch_range content r)"
  shows "todo d procs content rs (write_part d procs content r n fs) \<le> todo d procs content rs fs"
  unfolding todo_def
proof (rule sum_list_mono)
  fix r' assume "r' \<in> set rs"
  then show "length (fetch_range content r') - written d procs (write_part d procs content r n fs) r'
      \<le> length (fetch_range content r') - written d procs fs r'"
    using n same_worker [OF d r, of r'] by (auto simp: written_write_part)
qed

text \<open>When nothing is left to do, every partial file holds its whole answer.\<close>

lemma todo_zero_parts:
  assumes "disk_inv d procs content rs fs" and "list_all (\<lambda>r. fetch_range content r \<noteq> []) rs"
    and "todo d procs content rs fs = 0" and "r \<in> set rs"
  shows "lookup fs (part_of d procs r) = Some (File (fetch_range content r))"
proof -
  from assms(3,4) have "length (fetch_range content r) \<le> written d procs fs r"
    by (auto simp: todo_def)
  moreover have "0 < length (fetch_range content r)"
    using assms(2,4) by (simp add: list_all_iff)
  moreover have "part_prefix d procs content fs r"
    using assms(1,4) by (simp add: disk_inv_def list_all_iff)
  ultimately show ?thesis
    by (auto simp: written_def part_prefix_def split: option.splits)
qed

section \<open>What a walk sees\<close>

lemma lookup_shorten:
  "lookup (shorten p n fs) q =
     (if q = p then (case lookup fs p of Some (File bytes) \<Rightarrow> Some (File (take n bytes)) | x \<Rightarrow> x)
      else lookup fs q)"
  by (simp add: shorten_def split: option.splits node.splits)

lemma denied_shorten [simp]: "denied (shorten p n fs) = denied fs"
  by (simp add: shorten_def split: option.splits node.splits)

lemma written_shorten:
  "written d procs (shorten (part_of d procs r) n fs) r' =
     (if worker r' = worker r then min n (written d procs fs r) else written d procs fs r')"
  by (auto simp: written_def lookup_shorten part_of_inj split: option.splits node.splits)

lemma bytes_below_shorten:
  "bytes_below (shorten (part_of d procs r) n fs) (dirname d) + written d procs fs r =
     bytes_below fs (dirname d) + min n (written d procs fs r)"
proof (cases "lookup fs (part_of d procs r)")
  case None
  then show ?thesis by (simp add: shorten_def written_def)
next
  case (Some x)
  show ?thesis
  proof (cases x)
    case Dir
    with Some show ?thesis by (simp add: shorten_def written_def)
  next
    case (File bytes)
    with Some bytes_below_update [of "dirname d" "part_of d procs r" "File (take n bytes)" fs]
    show ?thesis by (simp add: shorten_def written_def min_def)
  qed
qed

lemma glimpse_frame [simp]:
  "denied (glimpse d procs rs ns fs) = denied fs"
  "lookup (glimpse d procs rs ns fs) (dirname d) = lookup fs (dirname d)"
  by (induction d procs rs ns fs rule: glimpse.induct) (simp_all add: lookup_shorten)

text \<open>The walk that sees every file as it is now sees the disk.\<close>

lemma shorten_now: "shorten (part_of d procs r) (written d procs fs r) fs = fs"
  by (auto simp: shorten_def written_def lookup_def update_triv split: option.splits node.splits)

lemma glimpse_now: "glimpse d procs rs (map (written d procs fs) rs) fs = fs"
  by (induction rs) (simp_all add: shorten_now)

text \<open>
  What a walk misses: the bytes the walk finds below the workspace, and the bytes
  the workers have written, differ by the same amount from the bytes on the disk
  and the lengths the walk saw.
\<close>

lemma bytes_below_glimpse:
  "distinct (map worker rs) \<Longrightarrow> list_all2 (\<lambda>n r. n \<le> written d procs fs r) ns rs \<Longrightarrow>
     bytes_below (glimpse d procs rs ns fs) (dirname d) + sum_list (map (written d procs fs) rs) =
       bytes_below fs (dirname d) + sum_list ns"
proof (induction d procs rs ns fs rule: glimpse.induct)
  case (1 d procs r rs n ns fs)
  let ?fs = "shorten (part_of d procs r) n fs"
  have same: "written d procs ?fs r' = written d procs fs r'" if "r' \<in> set rs" for r'
  proof -
    from that have "worker r' \<in> worker ` set rs" by (rule imageI)
    then have "worker r' \<noteq> worker r" using "1.prems"(1) by auto
    then show ?thesis by (simp add: written_shorten)
  qed
  then have "list_all2 (\<lambda>n r. n \<le> written d procs ?fs r) ns rs"
    using "1.prems"(2) by (auto elim: list.rel_mono_strong)
  from "1.IH" [OF _ this] "1.prems"(1)
  have "bytes_below (glimpse d procs rs ns ?fs) (dirname d) + sum_list (map (written d procs fs) rs) =
      bytes_below ?fs (dirname d) + sum_list ns"
    using same by (simp cong: map_cong)
  with bytes_below_shorten [of d procs r n fs] "1.prems"(2) show ?case by simp
qed simp_all

lemma bytes_below_written:
  assumes "disk_inv d procs content rs fs"
  shows "bytes_below fs (dirname d) = sum_list (map (written d procs fs) rs)"
proof -
  have "\<forall>r \<in> set rs. written d procs fs r \<le> length (fetch_range content r)"
    using assms by (simp add: disk_inv_def list_all_iff written_le)
  from sum_list_diff_add [OF this] assms show ?thesis
    by (simp add: disk_inv_def todo_def total_def)
qed

lemma glimpse_sees:
  assumes "disk_inv d procs content rs fs" and "distinct (map worker rs)"
    and "list_all2 (\<lambda>n r. n \<le> written d procs fs r) ns rs"
  shows "bytes_below (glimpse d procs rs ns fs) (dirname d) = sum_list ns"
  using bytes_below_glimpse [OF assms(2,3)] bytes_below_written [OF assms(1)] by simp

lemma poll_sees:
  assumes "lookup fs (dirname d) = Some Dir" and "dirname d \<notin> set (denied fs)"
    and le: "bytes_below fs (dirname d) \<le> unat (filesize d)" and h: "unat (filesize d) < 2 ^ 63"
  shows "poll d (observe False fs) m =
     (if bytes_below fs (dirname d) < unat (filesize d)
      then m\<lparr>bar := bar m @ [of_nat (bytes_below fs (dirname d))]\<rparr>
      else m\<lparr>bar := bar m @ [int64 (filesize d)], bar_finished := True,
             ch_Done := ch_Done m @ [True], status := Returned\<rparr>)"
proof -
  let ?B = "bytes_below fs (dirname d)"
  have B: "unat (of_nat ?B :: u64) = ?B" using le h by (simp add: nowrap)
  have "subDirsize (walk_of fs) d (dirname d) = Returns (of_nat ?B, None)"
    using assms(1,2) by (rule subDirsize_walk_of)
  moreover have "word_sless (of_nat ?B) (int64 (filesize d)) \<longleftrightarrow> ?B < unat (filesize d)"
    using le h B by (simp add: sless_small int64_def)
  ultimately show ?thesis by (simp add: poll_def observe_def)
qed

section \<open>The invariant of the job\<close>

definition job_inv :: "Data \<Rightarrow> int \<Rightarrow> string \<Rightarrow> Range list \<Rightarrow> job \<Rightarrow> bool" where
  "job_inv d procs content rs s =
     (disk_inv d procs content rs (disk s) \<and>
      ch_Err (watcher s) = [] \<and> status (watcher s) \<in> {Running, Returned} \<and>
      (status (watcher s) = Running \<longrightarrow> ch_Done (watcher s) = []) \<and>
      length (ch_Done (watcher s)) \<le> 1 \<and>
      (ch_Done (watcher s) \<noteq> [] \<longrightarrow> todo d procs content rs (disk s) = 0) \<and>
      sorted (map unat (bar (watcher s))) \<and>
      (\<forall>v \<in> set (bar (watcher s)). unat v \<le> sum_list (walked s)) \<and>
      list_all2 (\<lambda>n r. n \<le> written d procs (disk s) r) (walked s) rs)"

lemma job_inv_start: "ready d fs \<Longrightarrow> job_inv d procs content rs (job_start rs fs)"
  by (simp add: job_inv_def job_start_def started_def disk_inv_start list_all2_map1 list_all2_same)

text \<open>
  What a poll does in a job: its walk finds the sum of the lengths it saw, which is
  at most the file size, and reaches the file size only when nothing is left to
  write.
\<close>

lemma walk_bounds:
  assumes inv: "disk_inv d procs content rs fs" and plan: "plan_ok d content rs"
    and now: "list_all2 (\<lambda>n r. n \<le> written d procs fs r) ns rs"
  shows "sum_list ns \<le> unat (filesize d)"
    and "unat (of_nat (sum_list ns) :: u64) = sum_list ns"
    and "\<not> sum_list ns < unat (filesize d) \<Longrightarrow> todo d procs content rs fs = 0"
proof -
  have t: "total content rs = unat (filesize d)" and h: "unat (filesize d) < 2 ^ 63"
    using plan by (simp_all add: plan_ok_def)
  have below: "sum_list ns \<le> bytes_below fs (dirname d)"
    using list_all2_sum_map_le [OF now] by (simp add: bytes_below_written [OF inv])
  then show le: "sum_list ns \<le> unat (filesize d)"
    using inv t by (simp add: disk_inv_def)
  then show "unat (of_nat (sum_list ns) :: u64) = sum_list ns" using h by (simp add: nowrap)
  show "todo d procs content rs fs = 0" if "\<not> sum_list ns < unat (filesize d)"
    using that below inv t by (simp add: disk_inv_def)
qed

lemma poll_walk:
  assumes inv: "disk_inv d procs content rs fs" and plan: "plan_ok d content rs"
    and now: "list_all2 (\<lambda>n r. n \<le> written d procs fs r) ns rs"
  shows "poll d (observe False (glimpse d procs rs ns fs)) m =
     (if sum_list ns < unat (filesize d)
      then m\<lparr>bar := bar m @ [of_nat (sum_list ns)]\<rparr>
      else m\<lparr>bar := bar m @ [int64 (filesize d)], bar_finished := True,
             ch_Done := ch_Done m @ [True], status := Returned\<rparr>)"
proof -
  let ?G = "glimpse d procs rs ns fs"
  have h: "unat (filesize d) < 2 ^ 63" and d: "distinct (map worker rs)"
    using plan by (simp_all add: plan_ok_def)
  have G: "bytes_below ?G (dirname d) = sum_list ns" by (rule glimpse_sees [OF inv d now])
  have "lookup ?G (dirname d) = Some Dir" and "dirname d \<notin> set (denied ?G)"
    and "bytes_below ?G (dirname d) \<le> unat (filesize d)"
    using inv walk_bounds(1) [OF inv plan now] by (simp_all add: disk_inv_def G)
  from poll_sees [OF this h] show ?thesis by (simp add: G)
qed

lemma walked_write:
  assumes "distinct (map worker rs)" and "r \<in> set rs"
    and "written d procs fs r \<le> n" and "n \<le> length (fetch_range content r)"
    and "list_all2 (\<lambda>m r'. m \<le> written d procs fs r') ns rs"
  shows "list_all2 (\<lambda>m r'. m \<le> written d procs (write_part d procs content r n fs) r') ns rs"
  using assms(5)
proof (rule list.rel_mono_strong)
  fix m r' assume "r' \<in> set rs" and "m \<le> written d procs fs r'"
  with written_write_mono [OF assms(1-4), of r']
  show "m \<le> written d procs (write_part d procs content r n fs) r'" by simp
qed

lemma job_inv_write:
  assumes plan: "plan_ok d content rs" and inv: "job_inv d procs content rs s"
    and r: "r \<in> set rs" and n: "written d procs (disk s) r \<le> n"
      "n \<le> length (fetch_range content r)"
  shows "job_inv d procs content rs (s\<lparr>disk := write_part d procs content r n (disk s)\<rparr>)"
proof -
  have d: "distinct (map worker rs)" using plan by (simp add: plan_ok_def)
  have inv0: "disk_inv d procs content rs (disk s)"
    and w: "list_all2 (\<lambda>m r'. m \<le> written d procs (disk s) r') (walked s) rs"
    using inv by (simp_all add: job_inv_def)
  note walked_write [OF d r n w] todo_write [OF d r n] disk_inv_write [OF inv0 d r n]
  with inv show ?thesis by (fastforce simp: job_inv_def)
qed

lemma job_inv_poll:
  assumes plan: "plan_ok d content rs" and inv: "job_inv d procs content rs s"
    and run: "status (watcher s) = Running" and up: "list_all2 (\<le>) (walked s) ns"
    and now: "list_all2 (\<lambda>n r. n \<le> written d procs (disk s) r) ns rs"
  shows "job_inv d procs content rs
     (s\<lparr>watcher := poll d (observe cancelled (glimpse d procs rs ns (disk s))) (watcher s),
        walked := ns\<rparr>)"
proof -
  have old: "\<forall>v \<in> set (bar (watcher s)). unat v \<le> sum_list ns"
    using inv list_all2_sum_le [OF up] by (fastforce simp: job_inv_def)
  show ?thesis
  proof (cases cancelled)
    case True
    with inv run old now show ?thesis by (simp add: job_inv_def poll_cancelled observe_def)
  next
    case False
    have inv0: "disk_inv d procs content rs (disk s)" using inv by (simp add: job_inv_def)
    note walk_bounds [OF inv0 plan now]
    with inv run old now show ?thesis
      by (auto simp: job_inv_def False poll_walk [OF inv0 plan now] sorted_append int64_def)
  qed
qed

lemma job_step_inv:
  assumes "plan_ok d content rs" and "job_inv d procs content rs s"
    and "job_step d procs content rs e s = Some s'"
  shows "job_inv d procs content rs s'"
proof (cases e)
  case (Write r n)
  with assms show ?thesis by (auto split: if_splits intro: job_inv_write)
next
  case (Fail r)
  with assms show ?thesis by (auto simp: job_inv_def split: if_splits)
next
  case (Poll cancelled ns)
  with assms show ?thesis by (auto split: if_splits intro: job_inv_poll)
qed

lemma job_reachable_inv:
  assumes "plan_ok d content rs" and "ready d fs" and "job_reachable d procs content rs fs s"
  shows "job_inv d procs content rs s"
  using assms(3)
  by (induction rule: job_reachable.induct)
    (auto intro: job_inv_start [OF assms(2)] job_step_inv [OF assms(1)])

lemmas job_run_inv = job_reachable_inv [OF _ _ run_reachable]

text \<open>No walk has seen more than the bytes of all answers.\<close>

lemma walked_bound:
  assumes "job_inv d procs content rs s"
  shows "sum_list (walked s) \<le> total content rs"
proof -
  have inv0: "disk_inv d procs content rs (disk s)"
    and "list_all2 (\<lambda>n r. n \<le> written d procs (disk s) r) (walked s) rs"
    using assms by (simp_all add: job_inv_def)
  from list_all2_sum_map_le [OF this(2)]
  have "sum_list (walked s) \<le> bytes_below (disk s) (dirname d)"
    by (simp add: bytes_below_written [OF inv0])
  with inv0 show ?thesis by (simp add: disk_inv_def)
qed

text \<open>Once completion has been signalled, every part is complete.\<close>

lemma done_parts:
  assumes "plan_ok d content rs" and "job_inv d procs content rs s"
    and "ch_Done (watcher s) \<noteq> []" and "r \<in> set rs"
  shows "lookup (disk s) (part_of d procs r) = Some (File (fetch_range content r))"
  using assms by (intro todo_zero_parts) (simp_all add: job_inv_def plan_ok_def)

section \<open>What the job leaves alone\<close>

lemma job_step_frame:
  assumes "job_step d procs content rs e s = Some s'"
  shows "denied (disk s') = denied (disk s)"
    and "\<not> under (dirname d) q \<Longrightarrow> lookup (disk s') q = lookup (disk s) q"
  using assms part_of_under [of d procs]
  by (cases e; auto split: if_splits)+

lemma job_reachable_frame:
  assumes "job_reachable d procs content rs fs s"
  shows "denied (disk s) = denied fs"
    and "\<not> under (dirname d) q \<Longrightarrow> lookup (disk s) q = lookup fs q"
  using assms
  by (induction rule: job_reachable.induct) (simp_all add: job_start_def job_step_frame)

text \<open>A worker that has failed stays failed, and its partial file stays as it is.\<close>

lemma failed_step:
  assumes "distinct (map worker rs)" and "r \<in> set rs" and "r \<in> set (failed s)"
    and "job_step d procs content rs e s = Some s'"
  shows "r \<in> set (failed s') \<and>
         lookup (disk s') (part_of d procs r) = lookup (disk s) (part_of d procs r)"
proof (cases e)
  case (Write r' n)
  with assms(4) have "r' \<in> set rs" and "r' \<notin> set (failed s)"
    and s': "s' = s\<lparr>disk := write_part d procs content r' n (disk s)\<rparr>"
    by (auto split: if_splits)
  with assms(1-3) have "worker r' \<noteq> worker r" by (auto dest: same_worker)
  with assms(3) show ?thesis by (simp add: s' part_of_inj)
next
  case (Fail r')
  with assms(3,4) show ?thesis by (auto split: if_splits)
next
  case (Poll c ns)
  with assms(3,4) show ?thesis by (auto split: if_splits)
qed

lemma failed_run:
  assumes "distinct (map worker rs)" and "r \<in> set rs"
  shows "r \<in> set (failed s) \<Longrightarrow> job_run d procs content rs es s = Some s' \<Longrightarrow>
     r \<in> set (failed s') \<and>
     lookup (disk s') (part_of d procs r) = lookup (disk s) (part_of d procs r)"
proof (induction es arbitrary: s)
  case Nil
  then show ?case by simp
next
  case (Cons e es)
  from Cons.prems(2) obtain s1 where step: "job_step d procs content rs e s = Some s1"
    and run: "job_run d procs content rs es s1 = Some s'"
    by (auto split: option.splits)
  from failed_step [OF assms Cons.prems(1) step] Cons.IH [OF _ run] show ?case by simp
qed

section \<open>The monitor of a job is \<^verbatim>\<open>ProgressBar\<close>\<close>

text \<open>
  \<open>job_obs\<close> collects what the polls of a schedule observe. The monitor at the end of
  a schedule is \<^verbatim>\<open>ProgressBar\<close> run on these observations, so everything proved of
  \<open>ProgressBar\<close> in theory \<open>Progress_Monitor\<close> holds of the monitor of a job.
\<close>

fun job_obs :: "Data \<Rightarrow> int \<Rightarrow> string \<Rightarrow> Range list \<Rightarrow> event list \<Rightarrow> job \<Rightarrow> obs list" where
  "job_obs d procs content rs [] s = []"
| "job_obs d procs content rs (e # es) s =
     (case job_step d procs content rs e s of
        None \<Rightarrow> []
      | Some s' \<Rightarrow>
          (case e of
             Poll c ns \<Rightarrow> [observe c (glimpse d procs rs ns (disk s))]
           | _ \<Rightarrow> []) @ job_obs d procs content rs es s')"

lemma job_watcher:
  "job_run d procs content rs es s = Some s' \<Longrightarrow>
     watcher s' = poll_loop d (job_obs d procs content rs es s) (watcher s)"
proof (induction es arbitrary: s)
  case Nil
  then show ?case by simp
next
  case (Cons e es)
  from Cons.prems obtain s1 where step: "job_step d procs content rs e s = Some s1"
    and run: "job_run d procs content rs es s1 = Some s'"
    by (auto split: option.splits)
  from step Cons.IH [OF run] show ?case
    by (cases e) (auto split: if_splits)
qed

lemma job_watcher_ProgressBar:
  "job_run d procs content rs es (job_start rs fs) = Some s \<Longrightarrow>
     watcher s = ProgressBar d (job_obs d procs content rs es (job_start rs fs))"
  by (simp add: job_watcher ProgressBar_def job_start_def)

lemma job_watcher_reachable:
  "job_reachable d procs content rs fs s \<Longrightarrow> monitor_reachable d (watcher s)"
proof (induction rule: job_reachable.induct)
  case init
  show ?case by (simp add: job_start_def monitor_reachable.init)
next
  case (step s e s')
  then show ?case
    by (cases e) (auto split: if_splits intro: monitor_reachable_poll)
qed

section \<open>Finishing the download\<close>

definition finish :: "string \<Rightarrow> Range list \<Rightarrow> event list" where
  "finish content rs = map (\<lambda>r. Write r (length (fetch_range content r))) rs"

lemma finish_run:
  assumes plan: "plan_ok d content rs"
  shows "job_inv d procs content rs s \<Longrightarrow> failed s = [] \<Longrightarrow> set ws \<subseteq> set rs \<Longrightarrow>
     \<exists>s'. job_run d procs content rs (finish content ws) s = Some s' \<and>
          job_inv d procs content rs s' \<and> watcher s' = watcher s \<and> walked s' = walked s \<and>
          (\<forall>r \<in> set rs. written d procs (disk s') r =
             (if r \<in> set ws then length (fetch_range content r) else written d procs (disk s) r))"
proof (induction ws arbitrary: s)
  case Nil
  then show ?case by (simp add: finish_def)
next
  case (Cons r ws)
  let ?n = "length (fetch_range content r)"
  let ?s = "s\<lparr>disk := write_part d procs content r ?n (disk s)\<rparr>"
  have d: "distinct (map worker rs)" using plan by (simp add: plan_ok_def)
  have r: "r \<in> set rs" using Cons.prems(3) by simp
  have "part_prefix d procs content (disk s) r"
    using Cons.prems(1) r by (simp add: job_inv_def disk_inv_def list_all_iff)
  then have step: "job_step d procs content rs (Write r ?n) s = Some ?s"
    using r Cons.prems(2) by (simp add: written_le)
  have w: "written d procs (disk ?s) r' = (if r' = r then ?n else written d procs (disk s) r')"
    if "r' \<in> set rs" for r'
    using that same_worker [OF d r that] by (auto simp: written_write_part)
  from Cons.IH [of ?s] job_step_inv [OF plan Cons.prems(1) step] Cons.prems(2,3)
  obtain s' where "job_run d procs content rs (finish content ws) ?s = Some s'"
    "job_inv d procs content rs s'" "watcher s' = watcher ?s" "walked s' = walked ?s"
    "\<forall>r' \<in> set rs. written d procs (disk s') r' =
       (if r' \<in> set ws then length (fetch_range content r') else written d procs (disk ?s) r')"
    by auto
  with step w show ?case by (auto simp: finish_def)
qed

text \<open>
  The sequential \<open>run_workers\<close> of theory \<open>Worker_Pool\<close> is the schedule in which every
  worker writes its whole answer at once.
\<close>

lemma write_whole:
  "write_part d procs content r (length (fetch_range content r)) fs = store_part d procs content r fs"
  by (simp add: write_part_def store_part_def)

lemma finish_is_run_workers:
  assumes plan: "plan_ok d content rs"
  shows "job_inv d procs content rs s \<Longrightarrow> failed s = [] \<Longrightarrow> set ws \<subseteq> set rs \<Longrightarrow>
     job_run d procs content rs (finish content ws) s =
       Some (s\<lparr>disk := run_workers d procs content ws (disk s)\<rparr>)"
proof (induction ws arbitrary: s)
  case Nil
  then show ?case by (simp add: finish_def run_workers_def)
next
  case (Cons r ws)
  let ?s = "s\<lparr>disk := store_part d procs content r (disk s)\<rparr>"
  have "part_prefix d procs content (disk s) r"
    using Cons.prems(1,3) by (simp add: job_inv_def disk_inv_def list_all_iff)
  then have step: "job_step d procs content rs (Write r (length (fetch_range content r))) s = Some ?s"
    using Cons.prems(2,3) by (simp add: written_le write_whole)
  from Cons.IH [of ?s] job_step_inv [OF plan Cons.prems(1) step] Cons.prems(2,3)
  have "job_run d procs content rs (finish content ws) ?s =
      Some (?s\<lparr>disk := run_workers d procs content ws (disk ?s)\<rparr>)"
    by simp
  with step show ?case by (simp add: finish_def run_workers_def)
qed

section \<open>The ranges of \<^verbatim>\<open>MakeRange\<close> are a plan\<close>

lemma fetch_range_nonempty:
  assumes "split = FileSize d div procs" and "split \<noteq> 0" and "k < unat procs"
    and "length content = unat (FileSize d)"
  shows "fetch_range content (MakeRange d (of_nat k) split procs) \<noteq> []"
proof -
  let ?r = "MakeRange d (of_nat k) split procs"
  have "?r \<in> set (map (\<lambda>i. MakeRange d (of_nat i) split procs) [k..<unat procs])"
    using assms(3) by simp
  from tiles_member [OF tiles_ranges_from [OF assms(1-3)] this]
  have "unat (low ?r) \<le> unat (high ?r)" by simp
  moreover have "unat split * Suc k \<le> unat (FileSize d)"
    using chunk_fits [OF assms(1), of "Suc k"] assms(3) by (simp add: Suc_le_eq)
  then have "unat (low ?r) < length content"
    using assms unat_low [OF assms(1,3)] by (simp add: unat_gt_0 [symmetric] Suc_le_eq)
  ultimately show ?thesis by (simp add: fetch_range_def)
qed

lemma plan_ok_ranges:
  assumes "procs \<noteq> 0" and "split = FileSize d div procs" and "split \<noteq> 0"
    and "length content = unat (FileSize d)" and "unat (FileSize d) < 2 ^ 63"
  shows "plan_ok d content (ranges_of d split procs)"
proof -
  have "concat (map (fetch_range content) (ranges_of d split procs)) = content"
    using assms(1-4) by (intro ranges_concat) simp_all
  from arg_cong [OF this, of length]
  have "total content (ranges_of d split procs) = length content"
    by (simp add: total_def length_concat comp_def)
  moreover have "list_all (\<lambda>r. fetch_range content r \<noteq> []) (ranges_of d split procs)"
    using assms(2-4) by (auto simp: list_all_iff ranges_of_def fetch_range_nonempty)
  ultimately show ?thesis
    using assms(4,5) by (simp add: plan_ok_def distinct_workers FileSize_def)
qed

section \<open>Properties\<close>

lemmas job_eval = written_def write_part_def shorten_def fetch_range_def part_of_def partial_path_def
  itoa_eval poll_def observe_def walk_of_def subDirsize_def walk_fn_def below_def under_def
  lookup_def int64_def word_sless_alt started_def job_start_def

text \<open>
  A job of two workers for a file of ten bytes, used by the witnesses: the second
  worker writes in two pieces, with a poll before, between and after. The second poll
  comes after the first worker has written its five bytes, but its walk visited that
  file when it held two of them.
\<close>

lemma example_plan:
  "plan_ok \<lparr>filename = ''f'', filesize = 10, dirname = ''_f.2''\<rparr> ''0123456789''
     [\<lparr>low = 0, high = 4, worker = 0\<rparr>, \<lparr>low = 5, high = 10, worker = 1\<rparr>]"
  by (simp add: plan_ok_def total_def fetch_range_def)

lemma example_ready:
  "ready \<lparr>filename = ''f'', filesize = 10, dirname = ''_f.2''\<rparr>
     \<lparr>entries = [(''_f.2'', Dir)], denied = []\<rparr>"
  by (simp add: ready_def lookup_def below_def under_def)

lemma example_run:
  "job_run \<lparr>filename = ''f'', filesize = 10, dirname = ''_f.2''\<rparr> 2 ''0123456789''
     [\<lparr>low = 0, high = 4, worker = 0\<rparr>, \<lparr>low = 5, high = 10, worker = 1\<rparr>]
     [Poll False [0, 0], Write \<lparr>low = 5, high = 10, worker = 1\<rparr> 3,
      Write \<lparr>low = 0, high = 4, worker = 0\<rparr> 5, Poll False [2, 3],
      Write \<lparr>low = 5, high = 10, worker = 1\<rparr> 5, Poll False [5, 3], Poll False [5, 5]]
     (job_start [\<lparr>low = 0, high = 4, worker = 0\<rparr>, \<lparr>low = 5, high = 10, worker = 1\<rparr>]
        \<lparr>entries = [(''_f.2'', Dir)], denied = []\<rparr>) =
   Some \<lparr>disk = \<lparr>entries = [(''_f.2'', Dir), (''_f.2/f.2.1'', File ''56789''),
            (''_f.2/f.2.0'', File ''01234'')], denied = []\<rparr>,
          watcher = \<lparr>bar = [0, 5, 8, 10], bar_finished = True, ch_Err = [], ch_Done = [True],
            status = Returned\<rparr>, failed = [], walked = [5, 5]\<rparr>"
  by (simp add: job_eval)

lemma example_run_failed:
  "job_run \<lparr>filename = ''f'', filesize = 10, dirname = ''_f.2''\<rparr> 2 ''0123456789''
     [\<lparr>low = 0, high = 4, worker = 0\<rparr>, \<lparr>low = 5, high = 10, worker = 1\<rparr>]
     [Write \<lparr>low = 5, high = 10, worker = 1\<rparr> 3, Fail \<lparr>low = 5, high = 10, worker = 1\<rparr>]
     (job_start [\<lparr>low = 0, high = 4, worker = 0\<rparr>, \<lparr>low = 5, high = 10, worker = 1\<rparr>]
        \<lparr>entries = [(''_f.2'', Dir)], denied = []\<rparr>) =
   Some \<lparr>disk = \<lparr>entries = [(''_f.2'', Dir), (''_f.2/f.2.1'', File ''567'')], denied = []\<rparr>,
          watcher = started, failed = [\<lparr>low = 5, high = 10, worker = 1\<rparr>], walked = [0, 0]\<rparr>"
  by (simp add: job_eval)

text \<open>
  C6. Completion means complete: in a job whose plan is in order and whose workspace
  was ready at the start, whatever the order in which the workers write and the
  monitor polls, once the monitor has signalled completion every worker's partial
  file holds the whole answer to its range. The witness is a job of two workers of
  which the second writes in two pieces, with a poll before, between and after.
\<close>

theorem done_means_complete:
  assumes "plan_ok d content rs" and "ready d fs"
    and "job_run d procs content rs es (job_start rs fs) = Some s"
    and "ch_Done (watcher s) \<noteq> []"
  shows "list_all (\<lambda>r. lookup (disk s) (part_of d procs r) = Some (File (fetch_range content r))) rs"
  using done_parts [OF assms(1) job_run_inv [OF assms(1-3)] assms(4)]
  by (simp add: list_all_iff)

theorem done_means_complete_witness:
  "list_all (\<lambda>r. lookup \<lparr>entries = [(''_f.2'', Dir), (''_f.2/f.2.1'', File ''56789''),
         (''_f.2/f.2.0'', File ''01234'')], denied = []\<rparr>
       (part_of \<lparr>filename = ''f'', filesize = 10, dirname = ''_f.2''\<rparr> 2 r) =
       Some (File (fetch_range ''0123456789'' r)))
     [\<lparr>low = 0, high = 4, worker = 0\<rparr>, \<lparr>low = 5, high = 10, worker = 1\<rparr>]"
  using done_means_complete [OF example_plan example_ready example_run] by simp

text \<open>
  C12. The monitor of a job is safe: whatever the schedule, the monitor reports no
  error and does not die, it signals completion at most once, and the sizes it shows
  never decrease and never exceed the file size.
\<close>

theorem job_monitor_safe:
  assumes "plan_ok d content rs" and "ready d fs"
    and "job_run d procs content rs es (job_start rs fs) = Some s"
  shows "ch_Err (watcher s) = [] \<and> status (watcher s) \<in> {Running, Returned} \<and>
         length (ch_Done (watcher s)) \<le> 1 \<and> sorted (map unat (bar (watcher s))) \<and>
         (\<forall>v \<in> set (bar (watcher s)). unat v \<le> unat (filesize d))"
proof -
  note inv = job_run_inv [OF assms]
  from walked_bound [OF inv] have "sum_list (walked s) \<le> unat (filesize d)"
    using assms(1) by (simp add: plan_ok_def)
  with inv show ?thesis by (fastforce simp: job_inv_def)
qed

theorem job_monitor_safe_witness:
  "sorted (map unat [0, 5, 8, 10 :: u64]) \<and> list_all (\<lambda>v. unat v \<le> 10) [0, 5, 8, 10 :: u64]"
  using job_monitor_safe [OF example_plan example_ready example_run] by simp

text \<open>
  C14. The job can always finish: after any schedule that leaves the monitor running
  and in which no worker has failed, every worker can write the rest of its answer
  and the monitor can poll once more; then the monitor shows the file size, signals
  completion once and returns.
\<close>

theorem job_can_finish:
  assumes "plan_ok d content rs" and "ready d fs"
    and "job_run d procs content rs es (job_start rs fs) = Some s"
    and "status (watcher s) = Running" and "failed s = []"
  shows "\<exists>s'. job_run d procs content rs
             (es @ finish content rs @ [Poll False (map (\<lambda>r. length (fetch_range content r)) rs)])
             (job_start rs fs) = Some s' \<and>
           ch_Done (watcher s') = [True] \<and> bar_finished (watcher s') \<and>
           status (watcher s') = Returned \<and> last (bar (watcher s')) = int64 (filesize d)"
proof -
  let ?ns = "map (\<lambda>r. length (fetch_range content r)) rs"
  note inv = job_run_inv [OF assms(1-3)]
  from finish_run [OF assms(1) inv assms(5), of rs] obtain s1 where
    run: "job_run d procs content rs (finish content rs) s = Some s1"
    and inv1: "job_inv d procs content rs s1" and w: "watcher s1 = watcher s"
    and full: "\<forall>r \<in> set rs. written d procs (disk s1) r = length (fetch_range content r)"
    by auto
  have d1: "disk_inv d procs content rs (disk s1)"
    and "list_all2 (\<lambda>n r. n \<le> written d procs (disk s1) r) (walked s1) rs"
    using inv1 by (simp_all add: job_inv_def)
  then have up: "list_all2 (\<le>) (walked s1) ?ns"
    using full by (auto simp: list_all2_map2 elim: list.rel_mono_strong)
  have now: "list_all2 (\<lambda>n r. n \<le> written d procs (disk s1) r) ?ns rs"
    using full by (simp add: list_all2_map1 list_all2_same)
  have "sum_list ?ns = unat (filesize d)" using assms(1) by (simp add: plan_ok_def total_def)
  moreover have "ch_Done (watcher s) = []" using inv assms(4) by (simp add: job_inv_def)
  ultimately show ?thesis
    using assms(3,4) run w up now by (simp add: job_run_append poll_walk [OF d1 assms(1) now])
qed

theorem job_can_finish_witness:
  "\<exists>s'. job_run \<lparr>filename = ''f'', filesize = 10, dirname = ''_f.2''\<rparr> 2 ''0123456789''
     [\<lparr>low = 0, high = 4, worker = 0\<rparr>, \<lparr>low = 5, high = 10, worker = 1\<rparr>]
     ([] @ finish ''0123456789'' [\<lparr>low = 0, high = 4, worker = 0\<rparr>, \<lparr>low = 5, high = 10, worker = 1\<rparr>]
        @ [Poll False (map (\<lambda>r. length (fetch_range ''0123456789'' r))
             [\<lparr>low = 0, high = 4, worker = 0\<rparr>, \<lparr>low = 5, high = 10, worker = 1\<rparr>])])
     (job_start [\<lparr>low = 0, high = 4, worker = 0\<rparr>, \<lparr>low = 5, high = 10, worker = 1\<rparr>]
        \<lparr>entries = [(''_f.2'', Dir)], denied = []\<rparr>) = Some s' \<and>
     ch_Done (watcher s') = [True] \<and> bar_finished (watcher s') \<and>
     status (watcher s') = Returned \<and> last (bar (watcher s')) = 10"
  using job_can_finish [OF example_plan example_ready, of 2 "[]"
      "job_start [\<lparr>low = 0, high = 4, worker = 0\<rparr>, \<lparr>low = 5, high = 10, worker = 1\<rparr>]
         \<lparr>entries = [(''_f.2'', Dir)], denied = []\<rparr>"]
  by (simp add: job_start_def started_def int64_def)

text \<open>
  C15. A failed worker blocks completion: when the transport of a worker has failed
  before its partial file held the whole answer, the monitor does not signal
  completion in any continuation of the schedule. Its loop ends only when the
  context is cancelled.
\<close>

theorem failed_worker_blocks:
  assumes "plan_ok d content rs" and "ready d fs"
    and "job_run d procs content rs es (job_start rs fs) = Some s"
    and "r \<in> set rs" and "r \<in> set (failed s)"
    and "lookup (disk s) (part_of d procs r) \<noteq> Some (File (fetch_range content r))"
    and "job_run d procs content rs es' s = Some s'"
  shows "ch_Done (watcher s') = []"
proof (rule ccontr)
  assume sig: "ch_Done (watcher s') \<noteq> []"
  have "job_run d procs content rs (es @ es') (job_start rs fs) = Some s'"
    using assms(3,7) by (simp add: job_run_append)
  from done_parts [OF assms(1) job_run_inv [OF assms(1,2) this] sig assms(4)]
  have "lookup (disk s') (part_of d procs r) = Some (File (fetch_range content r))" .
  moreover have "distinct (map worker rs)" using assms(1) by (simp add: plan_ok_def)
  from failed_run [OF this assms(4,5,7)]
  have "lookup (disk s') (part_of d procs r) = lookup (disk s) (part_of d procs r)" by simp
  ultimately show False using assms(6) by simp
qed

theorem failed_worker_blocks_witness:
  "ch_Done (watcher \<lparr>disk = \<lparr>entries = [(''_f.2'', Dir), (''_f.2/f.2.1'', File ''567''),
        (''_f.2/f.2.0'', File ''01234'')], denied = []\<rparr>,
      watcher = \<lparr>bar = [8], bar_finished = False, ch_Err = [], ch_Done = [], status = Running\<rparr>,
      failed = [\<lparr>low = 5, high = 10, worker = 1\<rparr>], walked = [5, 3]\<rparr>) = []"
proof -
  let ?d = "\<lparr>filename = ''f'', filesize = 10, dirname = ''_f.2''\<rparr>"
  let ?r0 = "\<lparr>low = 0, high = 4, worker = 0\<rparr>" and ?r1 = "\<lparr>low = 5, high = 10, worker = 1\<rparr>"
  have "job_run ?d 2 ''0123456789'' [?r0, ?r1] [Write ?r0 5, Poll False [5, 3]]
      \<lparr>disk = \<lparr>entries = [(''_f.2'', Dir), (''_f.2/f.2.1'', File ''567'')], denied = []\<rparr>,
       watcher = started, failed = [?r1], walked = [0, 0]\<rparr> =
      Some \<lparr>disk = \<lparr>entries = [(''_f.2'', Dir), (''_f.2/f.2.1'', File ''567''),
          (''_f.2/f.2.0'', File ''01234'')], denied = []\<rparr>,
        watcher = \<lparr>bar = [8], bar_finished = False, ch_Err = [], ch_Done = [], status = Running\<rparr>,
        failed = [?r1], walked = [5, 3]\<rparr>"
    by (simp add: job_eval)
  from failed_worker_blocks [OF example_plan example_ready example_run_failed _ _ _ this]
  show ?thesis by (simp add: job_eval)
qed

text \<open>
  C33. A foreign file completes the job too early: \<^verbatim>\<open>subDirsize\<close> counts every file below
  the workspace. When the workspace holds files of at least the file size before any
  worker has written a byte (the source expects \<^verbatim>\<open>.DS_Store\<close> there), the first poll
  of the monitor signals completion.
\<close>

theorem foreign_file_early_done:
  assumes "lookup fs (dirname d) = Some Dir" and "dirname d \<notin> set (denied fs)"
    and "unat (filesize d) \<le> bytes_below fs (dirname d)"
    and "bytes_below fs (dirname d) < 2 ^ 63"
    and "list_all (\<lambda>r. lookup fs (part_of d procs r) = None) rs"
  shows "job_run d procs content rs [Poll False (map (\<lambda>r. 0) rs)] (job_start rs fs) =
     Some \<lparr>disk = fs,
           watcher = \<lparr>bar = [int64 (filesize d)], bar_finished = True, ch_Err = [],
                      ch_Done = [True], status = Returned\<rparr>,
           failed = [], walked = map (\<lambda>r. 0) rs\<rparr>"
proof -
  let ?B = "bytes_below fs (dirname d)"
  have w: "map (\<lambda>r. 0) rs = map (written d procs fs) rs"
    using assms(5) by (simp add: list_all_iff written_def)
  have B: "unat (of_nat ?B :: u64) = ?B" using assms(4) by (simp add: nowrap)
  have "subDirsize (walk_of fs) d (dirname d) = Returns (of_nat ?B, None)"
    using assms(1,2) by (rule subDirsize_walk_of)
  moreover have "\<not> word_sless (of_nat ?B) (int64 (filesize d))"
    using assms(3,4) B by (simp add: sless_small int64_def)
  moreover have "glimpse d procs rs (map (\<lambda>r. 0) rs) fs = fs"
    unfolding w by (rule glimpse_now)
  ultimately show ?thesis
    by (simp add: job_start_def started_def poll_def observe_def list_all2_map1 list_all2_same)
qed

theorem foreign_file_early_done_witness:
  "job_run \<lparr>filename = ''f'', filesize = 10, dirname = ''_f.2''\<rparr> 2 ''0123456789''
     [\<lparr>low = 0, high = 4, worker = 0\<rparr>, \<lparr>low = 5, high = 10, worker = 1\<rparr>] [Poll False [0, 0]]
     (job_start [\<lparr>low = 0, high = 4, worker = 0\<rparr>, \<lparr>low = 5, high = 10, worker = 1\<rparr>]
        \<lparr>entries = [(''_f.2'', Dir), (''_f.2/.DS_Store'', File ''0123456789abcdef'')],
         denied = []\<rparr>) =
   Some \<lparr>disk = \<lparr>entries = [(''_f.2'', Dir), (''_f.2/.DS_Store'', File ''0123456789abcdef'')],
            denied = []\<rparr>,
         watcher = \<lparr>bar = [10], bar_finished = True, ch_Err = [], ch_Done = [True],
                    status = Returned\<rparr>,
         failed = [], walked = [0, 0]\<rparr>"
  using foreign_file_early_done [where fs = "\<lparr>entries = [(''_f.2'', Dir),
      (''_f.2/.DS_Store'', File ''0123456789abcdef'')], denied = []\<rparr>"
      and d = "\<lparr>filename = ''f'', filesize = 10, dirname = ''_f.2''\<rparr>" and procs = 2
      and content = "''0123456789''"
      and rs = "[\<lparr>low = 0, high = 4, worker = 0\<rparr>, \<lparr>low = 5, high = 10, worker = 1\<rparr>]"]
  by (simp add: lookup_def bytes_below_def below_def under_def int64_def part_of_def
      partial_path_def itoa_eval)

end
