(* ===== verification/Merger_Effects.thy ===== *)
theory Merger_Effects
  imports Merger
begin

text \<open>
  \<^verbatim>\<open>BindwithFiles\<close> of \<^verbatim>\<open>src/util.go\<close> once more, now with everything it does besides
  changing the file system: the two messages on standard output, the calls on the
  progress bar of the merge (\<^verbatim>\<open>pb.New64\<close>, \<^verbatim>\<open>Start\<close>, the proxy reader that advances the
  bar by the bytes read, \<^verbatim>\<open>Finish\<close>), and the file handles with their \<^verbatim>\<open>defer\<close>red
  \<^verbatim>\<open>Close\<close> calls.

  The state \<open>merging\<close> holds the file system, the list of calls made so far, in
  order, and the handles that are open. A call is recorded when it is made, whether
  it succeeds or not. The \<^verbatim>\<open>defer\<close> statements push the handle on a stack that is
  local to the call of \<^verbatim>\<open>BindwithFiles\<close>; every \<^verbatim>\<open>return\<close> runs the stack, last pushed
  first (\<open>run_deferred\<close>). \<open>bind_loop_io\<close> is the \<^verbatim>\<open>for\<close> loop, \<open>BindwithFiles_io\<close> the
  function.

  \<^item> \<open>BindwithFiles_io_refines\<close>: leaving out calls and handles gives \<open>BindwithFiles\<close> of
    theory \<open>Merger\<close>, so every theorem there holds of this function too.
  \<^item> \<open>bind_loop_io_shape\<close>, \<open>run_deferred_closes\<close>: on every path the handles that are
    open are the deferred stack on top of those open before.
  \<^item> \<open>bind_loop_io_parts\<close>: the calls of the loop when every part is in place; the
    specification of the call sequence is \<open>merge_calls\<close>.
\<close>

section \<open>State\<close>

datatype effect =
    Println string
  | Create string
  | Open string
  | Close string
  | Remove string
  | RemoveAll string
  | Copy string string
  | New64 i64
  | Start
  | NewProxyReader string
  | Add nat
  | Finish

record merging =
  fsys :: filesys
  calls :: "effect list"
  open_files :: "string list"

definition emit :: "effect \<Rightarrow> merging \<Rightarrow> merging" where
  "emit e s = s\<lparr>calls := calls s @ [e]\<rparr>"

definition opened :: "string \<Rightarrow> merging \<Rightarrow> merging" where
  "opened p s = s\<lparr>open_files := p # open_files s\<rparr>"

fun run_deferred :: "string list \<Rightarrow> merging \<Rightarrow> merging" where
  "run_deferred [] s = s"
| "run_deferred (h # hs) s =
     run_deferred hs (emit (Close h) (s\<lparr>open_files := remove1 h (open_files s)\<rparr>))"

section \<open>Operations\<close>

function bind_loop_io ::
  "Data \<Rightarrow> int \<Rightarrow> int \<Rightarrow> string list \<Rightarrow> merging \<Rightarrow> go_error option \<times> string list \<times> merging" where
  "bind_loop_io d procs i st s =
     (if i < procs then
        let f = partial_path d procs i;
            s1 = emit (Open f) s
        in case os_Open (fsys s1) f of
          Inl err \<Rightarrow>
            (Some (Wrap err (''failed to open '' @ f @ '' in download location'')), st, s1)
        | Inr subfp \<Rightarrow>
            let s2 = emit (NewProxyReader f) (opened f s1);
                s3 = emit (Copy (filename d) f) s2;
                s4 = emit (Add (node_bytes subfp))
                       (s3\<lparr>fsys := io_Copy (fsys s3) (filename d) subfp\<rparr>);
                s5 = emit (Remove f) s4
            in (case os_Remove (fsys s5) f of
                  Inl err \<Rightarrow>
                    (Some (Wrap err ''failed to remove a file in download location''), f # st, s5)
                | Inr fs2 \<Rightarrow> bind_loop_io d procs (i + 1) (f # st) (s5\<lparr>fsys := fs2\<rparr>))
      else (None, st, s))"
  by pat_completeness auto
termination
  by (relation "measure (\<lambda>(d, procs, i, st, s). nat (procs - i))") auto

declare bind_loop_io.simps [simp del]

definition BindwithFiles_io :: "Data \<Rightarrow> int \<Rightarrow> merging \<Rightarrow> go_error option \<times> merging" where
  "BindwithFiles_io d procs s =
     (let s1 = emit (Println (CHR 0x0A # ''binding with files...'')) s;
          s2 = emit (Create (filename d)) s1
      in case os_Create (fsys s2) (filename d) of
        Inl err \<Rightarrow> (Some (Wrap err ''failed to create a file in download location''), s2)
      | Inr fs0 \<Rightarrow>
          let s3 = opened (filename d) (s2\<lparr>fsys := fs0\<rparr>);
              s4 = emit Start (emit (New64 (int64 (filesize d))) s3)
          in case bind_loop_io d procs 0 [filename d] s4 of
            (Some err, st, s5) \<Rightarrow> (Some err, run_deferred st s5)
          | (None, st, s5) \<Rightarrow>
              let s6 = emit (RemoveAll (dirname d)) (emit Finish s5)
              in case os_RemoveAll (fsys s6) (dirname d) of
                (Some err, fs2) \<Rightarrow>
                  (Some (Wrap err ''failed to remove download location''),
                   run_deferred st (s6\<lparr>fsys := fs2\<rparr>))
              | (None, fs2) \<Rightarrow>
                  (None, run_deferred st (emit (Println ''Complete'') (s6\<lparr>fsys := fs2\<rparr>))))"

section \<open>What the bookkeeping leaves alone\<close>

lemma emit_simps [simp]:
  "fsys (emit e s) = fsys s" "open_files (emit e s) = open_files s"
  "calls (emit e s) = calls s @ [e]"
  by (simp_all add: emit_def)

lemma opened_simps [simp]:
  "fsys (opened p s) = fsys s" "open_files (opened p s) = p # open_files s"
  "calls (opened p s) = calls s"
  by (simp_all add: opened_def)

lemma run_deferred_simps [simp]:
  "fsys (run_deferred st s) = fsys s"
  "calls (run_deferred st s) = calls s @ map Close st"
  by (induction st arbitrary: s) simp_all

lemma run_deferred_closes: "open_files s = st @ base \<Longrightarrow> open_files (run_deferred st s) = base"
  by (induction st arbitrary: s) simp_all

section \<open>Refinement\<close>

lemma bind_loop_io_refines:
  "(case bind_loop_io d procs i st s of (err, st', s') \<Rightarrow> (err, fsys s')) =
     bind_loop d procs i (fsys s)"
proof (induction d procs i st s rule: bind_loop_io.induct)
  case (1 d procs i st s)
  show ?case
  proof (cases "i < procs")
    case False
    then show ?thesis by (simp add: bind_loop_io.simps bind_loop.simps)
  next
    case True
    let ?f = "partial_path d procs i"
    show ?thesis
    proof (cases "os_Open (fsys s) ?f")
      case (Inl err)
      with True show ?thesis
        by (simp add: bind_loop_io.simps [of d procs i] bind_loop.simps [of d procs i] Let_def)
    next
      case (Inr subfp)
      show ?thesis
      proof (cases "os_Remove (io_Copy (fsys s) (filename d) subfp) ?f")
        case (Inl err)
        with True Inr show ?thesis
          by (simp add: bind_loop_io.simps [of d procs i] bind_loop.simps [of d procs i] Let_def)
      next
        case fs2: (Inr fs2)
        from "1.IH" [OF True refl refl, of subfp] True Inr fs2 show ?thesis
          by (simp add: bind_loop_io.simps [of d procs i] bind_loop.simps [of d procs i] Let_def)
      qed
    qed
  qed
qed

lemma BindwithFiles_io_refines:
  "(case BindwithFiles_io d procs s of (err, s') \<Rightarrow> (err, fsys s')) =
     BindwithFiles d procs (fsys s)"
proof (cases "os_Create (fsys s) (filename d)")
  case (Inl err)
  then show ?thesis by (simp add: BindwithFiles_io_def BindwithFiles_def Let_def)
next
  case (Inr fs0)
  let ?s4 = "emit Start (emit (New64 (int64 (filesize d)))
      (opened (filename d) (emit (Create (filename d))
        (emit (Println (CHR 0x0A # ''binding with files...'')) s)\<lparr>fsys := fs0\<rparr>)))"
  obtain err st s5 where loop: "bind_loop_io d procs 0 [filename d] ?s4 = (err, st, s5)"
    by (cases "bind_loop_io d procs 0 [filename d] ?s4") auto
  with bind_loop_io_refines [of d procs 0 "[filename d]" ?s4]
  have "bind_loop d procs 0 fs0 = (err, fsys s5)" by simp
  with Inr loop show ?thesis
    by (simp add: BindwithFiles_io_def BindwithFiles_def Let_def
        split: option.splits prod.splits)
qed

section \<open>The calls when every part is in place\<close>

text \<open>
  The specification of the call sequence: \<open>iteration\<close> are the calls of one round of
  the loop for a part with the bytes \<open>c i\<close>, and \<open>merge_calls\<close> are the calls of a merge
  that succeeds.
\<close>

definition iteration :: "Data \<Rightarrow> int \<Rightarrow> (int \<Rightarrow> string) \<Rightarrow> int \<Rightarrow> effect list" where
  "iteration d procs c i =
     (let f = partial_path d procs i
      in [Open f, NewProxyReader f, Copy (filename d) f, Add (length (c i)), Remove f])"

definition merge_calls :: "Data \<Rightarrow> int \<Rightarrow> (int \<Rightarrow> string) \<Rightarrow> effect list" where
  "merge_calls d procs c =
     [Println (CHR 0x0A # ''binding with files...''), Create (filename d),
      New64 (int64 (filesize d)), Start] @
     concat (map (iteration d procs c) [0..procs - 1]) @
     [Finish, RemoveAll (dirname d), Println ''Complete''] @
     map Close (rev (filename d # map (partial_path d procs) [0..procs - 1]))"

lemma bind_loop_io_step:
  assumes "i < procs" and "part_ok d procs (fsys s) c i"
    and "lookup (fsys s) (filename d) = Some (File acc)"
  shows "bind_loop_io d procs i st s =
           bind_loop_io d procs (i + 1) (partial_path d procs i # st)
             \<lparr>fsys = part_merged d procs c i (fsys s),
              calls = calls s @ iteration d procs c i,
              open_files = partial_path d procs i # open_files s\<rparr>"
  using assms(1) part_calls [OF assms(2,3)]
  by (cases s) (subst bind_loop_io.simps, simp add: Let_def iteration_def emit_def opened_def)

lemma bind_loop_io_parts:
  assumes "i \<le> k" and "k \<le> procs"
    and "\<forall>j. i \<le> j \<and> j < k \<longrightarrow> part_ok d procs (fsys s) c j"
    and "lookup (fsys s) (filename d) = Some (File acc)"
  shows "\<exists>s'. bind_loop_io d procs i st s =
             bind_loop_io d procs k (rev (map (partial_path d procs) [i..k - 1]) @ st) s' \<and>
           calls s' = calls s @ concat (map (iteration d procs c) [i..k - 1]) \<and>
           open_files s' = rev (map (partial_path d procs) [i..k - 1]) @ open_files s"
  using assms
proof (induction n \<equiv> "nat (k - i)" arbitrary: i s acc st)
  case 0
  then have "i = k" by simp
  then show ?case by (intro exI [of _ s]) simp
next
  case (Suc n)
  then have lt: "i < k" "i < procs" by simp_all
  let ?s = "\<lparr>fsys = part_merged d procs c i (fsys s),
      calls = calls s @ iteration d procs c i,
      open_files = partial_path d procs i # open_files s\<rparr>"
  from Suc.prems have ok: "part_ok d procs (fsys s) c i" using lt by simp
  note step = bind_loop_io_step [OF lt(2) ok Suc.prems(4), of st]
  note facts = part_merged_facts [OF Suc.prems(4), of procs c i]
  have "\<forall>j. i + 1 \<le> j \<and> j < k \<longrightarrow> part_ok d procs (fsys ?s) c j"
    using Suc.prems(3) facts(1,2) by (auto simp: part_ok_def)
  moreover have "lookup (fsys ?s) (filename d) = Some (File (acc @ c i))"
    using facts(1) by simp
  moreover have "n = nat (k - (i + 1))" using Suc.hyps(2) by simp
  ultimately obtain s' where
    "bind_loop_io d procs (i + 1) (partial_path d procs i # st) ?s =
       bind_loop_io d procs k
         (rev (map (partial_path d procs) [i + 1..k - 1]) @ partial_path d procs i # st) s'"
    "calls s' = calls ?s @ concat (map (iteration d procs c) [i + 1..k - 1])"
    "open_files s' = rev (map (partial_path d procs) [i + 1..k - 1]) @ open_files ?s"
    using Suc.hyps(1) [of "i + 1" ?s "acc @ c i" "partial_path d procs i # st"] lt Suc.prems(2)
    by auto
  moreover have "[i..k - 1] = i # [i + 1..k - 1]" using lt by (simp add: upto_rec1)
  ultimately show ?case using step by auto
qed

lemma bind_loop_io_all:
  assumes "list_all (part_ok d procs (fsys s) c) [0..procs - 1]"
    and "lookup (fsys s) (filename d) = Some (File [])"
  shows "\<exists>s'. bind_loop_io d procs 0 st s =
             (None, rev (map (partial_path d procs) [0..procs - 1]) @ st, s') \<and>
           calls s' = calls s @ concat (map (iteration d procs c) [0..procs - 1])"
proof (cases "0 \<le> procs")
  case True
  from bind_loop_io_parts [of 0 procs procs d s c "[]" st] True assms obtain s' where
    "bind_loop_io d procs 0 st s =
       bind_loop_io d procs procs (rev (map (partial_path d procs) [0..procs - 1]) @ st) s'"
    "calls s' = calls s @ concat (map (iteration d procs c) [0..procs - 1])"
    by (auto simp: list_all_iff)
  then show ?thesis by (auto simp: bind_loop_io.simps [of d procs procs])
next
  case False
  then show ?thesis by (simp add: bind_loop_io.simps [of d procs 0])
qed

text \<open>
  On every path: what the loop adds to the deferred stack it adds to the open
  handles, and among its calls there is no message and no \<^verbatim>\<open>Finish\<close>.
\<close>

fun loop_call :: "effect \<Rightarrow> bool" where
  "loop_call (Println m) = False"
| "loop_call Finish = False"
| "loop_call (Close h) = False"
| "loop_call e = True"

lemma bind_loop_io_shape:
  "bind_loop_io d procs i st s = (err, st', s') \<Longrightarrow>
     \<exists>hs new. st' = hs @ st \<and> open_files s' = hs @ open_files s \<and>
       calls s' = calls s @ new \<and> list_all loop_call new"
proof (induction n \<equiv> "nat (procs - i)" arbitrary: i st s)
  case 0
  then show ?case by (simp add: bind_loop_io.simps [of d procs i])
next
  case (Suc n)
  then have lt: "i < procs" by simp
  let ?f = "partial_path d procs i"
  show ?case
  proof (cases "os_Open (fsys s) ?f")
    case (Inl e)
    with lt Suc.prems show ?thesis
      by (auto simp: bind_loop_io.simps [of d procs i] Let_def)
  next
    case (Inr subfp)
    let ?s5 = "emit (Remove ?f) (emit (Add (node_bytes subfp))
        (emit (Copy (filename d) ?f) (emit (NewProxyReader ?f) (opened ?f (emit (Open ?f) s)))
          \<lparr>fsys := io_Copy (fsys s) (filename d) subfp\<rparr>))"
    show ?thesis
    proof (cases "os_Remove (io_Copy (fsys s) (filename d) subfp) ?f")
      case (Inl e)
      with lt Inr Suc.prems show ?thesis
        by (auto simp: bind_loop_io.simps [of d procs i] Let_def)
    next
      case fs2: (Inr fs2)
      with lt Inr Suc.prems
      have "bind_loop_io d procs (i + 1) (?f # st) (?s5\<lparr>fsys := fs2\<rparr>) = (err, st', s')"
        by (simp add: bind_loop_io.simps [of d procs i] Let_def)
      moreover have "n = nat (procs - (i + 1))" using Suc.hyps(2) by simp
      ultimately obtain hs new where "st' = hs @ ?f # st"
        "open_files s' = hs @ open_files (?s5\<lparr>fsys := fs2\<rparr>)"
        "calls s' = calls (?s5\<lparr>fsys := fs2\<rparr>) @ new" "list_all loop_call new"
        using Suc.hyps(1) [of "i + 1" "?f # st" "?s5\<lparr>fsys := fs2\<rparr>"] by blast
      then show ?thesis by (intro exI [of _ "hs @ [?f]"]) simp
    qed
  qed
qed

lemma loop_call_no_message: "list_all loop_call new \<Longrightarrow> Println m \<notin> set new"
  by (auto simp: list_all_iff)

text \<open>The bytes by which the calls advance the bar.\<close>

fun bar_added :: "effect list \<Rightarrow> nat" where
  "bar_added [] = 0"
| "bar_added (Add n # es) = n + bar_added es"
| "bar_added (e # es) = bar_added es"

lemma bar_added_append [simp]: "bar_added (es @ es') = bar_added es + bar_added es'"
  by (induction es rule: bar_added.induct) simp_all

lemma bar_added_Close [simp]: "bar_added (map Close hs) = 0"
  by (induction hs) simp_all

lemma bar_added_iterations:
  "bar_added (concat (map (iteration d procs c) is)) = length (concat (map c is))"
  by (induction "is") (simp_all add: iteration_def Let_def)

lemma bar_added_merge_calls:
  "bar_added (merge_calls d procs c) = length (concat (map c [0..procs - 1]))"
  by (simp add: merge_calls_def bar_added_iterations)

lemma BindwithFiles_io_all_parts:
  assumes parts: "list_all (is_part d procs (fsys s)) [0..procs - 1]"
    and out: "filename d \<notin> set (denied (fsys s))" "lookup (fsys s) (filename d) \<noteq> Some Dir"
    and ws: "\<forall>q \<in> set (denied (fsys s)). \<not> doomed (dirname d) q"
    and sep: "\<not> doomed (dirname d) (filename d)"
  shows "fst (BindwithFiles_io d procs s) = None"
    and "calls (snd (BindwithFiles_io d procs s)) =
           calls s @ merge_calls d procs (part_bytes d procs (fsys s))"
proof -
  let ?c = "part_bytes d procs (fsys s)"
  let ?fs0 = "fsys s\<lparr>entries := AList.update (filename d) (File []) (entries (fsys s))\<rparr>"
  let ?s4 = "emit Start (emit (New64 (int64 (filesize d)))
      (opened (filename d) (emit (Create (filename d))
        (emit (Println (CHR 0x0A # ''binding with files...'')) s)\<lparr>fsys := ?fs0\<rparr>)))"
  note cr = created_parts(1) [OF parts out]
  from bind_loop_io_all [of d procs ?s4 ?c "[filename d]"] created_parts(2,3) [OF parts out]
  obtain s5 where
    loop: "bind_loop_io d procs 0 [filename d] ?s4 =
      (None, rev (map (partial_path d procs) [0..procs - 1]) @ [filename d], s5)"
    and c5: "calls s5 = calls ?s4 @ concat (map (iteration d procs ?c) [0..procs - 1])"
    by auto
  have ok: "fst (BindwithFiles_io d procs s) = None"
    using BindwithFiles_io_refines [of d procs s] BindwithFiles_all_parts(1) [OF assms]
    by (cases "BindwithFiles_io d procs s") (auto dest: sym)
  obtain e2 fs2 where ra: "os_RemoveAll (fsys s5) (dirname d) = (e2, fs2)"
    by (cases "os_RemoveAll (fsys s5) (dirname d)") auto
  with ok cr loop have "e2 = None"
    by (cases e2) (simp_all add: BindwithFiles_io_def Let_def)
  with cr loop ra c5 show "calls (snd (BindwithFiles_io d procs s)) = calls s @ merge_calls d procs ?c"
    by (simp add: BindwithFiles_io_def Let_def merge_calls_def)
  show "fst (BindwithFiles_io d procs s) = None" by (rule ok)
qed

section \<open>Properties\<close>

text \<open>
  C20. Handles and messages on every path: when \<^verbatim>\<open>BindwithFiles\<close> returns, with an error
  or without, every handle it opened has been closed by the deferred calls, so the
  open handles are those of before; the first call is the message
  \<^verbatim>\<open>binding with files...\<close>, and \<^verbatim>\<open>Complete\<close> is printed exactly when the result is \<^verbatim>\<open>nil\<close>.
\<close>

theorem BindwithFiles_io_returns:
  "open_files (snd (BindwithFiles_io d procs s)) = open_files s \<and>
   (\<exists>new. calls (snd (BindwithFiles_io d procs s)) =
            calls s @ Println (CHR 0x0A # ''binding with files...'') # new \<and>
          (Println ''Complete'' \<in> set new \<longleftrightarrow> fst (BindwithFiles_io d procs s) = None))"
proof (cases "os_Create (fsys s) (filename d)")
  case (Inl err)
  then show ?thesis by (simp add: BindwithFiles_io_def Let_def)
next
  case (Inr fs0)
  let ?s4 = "emit Start (emit (New64 (int64 (filesize d)))
      (opened (filename d) (emit (Create (filename d))
        (emit (Println (CHR 0x0A # ''binding with files...'')) s)\<lparr>fsys := fs0\<rparr>)))"
  obtain err st s5 where loop: "bind_loop_io d procs 0 [filename d] ?s4 = (err, st, s5)"
    by (cases "bind_loop_io d procs 0 [filename d] ?s4") auto
  from bind_loop_io_shape [OF this] obtain hs new where
    st: "st = hs @ [filename d]" and h5: "open_files s5 = st @ open_files s"
    and c5: "calls s5 = calls ?s4 @ new" and new: "list_all loop_call new"
    by auto
  note closed = run_deferred_closes [of _ st "open_files s"]
  note quiet = loop_call_no_message [OF new, of "''Complete''"]
  show ?thesis
  proof (cases err)
    case (Some e)
    with Inr loop h5 c5 quiet show ?thesis
      by (auto simp: BindwithFiles_io_def Let_def closed)
  next
    case None
    obtain e2 fs2 where ra: "os_RemoveAll (fsys s5) (dirname d) = (e2, fs2)"
      by (cases "os_RemoveAll (fsys s5) (dirname d)") auto
    with None Inr loop h5 c5 quiet show ?thesis
      by (cases e2) (auto simp: BindwithFiles_io_def Let_def closed)
  qed
qed

text \<open>
  C19. The calls of a merge that succeeds: when every partial file is in place and
  output and workspace may be written, \<^verbatim>\<open>BindwithFiles\<close> returns \<^verbatim>\<open>nil\<close> and has made
  exactly the calls of \<open>merge_calls\<close>: the message, \<^verbatim>\<open>os.Create\<close>, the start of the bar
  with the file size as total; for each worker in ascending order \<^verbatim>\<open>os.Open\<close>, the
  copy through the proxy reader, which advances the bar by the bytes of the part,
  and \<^verbatim>\<open>os.Remove\<close>; then \<^verbatim>\<open>bar.Finish\<close>, \<^verbatim>\<open>os.RemoveAll\<close> and the message \<^verbatim>\<open>Complete\<close>;
  and only then the deferred \<^verbatim>\<open>Close\<close> calls, last opened first. Every partial file
  is removed while its handle is open, and \<open>procs + 1\<close> handles are open at the end.
\<close>

theorem BindwithFiles_io_calls:
  assumes parts: "list_all (is_part d procs (fsys s)) [0..procs - 1]"
    and out: "filename d \<notin> set (denied (fsys s))" "lookup (fsys s) (filename d) \<noteq> Some Dir"
    and ws: "\<forall>q \<in> set (denied (fsys s)). \<not> doomed (dirname d) q"
    and sep: "\<not> doomed (dirname d) (filename d)"
  shows "fst (BindwithFiles_io d procs s) = None \<and>
         calls (snd (BindwithFiles_io d procs s)) =
           calls s @ merge_calls d procs (part_bytes d procs (fsys s))"
  using BindwithFiles_io_all_parts [OF assms] by simp

theorem BindwithFiles_io_calls_witness:
  "calls (snd (BindwithFiles_io \<lparr>filename = ''f'', filesize = 3, dirname = ''_f.2''\<rparr> 2
     \<lparr>fsys = \<lparr>entries = [(''_f.2'', Dir), (''_f.2/f.2.1'', File ''C''),
        (''_f.2/f.2.0'', File ''AB'')], denied = []\<rparr>, calls = [], open_files = []\<rparr>)) =
   [Println (CHR 0x0A # ''binding with files...''), Create ''f'', New64 3, Start,
    Open ''_f.2/f.2.0'', NewProxyReader ''_f.2/f.2.0'', Copy ''f'' ''_f.2/f.2.0'', Add 2,
    Remove ''_f.2/f.2.0'',
    Open ''_f.2/f.2.1'', NewProxyReader ''_f.2/f.2.1'', Copy ''f'' ''_f.2/f.2.1'', Add 1,
    Remove ''_f.2/f.2.1'',
    Finish, RemoveAll ''_f.2'', Println ''Complete'',
    Close ''_f.2/f.2.1'', Close ''_f.2/f.2.0'', Close ''f'']"
  using BindwithFiles_io_calls [of "\<lparr>filename = ''f'', filesize = 3, dirname = ''_f.2''\<rparr>" 2
     "\<lparr>fsys = \<lparr>entries = [(''_f.2'', Dir), (''_f.2/f.2.1'', File ''C''),
        (''_f.2/f.2.0'', File ''AB'')], denied = []\<rparr>, calls = [], open_files = []\<rparr>"]
  by (simp add: is_part_def part_bytes_def lookup_def partial_path_def itoa_eval doomed_def
      under_def merge_calls_def iteration_def Let_def int64_def upto.simps)

end
