(* ===== verification/Merge_Space.thy ===== *)
theory Merge_Space
  imports Merger
begin

text \<open>
  The disk space that \<^verbatim>\<open>BindwithFiles\<close> of \<^verbatim>\<open>src/util.go\<close> needs. One iteration of its
  loop copies a partial file to the end of the output and removes the partial file
  afterwards, so between the two calls the bytes of the part are on the disk twice.

  \<open>bind_states\<close> is the loop once more, returning the file systems it produces, in
  order: the one after each \<^verbatim>\<open>io.Copy\<close> and the one after each \<^verbatim>\<open>os.Remove\<close>. The last
  of them is the file system \<open>bind_loop\<close> returns. The lemmas give the number of bytes
  on the disk (\<open>usage\<close>) in each of these states when the parts are in place, and the
  largest of these numbers.
\<close>

section \<open>The states of the loop\<close>

function bind_states :: "Data \<Rightarrow> int \<Rightarrow> int \<Rightarrow> filesys \<Rightarrow> filesys list" where
  "bind_states d procs i fs =
     (if i < procs then
        let f = partial_path d procs i in
        case os_Open fs f of
          Inl err \<Rightarrow> []
        | Inr subfp \<Rightarrow>
            let fs1 = io_Copy fs (filename d) subfp in
            fs1 # (case os_Remove fs1 f of
                     Inl err \<Rightarrow> []
                   | Inr fs2 \<Rightarrow> fs2 # bind_states d procs (i + 1) fs2)
      else [])"
  by pat_completeness auto
termination
  by (relation "measure (\<lambda>(d, procs, i, fs). nat (procs - i))") auto

declare bind_states.simps [simp del]

lemma bind_states_done: "\<not> i < procs \<Longrightarrow> bind_states d procs i fs = []"
  by (simp add: bind_states.simps)

text \<open>The loop returns the last of its states.\<close>

lemma bind_states_last:
  "snd (bind_loop d procs i fs) = last (fs # bind_states d procs i fs)"
proof (induction d procs i fs rule: bind_loop.induct)
  case (1 d procs i fs)
  show ?case
  proof (cases "i < procs")
    case False
    then show ?thesis by (simp add: bind_loop_done bind_states_done)
  next
    case True
    show ?thesis
    proof (cases "os_Open fs (partial_path d procs i)")
      case (Inl err)
      with True show ?thesis
        by (simp add: bind_loop.simps [of d procs i fs] bind_states.simps [of d procs i fs])
    next
      case (Inr subfp)
      show ?thesis
      proof (cases "os_Remove (io_Copy fs (filename d) subfp) (partial_path d procs i)")
        case (Inl err)
        with True Inr show ?thesis
          by (simp add: bind_loop.simps [of d procs i fs] bind_states.simps [of d procs i fs])
      next
        case rm: (Inr fs2)
        from "1.IH" [OF True refl Inr refl rm] True Inr rm show ?thesis
          by (simp add: bind_loop.simps [of d procs i fs] bind_states.simps [of d procs i fs])
      qed
    qed
  qed
qed

section \<open>The bytes on the disk when the parts are in place\<close>

lemma usage_part_merged:
  assumes "wf_fs fs" and "lookup fs (filename d) = Some (File acc)"
    and "part_ok d procs fs c i"
  shows "usage (part_merged d procs c i fs) = usage fs"
proof -
  let ?fs1 = "io_Copy fs (filename d) (File (c i))"
  have "lookup ?fs1 (partial_path d procs i) = Some (File (c i))"
    using assms(2,3) by (simp add: part_ok_def)
  with usage_delete [OF wf_Copy [OF assms(1)], where dst1 = "filename d" and src1 = "File (c i)"
      and p = "partial_path d procs i"]
  have "usage (part_merged d procs c i fs) + length (c i) = usage ?fs1"
    by (simp add: part_merged_def Let_def)
  then show ?thesis using usage_Copy [OF assms(2), of "c i"] by simp
qed

text \<open>
  One iteration with its part in place produces two states: the output with the part
  appended and the part still there, then the same without the part.
\<close>

lemma bind_states_unfold:
  assumes "i < procs" and "part_ok d procs fs c i"
    and "lookup fs (filename d) = Some (File acc)"
  shows "bind_states d procs i fs =
           io_Copy fs (filename d) (File (c i)) # part_merged d procs c i fs #
           bind_states d procs (i + 1) (part_merged d procs c i fs)"
  using assms(1) part_calls [OF assms(2,3)] by (subst bind_states.simps) (simp add: Let_def)

lemma bind_states_usage:
  assumes "wf_fs fs" and "lookup fs (filename d) = Some (File acc)"
    and "\<forall>j. i \<le> j \<and> j < procs \<longrightarrow> part_ok d procs fs c j"
  shows "map usage (bind_states d procs i fs) =
           concat (map (\<lambda>j. [usage fs + length (c j), usage fs]) [i..procs - 1])"
  using assms
proof (induction n \<equiv> "nat (procs - i)" arbitrary: i fs acc)
  case 0
  then show ?case by (simp add: bind_states_done)
next
  case (Suc n)
  then have lt: "i < procs" by simp
  let ?fs2 = "part_merged d procs c i fs"
  from Suc.prems(3) lt have ok: "part_ok d procs fs c i" by simp
  note facts = part_merged_facts [OF Suc.prems(2), of procs c i]
  have "\<forall>j. i + 1 \<le> j \<and> j < procs \<longrightarrow> part_ok d procs ?fs2 c j"
    using Suc.prems(3) facts(1,2) by (auto simp: part_ok_def)
  moreover have "lookup ?fs2 (filename d) = Some (File (acc @ c i))" using facts(1) by simp
  moreover have "n = nat (procs - (i + 1))" using Suc.hyps(2) by simp
  ultimately have "map usage (bind_states d procs (i + 1) ?fs2) =
      concat (map (\<lambda>j. [usage ?fs2 + length (c j), usage ?fs2]) [i + 1..procs - 1])"
    using facts(3) [OF Suc.prems(1)] by (intro Suc.hyps(1))
  moreover have "[i..procs - 1] = i # [i + 1..procs - 1]" using lt by (simp add: upto_rec1)
  ultimately show ?case
    using usage_part_merged [OF Suc.prems(1,2) ok] usage_Copy [OF Suc.prems(2), of "c i"]
    by (simp add: bind_states_unfold [OF lt ok Suc.prems(2)])
qed

lemma bind_states_peak:
  assumes "wf_fs fs" and "lookup fs (filename d) = Some (File acc)"
    and "\<forall>j. 0 \<le> j \<and> j < procs \<longrightarrow> part_ok d procs fs c j"
  shows "Max (set (map usage (fs # bind_states d procs 0 fs))) =
           usage fs + Max (set (0 # map (\<lambda>j. length (c j)) [0..procs - 1]))"
  using Max_profile [of "usage fs" "\<lambda>j. length (c j)" "[0..procs - 1]"]
  by (simp add: bind_states_usage [OF assms] del: set_concat)

lemma bind_loop_parts:
  assumes "lookup fs (filename d) = Some (File acc)"
    and "\<forall>j. 0 \<le> j \<and> j < procs \<longrightarrow> part_ok d procs fs c j"
  shows "fst (bind_loop d procs 0 fs) = None"
proof (cases "0 \<le> procs")
  case True
  from bind_loop_prefix [OF True order_refl assms(2,1)] show ?thesis
    by (auto simp: bind_loop_done)
next
  case False
  then show ?thesis by (simp add: bind_loop_done)
qed

section \<open>Properties\<close>

text \<open>
  C21. The space the merge needs: let the file system be well formed, the output be a
  file and every partial file be in place. Then the loop of \<^verbatim>\<open>BindwithFiles\<close> returns
  \<^verbatim>\<open>nil\<close> in the last of the states it produces. After the \<^verbatim>\<open>io.Copy\<close> of iteration \<open>j\<close>
  the disk holds the bytes it held at the start and the bytes of part \<open>j\<close> in
  addition; after the \<^verbatim>\<open>os.Remove\<close> of the iteration it holds as many bytes as at the
  start. So the most the disk holds during the loop is what it held at the start
  plus the length of the longest part. The witness merges parts of 3 and 7 bytes: the
  disk holds 10, 13, 10, 17 and 10 bytes.
\<close>

theorem merge_peak:
  assumes "wf_fs fs" and "lookup fs (filename d) = Some (File acc)"
    and "list_all (part_ok d procs fs c) [0..procs - 1]"
  shows "bind_loop d procs 0 fs = (None, last (fs # bind_states d procs 0 fs)) \<and>
         map usage (bind_states d procs 0 fs) =
           concat (map (\<lambda>j. [usage fs + length (c j), usage fs]) [0..procs - 1]) \<and>
         Max (set (map usage (fs # bind_states d procs 0 fs))) =
           usage fs + Max (set (0 # map (\<lambda>j. length (c j)) [0..procs - 1]))"
proof -
  have parts: "\<forall>j. 0 \<le> j \<and> j < procs \<longrightarrow> part_ok d procs fs c j"
    using assms(3) by (simp add: list_all_iff)
  have "bind_loop d procs 0 fs = (None, last (fs # bind_states d procs 0 fs))"
    using bind_loop_parts [OF assms(2) parts] bind_states_last [of d procs 0 fs]
    by (simp add: prod_eq_iff)
  with bind_states_usage [OF assms(1,2) parts] bind_states_peak [OF assms(1,2) parts]
  show ?thesis by simp
qed

theorem merge_peak_witness:
  "map usage (bind_states \<lparr>filename = ''f'', filesize = 10, dirname = ''_f.2''\<rparr> 2 0
     \<lparr>entries = [(''_f.2'', Dir), (''_f.2/f.2.0'', File ''012''),
        (''_f.2/f.2.1'', File ''3456789''), (''f'', File [])], denied = []\<rparr>) =
     [13, 10, 17, 10] \<and>
   Max (set (map usage
     (\<lparr>entries = [(''_f.2'', Dir), (''_f.2/f.2.0'', File ''012''),
        (''_f.2/f.2.1'', File ''3456789''), (''f'', File [])], denied = []\<rparr> #
      bind_states \<lparr>filename = ''f'', filesize = 10, dirname = ''_f.2''\<rparr> 2 0
        \<lparr>entries = [(''_f.2'', Dir), (''_f.2/f.2.0'', File ''012''),
          (''_f.2/f.2.1'', File ''3456789''), (''f'', File [])], denied = []\<rparr>))) = 17"
  using merge_peak [of "\<lparr>entries = [(''_f.2'', Dir), (''_f.2/f.2.0'', File ''012''),
        (''_f.2/f.2.1'', File ''3456789''), (''f'', File [])], denied = []\<rparr>"
      "\<lparr>filename = ''f'', filesize = 10, dirname = ''_f.2''\<rparr>" "[]" 2
      "\<lambda>j. if j = 0 then ''012'' else ''3456789''"]
  by (simp add: wf_fs_def lookup_def part_ok_def partial_path_def itoa_eval usage_def
      upto.simps)

end
