(* ===== verification/Pipeline.thy ===== *)
theory Pipeline
  imports Utils Job Merger_Effects Merge_Space
begin

text \<open>
  The components in sequence, as the caller of the interface \<^verbatim>\<open>Utils\<close> uses them: the
  target is named and sized through the setters, the ranges of \<^verbatim>\<open>MakeRange\<close> are fetched
  by the workers into the partial files while \<^verbatim>\<open>ProgressBar\<close> watches, and \<^verbatim>\<open>BindwithFiles\<close>
  puts the partial files together. This theory holds the lemmas that carry a fact of
  one component to the component that needs it; the theorems on the whole sequence
  are in the root theory.

  \<^item> What the workers leave is what the merge asks for (\<open>complete_parts\<close>,
    \<open>merge_complete_parts\<close>), after the sequential download and after any schedule of
    the concurrent job (\<open>merge_after_job\<close>, \<open>workers_returned_then_merge\<close>).
  \<^item> The sequential download is one schedule of the job (\<open>download_is_schedule\<close>).
  \<^item> The bar of the merge is advanced by the file size (\<open>merge_bar_full\<close>).
  \<^item> The bytes on the disk: the download adds the file size (\<open>usage_download\<close>), the
    longest partial file is the last one (\<open>longest_part\<close>), and the largest state of the
    loop of the merge holds a chunk and the remainder more than the state it starts
    with (\<open>merge_needs\<close>), which is more than \<^verbatim>\<open>IsFree\<close> asks for
    (\<open>admitted_but_short\<close>).
  \<^item> What the setters of a session establish (\<open>session_target\<close>, \<open>created_ready\<close>).
\<close>

section \<open>From the ranges to the output file\<close>

text \<open>
  The components in sequence: the ranges of \<^verbatim>\<open>MakeRange\<close> are fetched by the workers
  into the partial files, and \<^verbatim>\<open>BindwithFiles\<close> puts the partial files together. The
  lemmas say what \<open>download\<close> leaves in the file system in the terms \<^verbatim>\<open>BindwithFiles\<close>
  asks for.
\<close>

lemma part_of_index:
  "i < unat procs \<Longrightarrow>
     part_of d (uint procs) (MakeRange d (of_nat i) split procs) = partial_path d (uint procs) (int i)"
  using u64_bound [of procs] by (simp add: part_of_def uint_of_nat_u64)

lemma download_complete:
  "r \<in> set (ranges_of d split procs) \<Longrightarrow>
     lookup (download d split procs content fs) (part_of d (uint procs) r) =
       Some (File (fetch_range content r))"
  unfolding download_def by (rule lookup_run_workers_part [OF distinct_workers])

lemma download_other:
  "\<not> doomed (dirname d) q \<Longrightarrow> lookup (download d split procs content fs) q = lookup fs q"
  unfolding download_def
  by (rule lookup_run_workers_other) (auto simp: part_of_def doomed_def)

lemma download_denied [simp]: "denied (download d split procs content fs) = denied fs"
  by (simp add: download_def)

text \<open>
  A file system in which every worker's partial file holds the whole answer to its
  range, whoever wrote it: the merge returns \<^verbatim>\<open>nil\<close> and leaves the remote file.
\<close>

lemma complete_part:
  assumes "\<forall>r \<in> set (ranges_of d split procs).
      lookup fs (part_of d (uint procs) r) = Some (File (fetch_range content r))"
    and "i < unat procs"
  shows "lookup fs (partial_path d (uint procs) (int i)) =
           Some (File (fetch_range content (MakeRange d (of_nat i) split procs)))"
proof -
  have "MakeRange d (of_nat i) split procs \<in> set (ranges_of d split procs)"
    using assms(2) by (auto simp: ranges_of_def)
  with assms(1) show ?thesis
    by (auto simp: part_of_index [OF assms(2), where d = d and split = split, symmetric])
qed

lemma complete_parts:
  assumes "\<forall>r \<in> set (ranges_of d split procs).
      lookup fs (part_of d (uint procs) r) = Some (File (fetch_range content r))"
    and "\<forall>q \<in> set (denied fs). \<not> doomed (dirname d) q"
  shows "list_all (is_part d (uint procs) fs) [0..uint procs - 1]"
proof -
  have "is_part d (uint procs) fs (int i)" if "i < unat procs" for i
    using assms(2) complete_part [OF assms(1) that] doomed_partial_path [of d "uint procs" "int i"]
    by (auto simp: is_part_def)
  then show ?thesis
    using upto_map_int [of "unat procs"] by (simp add: list_all_iff)
qed

lemma complete_bytes:
  assumes "\<forall>r \<in> set (ranges_of d split procs).
      lookup fs (part_of d (uint procs) r) = Some (File (fetch_range content r))"
  shows "map (part_bytes d (uint procs) fs) [0..uint procs - 1] =
           map (fetch_range content) (ranges_of d split procs)"
  using upto_map_int [of "unat procs"] complete_part [OF assms]
  by (simp add: ranges_of_def part_bytes_def)

lemma merge_complete_parts:
  assumes "procs \<noteq> 0" and "split = FileSize d div procs" and "split \<noteq> 0"
    and "length content = unat (FileSize d)"
    and parts: "\<forall>r \<in> set (ranges_of d split procs).
      lookup fs (part_of d (uint procs) r) = Some (File (fetch_range content r))"
    and out: "filename d \<notin> set (denied fs)" "lookup fs (filename d) \<noteq> Some Dir"
    and ws: "\<forall>q \<in> set (denied fs). \<not> doomed (dirname d) q"
    and sep: "\<not> doomed (dirname d) (filename d)"
  shows "\<exists>fs'. BindwithFiles d (uint procs) fs = (None, fs') \<and>
           lookup fs' =
             (\<lambda>q. if q = filename d then Some (File content)
                  else if doomed (dirname d) q then None else lookup fs q)"
proof -
  note merged = BindwithFiles_all_parts [OF complete_parts [OF parts ws] out ws sep]
  have whole: "concat (map (fetch_range content) (ranges_of d split procs)) = content"
    using assms(1-4) by (intro ranges_concat) simp_all
  have "lookup (snd (BindwithFiles d (uint procs) fs)) =
      (\<lambda>q. if q = filename d then Some (File content)
           else if doomed (dirname d) q then None else lookup fs q)"
    unfolding merged(2) complete_bytes [OF parts] whole ..
  moreover have "BindwithFiles d (uint procs) fs = (None, snd (BindwithFiles d (uint procs) fs))"
    using merged(1) by (simp add: prod_eq_iff)
  ultimately show ?thesis by blast
qed

text \<open>
  The sequential \<open>download\<close> is one schedule of the job: every worker writes its whole
  answer at once, in the order of the ranges.
\<close>

lemma download_is_schedule:
  assumes "plan_ok d content (ranges_of d split procs)" and "ready d fs"
  shows "job_run d (uint procs) content (ranges_of d split procs)
           (finish content (ranges_of d split procs)) (job_start (ranges_of d split procs) fs) =
         Some \<lparr>disk = download d split procs content fs, watcher = started, failed = [],
               walked = map (\<lambda>r. 0) (ranges_of d split procs)\<rparr>"
  using finish_is_run_workers [OF assms(1) job_inv_start [OF assms(2)], of "ranges_of d split procs"]
  by (simp add: job_start_def download_def)

text \<open>
  The bar of the merge: its total is the file size, and when the parts are the
  answers to the ranges the calls of the merge advance it by exactly the file size.
\<close>

lemma merge_bar_full:
  assumes "procs \<noteq> 0" and "split = FileSize d div procs" and "split \<noteq> 0"
    and "length content = unat (FileSize d)"
    and parts: "\<forall>r \<in> set (ranges_of d split procs).
      lookup (fsys s) (part_of d (uint procs) r) = Some (File (fetch_range content r))"
    and out: "filename d \<notin> set (denied (fsys s))" "lookup (fsys s) (filename d) \<noteq> Some Dir"
    and ws: "\<forall>q \<in> set (denied (fsys s)). \<not> doomed (dirname d) q"
    and sep: "\<not> doomed (dirname d) (filename d)"
  shows "bar_added (calls (snd (BindwithFiles_io d (uint procs) s))) =
           bar_added (calls s) + unat (FileSize d)"
proof -
  have "concat (map (fetch_range content) (ranges_of d split procs)) = content"
    using assms(1-4) by (intro ranges_concat) simp_all
  then have "length (concat (map (part_bytes d (uint procs) (fsys s)) [0..uint procs - 1])) =
      unat (FileSize d)"
    using assms(4) by (simp only: complete_bytes [OF parts])
  with BindwithFiles_io_all_parts(2) [OF complete_parts [OF parts ws] out ws sep]
  show ?thesis by (simp add: bar_added_merge_calls)
qed

section \<open>What the monitor sees of the workers\<close>

lemma below_download:
  assumes "below fs (dirname d) = []"
  shows "below (download d split procs content fs) (dirname d) =
           map (\<lambda>r. (part_of d (uint procs) r, File (fetch_range content r)))
             (ranges_of d split procs)"
proof -
  have fresh: "part_of d (uint procs) r \<notin> fst ` set (entries fs)" for r
    using assms by (force simp: below_def filter_empty_conv part_of_def)
  have "filter (\<lambda>(q, n). under (dirname d) q)
      (map (\<lambda>r. (part_of d (uint procs) r, File (fetch_range content r))) rs) =
      map (\<lambda>r. (part_of d (uint procs) r, File (fetch_range content r))) rs" for rs
    by (induction rs) (simp_all add: part_of_def)
  with assms show ?thesis
    using entries_run_workers [OF distinct_workers, of d split procs d "uint procs" fs content]
    by (simp add: download_def below_def fresh)
qed

lemma bytes_below_download:
  assumes "below fs (dirname d) = []"
  shows "bytes_below (download d split procs content fs) (dirname d) =
           length (concat (map (fetch_range content) (ranges_of d split procs)))"
  by (simp add: bytes_below_def below_download [OF assms] length_concat comp_def)

section \<open>The merge after a job\<close>

text \<open>
  The merge after a job: the job changes nothing outside the workspace, so when
  every partial file holds its answer at the end of a schedule, the merge produces
  the remote file and leaves every other path as it was before the job.
\<close>

lemma merge_after_job:
  assumes "procs \<noteq> 0" and "split = FileSize d div procs" and "split \<noteq> 0"
    and "length content = unat (FileSize d)"
    and "filename d \<notin> set (denied fs)" and "lookup fs (filename d) \<noteq> Some Dir"
    and "\<forall>q \<in> set (denied fs). \<not> doomed (dirname d) q"
    and "\<not> doomed (dirname d) (filename d)"
    and "job_run d (uint procs) content (ranges_of d split procs) es
           (job_start (ranges_of d split procs) fs) = Some s"
    and "\<forall>r \<in> set (ranges_of d split procs).
           lookup (disk s) (part_of d (uint procs) r) = Some (File (fetch_range content r))"
  shows "\<exists>fs'. BindwithFiles d (uint procs) (disk s) = (None, fs') \<and>
           lookup fs' =
             (\<lambda>q. if q = filename d then Some (File content)
                  else if doomed (dirname d) q then None else lookup fs q)"
proof -
  note frame = job_reachable_frame [OF run_reachable [OF assms(9)]]
  have same: "lookup (disk s) q = lookup fs q" if "\<not> doomed (dirname d) q" for q
    using that by (intro frame(2)) (simp add: doomed_def)
  have "\<exists>fs'. BindwithFiles d (uint procs) (disk s) = (None, fs') \<and>
      lookup fs' = (\<lambda>q. if q = filename d then Some (File content)
                        else if doomed (dirname d) q then None else lookup (disk s) q)"
    using assms(1-8,10)
    by (intro merge_complete_parts [where split = split]) (simp_all add: frame(1) same)
  then show ?thesis by (auto simp: same fun_eq_iff)
qed

text \<open>
  The orchestrator described in the specification waits for two things before it
  merges: every worker has returned without error, and the monitor has signalled
  completion. Each of the two is enough for the merge to be right. This is the first:
  when every worker has written its whole answer, the merge produces the remote
  file, whether the monitor has signalled or not. The second is \<open>job_then_merge\<close>.
\<close>

lemma workers_returned_then_merge:
  assumes "procs \<noteq> 0" and "split = FileSize d div procs" and "split \<noteq> 0"
    and "length content = unat (FileSize d)" and "unat (FileSize d) < 2 ^ 63"
    and "ready d fs"
    and "filename d \<notin> set (denied fs)" and "lookup fs (filename d) \<noteq> Some Dir"
    and "\<forall>q \<in> set (denied fs). \<not> doomed (dirname d) q"
    and "\<not> doomed (dirname d) (filename d)"
    and "job_run d (uint procs) content (ranges_of d split procs) es
           (job_start (ranges_of d split procs) fs) = Some s"
    and "\<forall>r \<in> set (ranges_of d split procs).
           written d (uint procs) (disk s) r = length (fetch_range content r)"
  shows "\<exists>fs'. BindwithFiles d (uint procs) (disk s) = (None, fs') \<and>
           lookup fs' =
             (\<lambda>q. if q = filename d then Some (File content)
                  else if doomed (dirname d) q then None else lookup fs q)"
proof -
  note plan = plan_ok_ranges [OF assms(1-5)]
  have "disk_inv d (uint procs) content (ranges_of d split procs) (disk s)"
    using job_run_inv [OF plan assms(6,11)] by (simp add: job_inv_def)
  moreover have "todo d (uint procs) content (ranges_of d split procs) (disk s) = 0"
    using assms(12) by (simp add: todo_def)
  ultimately have "\<forall>r \<in> set (ranges_of d split procs).
      lookup (disk s) (part_of d (uint procs) r) = Some (File (fetch_range content r))"
    using plan by (auto intro: todo_zero_parts simp: plan_ok_def)
  with assms(1-4,7-11) show ?thesis by (rule merge_after_job)
qed

section \<open>The space of the merge and the margin of \<^verbatim>\<open>IsFree\<close>\<close>

text \<open>
  \<^verbatim>\<open>IsFree\<close> asks for the file size plus one chunk. The merge holds, at its peak, the
  partial file it is copying twice, and the longest partial file is the last one: a
  chunk and the remainder of the division. So in the last iteration the disk holds
  the remainder more than \<^verbatim>\<open>IsFree\<close> has asked for.
\<close>

lemma longest_part:
  assumes "procs \<noteq> 0" and "split = FileSize d div procs" and "split \<noteq> 0"
    and "length content = unat (FileSize d)"
    and parts: "\<forall>r \<in> set (ranges_of d split procs).
      lookup fs (part_of d (uint procs) r) = Some (File (fetch_range content r))"
  shows "Max (set (0 # map (\<lambda>j. length (part_bytes d (uint procs) fs j)) [0..uint procs - 1])) =
           unat split + unat (FileSize d mod procs)"
proof -
  let ?len = "\<lambda>i. length (fetch_range content (MakeRange d (of_nat i) split procs))"
  let ?top = "unat split + unat (FileSize d mod procs)"
  define k where "k = unat procs - 1"
  have "0 < unat procs" using assms(1) by (simp add: unat_gt_0)
  then have k: "k < unat procs" "of_nat k = procs - 1"
    using index_last_iff [of k procs] by (simp_all add: k_def)
  have bytes: "map (\<lambda>j. length (part_bytes d (uint procs) fs j)) [0..uint procs - 1] =
      map ?len [0..<unat procs]"
    using arg_cong [OF complete_bytes [OF parts], of "map length"]
    by (simp add: ranges_of_def comp_def)
  have top: "?len k = ?top" using length_fetch_last [OF assms(1,2,4)] by (simp add: k(2))
  have "?len i \<le> ?top" if "i < unat procs" for i
  proof (cases "Suc i < unat procs")
    case True
    from length_fetch_inner [OF assms(2,3) True assms(4)] show ?thesis by simp
  next
    case False
    with that have "i = k" by (simp add: k_def)
    with top show ?thesis by simp
  qed
  then have "\<forall>y \<in> set (0 # map ?len [0..<unat procs]). y \<le> ?top" by auto
  moreover have "?len k \<in> set (0 # map ?len [0..<unat procs])" using k(1) by auto
  ultimately have "Max (set (0 # map ?len [0..<unat procs])) = ?top"
    unfolding top by (intro Max_eqI) auto
  then show ?thesis by (simp only: bytes)
qed

lemma merge_needs:
  assumes "procs \<noteq> 0" and "split = FileSize d div procs" and "split \<noteq> 0"
    and "length content = unat (FileSize d)"
    and parts: "\<forall>r \<in> set (ranges_of d split procs).
      lookup fs (part_of d (uint procs) r) = Some (File (fetch_range content r))"
    and ws: "\<forall>q \<in> set (denied fs). \<not> doomed (dirname d) q"
    and "wf_fs fs" and "lookup fs (filename d) = Some (File acc)"
  shows "Max (set (map usage (fs # bind_states d (uint procs) 0 fs))) =
           usage fs + unat split + unat (FileSize d mod procs)"
proof -
  have "\<forall>j. 0 \<le> j \<and> j < uint procs \<longrightarrow>
      part_ok d (uint procs) fs (part_bytes d (uint procs) fs) j"
    using complete_parts [OF parts ws] by (auto simp: list_all_iff intro: is_part_ok)
  from bind_states_peak [OF assms(7,8) this] longest_part [OF assms(1-5)]
  show ?thesis by simp
qed

lemma admitted_but_short:
  assumes "procs \<noteq> 0" and "split = FileSize d div procs" and "split \<noteq> 0"
    and "length content = unat (FileSize d)"
    and "\<forall>r \<in> set (ranges_of d split procs).
      lookup fs (part_of d (uint procs) r) = Some (File (fetch_range content r))"
    and "\<forall>q \<in> set (denied fs). \<not> doomed (dirname d) q"
    and "wf_fs fs" and "lookup fs (filename d) = Some (File acc)"
    and free: "unat (freeSpace pf d) = unat (filesize d) + unat split"
    and rest: "FileSize d mod procs \<noteq> 0"
  shows "IsFree pf d split = None"
    and "usage fs + (unat (freeSpace pf d) - unat (filesize d)) <
           Max (set (map usage (fs # bind_states d (uint procs) 0 fs)))"
proof -
  have "unat (filesize d) + unat split < 18446744073709551616"
    using u64_bound [of "freeSpace pf d"] free by simp
  then show "IsFree pf d split = None" using free by (simp add: IsFree_None_nat)
  have "0 < unat (FileSize d mod procs)" using rest by (simp add: unat_gt_0)
  then show "usage fs + (unat (freeSpace pf d) - unat (filesize d)) <
      Max (set (map usage (fs # bind_states d (uint procs) 0 fs)))"
    using free merge_needs [OF assms(1-8)] by simp
qed

text \<open>
  The download into an empty workspace adds the bytes of the remote file to the disk,
  and \<^verbatim>\<open>os.Create\<close> of an output that does not exist adds none.
\<close>

lemma usage_download:
  assumes "procs \<noteq> 0" and "split = FileSize d div procs" and "split \<noteq> 0"
    and "length content = unat (FileSize d)"
    and "\<forall>q. under (dirname d) q \<longrightarrow> lookup fs q = None"
  shows "usage (download d split procs content fs) = usage fs + unat (FileSize d)"
  using usage_run_workers [OF distinct_workers, where d1 = d and split1 = split
      and procs1 = procs and fs = fs and d = d and procs = "uint procs" and content = content]
    ranges_concat [OF assms(1-3), of content] assms(4,5)
  by (simp add: download_def)

lemma download_created:
  assumes "filename d \<notin> set (denied fs)" and "lookup fs (filename d) = None"
    and "\<not> doomed (dirname d) (filename d)" and "wf_fs fs"
  shows "\<exists>fs1. os_Create (download d split procs content fs) (filename d) = Inr fs1 \<and>
           lookup fs1 = (lookup (download d split procs content fs))(filename d \<mapsto> File []) \<and>
           denied fs1 = denied fs \<and> wf_fs fs1 \<and>
           usage fs1 = usage (download d split procs content fs)"
proof -
  let ?fs = "download d split procs content fs"
  let ?fs1 = "?fs\<lparr>entries := AList.update (filename d) (File []) (entries ?fs)\<rparr>"
  have none: "lookup ?fs (filename d) = None" using assms(2,3) by (simp add: download_other)
  then have cr: "os_Create ?fs (filename d) = Inr ?fs1" using assms(1) by (simp add: Create_ok)
  have "wf_fs ?fs" using assms(4) by (simp add: download_def wf_run_workers)
  with cr have "wf_fs ?fs1" by (rule wf_Create)
  moreover have "usage ?fs1 = usage ?fs"
    using usage_update [where fs = ?fs and p = "filename d" and n = "File []"] none by simp
  ultimately show ?thesis using cr by simp
qed

section \<open>The caller's session\<close>

text \<open>
  Before the download the caller names the target with \<^verbatim>\<open>URLFileName\<close>, records the
  size with \<^verbatim>\<open>SetFileSize\<close> and names the workspace with \<^verbatim>\<open>SetDirName\<close>, giving it the
  file name just chosen. These calls leave the file system alone; the name chosen is
  free in it, and the output file is outside the workspace.
\<close>

lemma session_target:
  assumes "run w [Call_URLFileName url, Call_SetFileSize n] = Returns (rs0, w0)"
    and "run w0 [Call_SetDirName path (filename (target w0)) procs] = Returns (rs1, w1)"
  shows "files w1 = files w" and "FileSize (target w1) = n"
    and "lookup (files w) (filename (target w1)) = None"
    and "\<not> doomed (dirname (target w1)) (filename (target w1))"
proof -
  from assms(1) obtain d1 where "URLFileName (files w) url (target w) = Returns d1"
    and w0: "w0 = w\<lparr>target := SetFileSize n d1\<rparr>"
    by (auto split: outcome.splits)
  then have free: "lookup (files w) (filename d1) = None"
    by (auto simp: URLFileName_def Let_def split: outcome.splits)
  from assms(2) have w1: "w1 = w0\<lparr>target := SetDirName path (filename (target w0)) procs (target w0)\<rparr>"
    by simp
  show "files w1 = files w" and "FileSize (target w1) = n"
    by (simp_all add: w1 w0 SetDirName_def pget_defs)
  show "lookup (files w) (filename (target w1)) = None"
    using free by (simp add: w1 w0 SetDirName_def pget_defs)
  show "\<not> doomed (dirname (target w1)) (filename (target w1))"
    using SetDirName_apart [of path "target w0" procs] by (simp add: w1 doomed_def)
qed

text \<open>
  The caller creates the workspace directory. When nothing was at or below its name
  before, the workspace is ready for the job.
\<close>

lemma created_ready:
  assumes "\<forall>q. doomed (dirname d) q \<longrightarrow> lookup fs q = None"
    and "lookup fs1 = (lookup fs)(dirname d \<mapsto> Dir)" and "dirname d \<notin> set (denied fs1)"
  shows "ready d fs1"
proof -
  have "lookup fs1 q = None" if "under (dirname d) q" for q
    using that assms(1,2) by (auto simp: doomed_def)
  then have "below fs1 (dirname d) = []" by (rule below_empty)
  with assms(2,3) show ?thesis by (simp add: ready_def)
qed

end
