(* ===== verification/Merger_Errors.thy ===== *)
theory Merger_Errors
  imports Merger
begin

text \<open>
  The error returns of \<^verbatim>\<open>BindwithFiles\<close> of \<^verbatim>\<open>src/util.go\<close>. The function has four
  \<^verbatim>\<open>return errors.Wrap(...)\<close> statements: after \<^verbatim>\<open>os.Create\<close> of the output, after
  \<^verbatim>\<open>os.Open\<close> of a partial file, after \<^verbatim>\<open>os.Remove\<close> of a partial file and after
  \<^verbatim>\<open>os.RemoveAll\<close> of the workspace. The lemmas say for each of them when it is taken
  and what it leaves on the disk, and that a non-nil result of the function is one of
  the four, with the failed call failing again in the state the function leaves.
\<close>

section \<open>The output cannot be created\<close>

lemma BindwithFiles_create_fails:
  assumes "os_Create fs (filename d) = Inl err"
  shows "BindwithFiles d procs fs =
           (Some (Wrap err ''failed to create a file in download location''), fs)"
  using assms by (simp add: BindwithFiles_def)

section \<open>The loop\<close>

text \<open>
  An error of the loop comes from the \<^verbatim>\<open>os.Open\<close> or the \<^verbatim>\<open>os.Remove\<close> of one partial
  file, and the loop returns in the state in which that call failed.
\<close>

lemma bind_loop_errors:
  assumes "bind_loop d procs i fs = (Some e, fs')"
  shows "\<exists>j err. i \<le> j \<and> j < procs \<and>
           (os_Open fs' (partial_path d procs j) = Inl err \<and>
              e = Wrap err (''failed to open '' @ partial_path d procs j @ '' in download location'') \<or>
            os_Remove fs' (partial_path d procs j) = Inl err \<and>
              e = Wrap err ''failed to remove a file in download location'')"
  using assms
proof (induction d procs i fs rule: bind_loop.induct)
  case (1 d procs i fs)
  from "1.prems" have True: "i < procs" by (auto simp: bind_loop.simps [of d procs i fs] split: if_splits)
  show ?case
  proof (cases "os_Open fs (partial_path d procs i)")
    case (Inl err)
    with True "1.prems" show ?thesis by (auto simp: bind_loop.simps [of d procs i fs])
  next
    case (Inr subfp)
    let ?fs1 = "io_Copy fs (filename d) subfp"
    show ?thesis
    proof (cases "os_Remove ?fs1 (partial_path d procs i)")
      case (Inl err)
      with True Inr "1.prems" show ?thesis by (auto simp: bind_loop.simps [of d procs i fs])
    next
      case rm: (Inr fs2)
      with True Inr "1.prems" have "bind_loop d procs (i + 1) fs2 = (Some e, fs')"
        by (simp add: bind_loop.simps [of d procs i fs])
      from "1.IH" [OF True refl Inr refl rm this] obtain j err where "i + 1 \<le> j" and "j < procs"
        and "os_Open fs' (partial_path d procs j) = Inl err \<and>
              e = Wrap err (''failed to open '' @ partial_path d procs j @ '' in download location'') \<or>
            os_Remove fs' (partial_path d procs j) = Inl err \<and>
              e = Wrap err ''failed to remove a file in download location''"
        by blast
      then show ?thesis by (intro exI [of _ j] exI [of _ err]) simp
    qed
  qed
qed

lemma bind_loop_remove_fails:
  assumes "i < procs" and "os_Open fs (partial_path d procs i) = Inr src"
    and "os_Remove (io_Copy fs (filename d) src) (partial_path d procs i) = Inl err"
  shows "bind_loop d procs i fs =
           (Some (Wrap err ''failed to remove a file in download location''),
            io_Copy fs (filename d) src)"
  using assms by (simp add: bind_loop.simps [of d procs i fs])

section \<open>The workspace cannot be removed\<close>

text \<open>
  C11. Failed cleanup: let every partial file be in place, the output path be writable
  and outside the workspace, and some entry at or below the workspace be protected
  from removal. Then the merge itself is complete when \<^verbatim>\<open>os.RemoveAll\<close> is called, and
  \<^verbatim>\<open>BindwithFiles\<close> returns the error of \<^verbatim>\<open>os.RemoveAll\<close>, wrapped, although the output
  holds all parts in worker order and no partial file is left; the entry the error
  names is protected, is at or below the workspace and is still there. In the witness
  the workspace directory itself is protected.
\<close>

theorem BindwithFiles_cleanup_fails:
  assumes parts: "list_all (is_part d procs fs) [0..procs - 1]"
    and out: "filename d \<notin> set (denied fs)" "lookup fs (filename d) \<noteq> Some Dir"
    and sep: "\<not> doomed (dirname d) (filename d)"
    and stuck: "q \<in> set (denied fs)" "doomed (dirname d) q" "lookup fs q \<noteq> None"
  shows "\<exists>b fs'. BindwithFiles d procs fs =
             (Some (Wrap (eacces ''unlinkat'' b) ''failed to remove download location''), fs') \<and>
           b \<in> set (denied fs) \<and> doomed (dirname d) b \<and> lookup fs' b \<noteq> None \<and>
           lookup fs' (filename d) =
             Some (File (concat (map (part_bytes d procs fs) [0..procs - 1]))) \<and>
           (\<forall>j. 0 \<le> j \<and> j < procs \<longrightarrow> lookup fs' (partial_path d procs j) = None)"
proof -
  let ?c = "part_bytes d procs fs"
  let ?fs0 = "fs\<lparr>entries := AList.update (filename d) (File []) (entries fs)\<rparr>"
  note cr = created_parts(1) [OF parts out]
  from created_parts(2,3) [OF parts out] obtain fs1 where
    loop: "bind_loop d procs 0 ?fs0 = (None, fs1)"
    and l1: "lookup fs1 = after_parts d procs ?c [] 0 procs (lookup ?fs0)"
    and d1: "denied fs1 = denied ?fs0"
    using bind_loop_all [where d = d and procs = procs and fs = ?fs0 and c = ?c] by blast
  have "q \<notin> set (map (partial_path d procs) [0..procs - 1])"
    using parts stuck(1) by (auto simp: list_all_iff is_part_def)
  moreover have "q \<noteq> filename d" using stuck(2) sep by auto
  ultimately have "lookup fs1 q \<noteq> None"
    using stuck(3) by (simp add: l1 after_parts_def)
  with stuck d1 have "q \<in> set (blocked fs1 (dirname d))" by (simp add: blocked_set)
  then obtain e fs2 where ra: "os_RemoveAll fs1 (dirname d) = (Some e, fs2)"
    by (cases "blocked fs1 (dirname d)") (auto simp: os_RemoveAll_def)
  from RemoveAll_fails [OF this] obtain b where b: "e = eacces ''unlinkat'' b"
    "b \<in> set (denied fs1)" "doomed (dirname d) b" "lookup fs2 b \<noteq> None"
    by blast
  have fs2: "lookup fs2 p = (if survives fs1 (dirname d) p then lookup fs1 p else None)" for p
    using lookup_RemoveAll [of fs1 "dirname d" p] by (simp add: ra)
  have "lookup fs2 (filename d) = Some (File (concat (map ?c [0..procs - 1])))"
    using sep by (simp add: fs2 survives_def l1 after_parts_def)
  moreover have "lookup fs2 (partial_path d procs j) = None" if "0 \<le> j" "j < procs" for j
    using that by (simp add: fs2 l1 after_parts_def)
  moreover have "BindwithFiles d procs fs =
      (Some (Wrap e ''failed to remove download location''), fs2)"
    by (simp add: BindwithFiles_def cr loop ra)
  ultimately show ?thesis using b d1 by auto
qed

theorem BindwithFiles_cleanup_fails_witness:
  "\<exists>b fs'. BindwithFiles \<lparr>filename = ''f'', filesize = 2, dirname = ''_f.2''\<rparr> 2
       \<lparr>entries = [(''_f.2'', Dir), (''_f.2/f.2.1'', File ''B''), (''_f.2/f.2.0'', File ''A'')],
         denied = [''_f.2'']\<rparr> =
       (Some (Wrap (eacces ''unlinkat'' b) ''failed to remove download location''), fs') \<and>
     b = ''_f.2'' \<and> lookup fs' b \<noteq> None \<and> lookup fs' ''f'' = Some (File ''AB'') \<and>
     lookup fs' ''_f.2/f.2.0'' = None \<and> lookup fs' ''_f.2/f.2.1'' = None"
proof -
  let ?d = "\<lparr>filename = ''f'', filesize = 2, dirname = ''_f.2''\<rparr>"
  let ?fs = "\<lparr>entries = [(''_f.2'', Dir), (''_f.2/f.2.1'', File ''B''),
    (''_f.2/f.2.0'', File ''A'')], denied = [''_f.2'']\<rparr>"
  have "\<exists>b fs'. BindwithFiles ?d 2 ?fs =
      (Some (Wrap (eacces ''unlinkat'' b) ''failed to remove download location''), fs') \<and>
    b \<in> set (denied ?fs) \<and> doomed (dirname ?d) b \<and> lookup fs' b \<noteq> None \<and>
    lookup fs' (filename ?d) = Some (File (concat (map (part_bytes ?d 2 ?fs) [0..2 - 1]))) \<and>
    (\<forall>j. 0 \<le> j \<and> j < 2 \<longrightarrow> lookup fs' (partial_path ?d 2 j) = None)"
    by (rule BindwithFiles_cleanup_fails [where q = "''_f.2''"])
      (simp_all add: is_part_def lookup_def partial_path_def itoa_eval doomed_def under_def
        upto.simps)
  then obtain b fs' where "BindwithFiles ?d 2 ?fs =
      (Some (Wrap (eacces ''unlinkat'' b) ''failed to remove download location''), fs')"
    and "b = ''_f.2''" and "lookup fs' b \<noteq> None"
    and "lookup fs' ''f'' = Some (File (concat (map (part_bytes ?d 2 ?fs) [0..1])))"
    and "\<forall>j. 0 \<le> j \<and> j < 2 \<longrightarrow> lookup fs' (partial_path ?d 2 j) = None"
    by auto
  moreover from this(5) have "lookup fs' (partial_path ?d 2 0) = None"
    and "lookup fs' (partial_path ?d 2 1) = None" by simp_all
  moreover have "concat (map (part_bytes ?d 2 ?fs) [0..1]) = ''AB''"
    by (simp add: part_bytes_def lookup_def partial_path_def itoa_eval upto.simps)
  ultimately show ?thesis by (simp add: partial_path_def itoa_eval)
qed

section \<open>Every error of the merge\<close>

text \<open>
  C10. Errors of the merge: a non-nil result of \<^verbatim>\<open>BindwithFiles\<close> is one of its four wrapped
  errors, and the state it leaves explains it. Either \<^verbatim>\<open>os.Create\<close> of the output failed
  and nothing was changed; or \<^verbatim>\<open>os.Open\<close> of the partial file of a worker \<open>j\<close> failed, or
  \<^verbatim>\<open>os.Remove\<close> of it failed, and the same call fails again with the same error in the
  state left behind; or \<^verbatim>\<open>os.RemoveAll\<close> met an entry at or below the workspace that may
  not be removed, which is named in the error and is still there. In the witness the
  workspace holds a protected file beside the two parts.
\<close>

theorem BindwithFiles_errors:
  assumes "BindwithFiles d procs fs = (Some e, fs')"
  shows "(\<exists>err. os_Create fs (filename d) = Inl err \<and> fs' = fs \<and>
            e = Wrap err ''failed to create a file in download location'') \<or>
         (\<exists>j err. 0 \<le> j \<and> j < procs \<and> os_Open fs' (partial_path d procs j) = Inl err \<and>
            e = Wrap err (''failed to open '' @ partial_path d procs j @ '' in download location'')) \<or>
         (\<exists>j err. 0 \<le> j \<and> j < procs \<and> os_Remove fs' (partial_path d procs j) = Inl err \<and>
            e = Wrap err ''failed to remove a file in download location'') \<or>
         (\<exists>b. b \<in> set (denied fs) \<and> doomed (dirname d) b \<and> lookup fs' b \<noteq> None \<and>
            e = Wrap (eacces ''unlinkat'' b) ''failed to remove download location'')"
proof (cases "os_Create fs (filename d)")
  case (Inl err)
  with assms show ?thesis by (simp add: BindwithFiles_def)
next
  case (Inr fs0)
  obtain r fs1 where loop: "bind_loop d procs 0 fs0 = (r, fs1)" by (cases "bind_loop d procs 0 fs0")
  show ?thesis
  proof (cases r)
    case (Some e')
    with assms Inr loop have "bind_loop d procs 0 fs0 = (Some e, fs')"
      by (simp add: BindwithFiles_def)
    from bind_loop_errors [OF this] show ?thesis by blast
  next
    case None
    with assms Inr loop obtain err where ra: "os_RemoveAll fs1 (dirname d) = (Some err, fs')"
      and e: "e = Wrap err ''failed to remove download location''"
      by (auto simp: BindwithFiles_def split: prod.splits option.splits)
    have "denied fs1 = denied fs"
      using denied_bind_loop [of d procs 0 fs0] denied_Create [OF Inr] loop by simp
    with RemoveAll_fails [OF ra] e show ?thesis by auto
  qed
qed

theorem BindwithFiles_errors_witness:
  "\<exists>b. b \<in> set [''_f.2/log''] \<and> doomed ''_f.2'' b \<and>
     lookup \<lparr>entries = [(''_f.2'', Dir), (''_f.2/log'', File ''x''), (''f'', File ''AB'')],
       denied = [''_f.2/log'']\<rparr> b \<noteq> None \<and>
     eacces ''unlinkat'' ''_f.2/log'' = eacces ''unlinkat'' b"
proof -
  have "BindwithFiles \<lparr>filename = ''f'', filesize = 2, dirname = ''_f.2''\<rparr> 2
      \<lparr>entries = [(''_f.2'', Dir), (''_f.2/f.2.0'', File ''A''), (''_f.2/log'', File ''x''),
         (''_f.2/f.2.1'', File ''B'')], denied = [''_f.2/log'']\<rparr> =
    (Some (Wrap (eacces ''unlinkat'' ''_f.2/log'') ''failed to remove download location''),
     \<lparr>entries = [(''_f.2'', Dir), (''_f.2/log'', File ''x''), (''f'', File ''AB'')],
       denied = [''_f.2/log'']\<rparr>)"
    by (simp add: BindwithFiles_def bind_loop.simps partial_path_def itoa_eval os_defs under_def
        AList.delete_eq)
  from BindwithFiles_errors [OF this] show ?thesis by (simp add: os_Create_def)
qed

text \<open>The root of every error of the merge is the error of a system call.\<close>

lemma BindwithFiles_cause:
  assumes "BindwithFiles d procs fs = (Some e, fs')"
  shows "\<exists>op p why. cause e = PathError op p why"
proof (cases "os_Create fs (filename d)")
  case (Inl err)
  with assms os_errors(1) [OF Inl] show ?thesis by (auto simp: BindwithFiles_def)
next
  case (Inr fs0)
  obtain r fs1 where loop: "bind_loop d procs 0 fs0 = (r, fs1)" by (cases "bind_loop d procs 0 fs0")
  show ?thesis
  proof (cases r)
    case (Some e')
    with assms Inr loop have "bind_loop d procs 0 fs0 = (Some e, fs')"
      by (simp add: BindwithFiles_def)
    from bind_loop_errors [OF this] show ?thesis by (auto dest!: os_errors)
  next
    case None
    with assms Inr loop obtain err where "os_RemoveAll fs1 (dirname d) = (Some err, fs')"
      and "e = Wrap err ''failed to remove download location''"
      by (auto simp: BindwithFiles_def split: prod.splits option.splits)
    with RemoveAll_fails [of fs1 "dirname d" err fs'] show ?thesis by (auto simp: eacces_def)
  qed
qed

end
