(* ===== verification/Spec2Isabelle.thy ===== *)
theory Spec2Isabelle
  imports Pipeline Merger_Errors
begin

text \<open>
  \<^bold>\<open>A verification development for pget's download core\<close> (\<^verbatim>\<open>src/util.go\<close>, package
  \<^verbatim>\<open>pget\<close>).

  The program fetches one remote file with \<open>procs\<close> concurrent workers. The name of the
  output file is taken from the URL or from the output argument; the file is cut into
  byte ranges; the free disk space is checked; each worker writes its range into a
  partial file of a workspace directory while a monitor polls the size of that
  directory; at the end the partial files are put together in worker order and the
  workspace is removed. \<^verbatim>\<open>src/util.go\<close> holds the struct \<^verbatim>\<open>Data\<close> and the methods of the
  interface \<^verbatim>\<open>Utils\<close> that do all of this except the transport. Every function of the
  file is modelled; the code of the workers and of the command line is in other files
  of the package and is modelled from the specification only as far as the theorems
  on \<^verbatim>\<open>src/util.go\<close> need it: the workers as the steps of a concurrent job in which
  the monitor of \<^verbatim>\<open>src/util.go\<close> takes part.

  \<^bold>\<open>Conventions.\<close>
  \<^item> A method with receiver \<^verbatim>\<open>Data\<close> takes the record \<open>d\<close>; a method with a pointer
    receiver that writes a field returns the updated record.
  \<^item> What a function reads from its surroundings is an argument: the \<open>platform\<close>
    (\<^verbatim>\<open>runtime.GOOS\<close>, free disk space, home directory), the file system \<open>filesys\<close>, the
    observations of the monitor. What it changes there is returned.
  \<^item> \<^verbatim>\<open>uint64\<close> and \<^verbatim>\<open>int64\<close> are \<open>64 word\<close>, so sums and products wrap as in Go; Go's
    \<^verbatim>\<open>int\<close> (worker count, loop counters) is \<open>int\<close>, since these values stay far below
    the range of the machine type.
  \<^item> Go's \<^verbatim>\<open>error\<close> is \<open>go_error option\<close>, a value with an error is \<open>go_error + 'a\<close>, and a
    function that can die with a run-time panic returns an \<open>outcome\<close>.

  \<^bold>\<open>Theories and the code they model.\<close>
  \<^item> \<open>Pget_Prelude\<close>: the machine integers with their signed reading, \<open>go_error\<close>,
    \<open>outcome\<close>, the \<open>platform\<close> record, the fact collections \<open>pget_defs\<close> and \<open>nowrap\<close>.
  \<^item> \<open>Data\<close>: the struct \<^verbatim>\<open>Data\<close> (record \<open>Data\<close>), \<^verbatim>\<open>isDos\<close>, the getters \<^verbatim>\<open>FileName\<close>,
    \<^verbatim>\<open>FileSize\<close>, \<^verbatim>\<open>DirName\<close> and the setters \<^verbatim>\<open>SetFileSize\<close>, \<^verbatim>\<open>SetFileName\<close>, with the
    frame lemmas of the setters.
  \<^item> \<open>Go_Strings\<close>: \<^verbatim>\<open>strings.Split\<close>, \<^verbatim>\<open>strings.Join\<close> and the verb \<^verbatim>\<open>%d\<close> as the source
    calls them, with their round trips and the injectivity of decimal printing; the
    relation \<open>under\<close> of a path below a directory.
  \<^item> \<open>Go_OS\<close>: the file system as an association list from paths to files and
    directories plus a list of denied paths; \<^verbatim>\<open>os.Stat\<close>, \<^verbatim>\<open>os.Create\<close>, \<^verbatim>\<open>os.Open\<close>,
    \<^verbatim>\<open>io.Copy\<close>, \<^verbatim>\<open>os.Remove\<close>, \<^verbatim>\<open>os.RemoveAll\<close>. Each operation refines an update of
    the map \<open>lookup fs\<close> and keeps the keys distinct (\<open>wf_fs\<close>). \<open>usage\<close> counts the
    bytes the files hold.
  \<^item> \<open>Range_Calculator\<close>: \<^verbatim>\<open>MakeRange\<close> and the list \<open>ranges_of\<close> of all workers'
    ranges. The abstract specification is the predicate \<open>tiles\<close>; the lemmas show that
    the ranges tile \<open>0 .. FileSize\<close> when the chunk size is \<open>FileSize div procs > 0\<close>,
    and what wraps when it is \<open>0\<close>.
  \<^item> \<open>Space_Guard\<close>: \<^verbatim>\<open>freeSpace\<close> and \<^verbatim>\<open>IsFree\<close>; the verdict with the wrapping sum, and
    its intended meaning where the sum does not wrap.
  \<^item> \<open>Workspace\<close>: \<^verbatim>\<open>SetDirName\<close> and the name of a partial file (\<open>partial_path\<close>, the
    \<^verbatim>\<open>fmt.Sprintf\<close> of \<^verbatim>\<open>BindwithFiles\<close>); the names are apart from each other and from
    the output.
  \<^item> \<open>Split_Path\<close>: \<^verbatim>\<open>SplitFilePath\<close> with both platform branches, the replacement of
    \<^verbatim>\<open>~\<close>, the error of the home directory lookup and the index panic. Specification:
    \<open>split_last\<close> after \<open>chomp\<close>.
  \<^item> \<open>URL_File_Name\<close>: \<^verbatim>\<open>URLFileName\<close>; its two loops are \<open>url_scan\<close> and \<open>uniq_loop\<close>.
    Specification: \<open>last_nonempty\<close> and \<open>first_free\<close>.
  \<^item> \<open>Progress_Monitor\<close>: \<^verbatim>\<open>subDirsize\<close> (callback \<open>walk_fn\<close> under \<open>filepath_Walk\<close>) and
    \<^verbatim>\<open>ProgressBar\<close> (one iteration \<open>poll\<close>, the loop \<open>poll_loop\<close>, the same iteration as
    the step relation \<open>monitor_step\<close>). The state \<open>monitor\<close> records the calls
    \<^verbatim>\<open>bar.Set64\<close> and \<^verbatim>\<open>bar.Finish\<close> and the sends on \<^verbatim>\<open>ch.Err\<close> and \<^verbatim>\<open>ch.Done\<close>.
  \<^item> \<open>Workspace_View\<close>: what \<^verbatim>\<open>filepath.Walk\<close> finds in a file system of the model
    (\<open>walk_of\<close>), so that the monitor can be run on the states the workers leave.
  \<^item> \<open>Merger\<close>: \<^verbatim>\<open>BindwithFiles\<close> with its loop \<open>bind_loop\<close> and all four error returns, as
    a function on the file system. Specification of the loop: the map \<open>after_parts\<close>.
  \<^item> \<open>Merger_Effects\<close>: \<^verbatim>\<open>BindwithFiles\<close> once more (\<open>BindwithFiles_io\<close>, loop
    \<open>bind_loop_io\<close>) on a state \<open>merging\<close> that also holds the calls made, in order
    (datatype \<open>effect\<close>: the messages, the calls on the bar, the calls on the file
    system), and the open file handles; the \<^verbatim>\<open>defer\<close>red \<^verbatim>\<open>Close\<close> calls run at every
    return (\<open>run_deferred\<close>). It refines the function of \<open>Merger\<close>. Specification of
    the calls of a successful merge: \<open>merge_calls\<close>.
  \<^item> \<open>Merger_Errors\<close>: the four error returns of \<^verbatim>\<open>BindwithFiles\<close>: when each is taken,
    what it leaves on the disk (\<open>BindwithFiles_cleanup_fails\<close>: an error although the
    output is complete), that every error is one of the four and is reproduced by
    the failed call in the state left behind (\<open>BindwithFiles_errors\<close>), and that its
    root is the error of a system call (\<open>BindwithFiles_cause\<close>).
  \<^item> \<open>Merge_Space\<close>: the loop of \<^verbatim>\<open>BindwithFiles\<close> once more, returning the file systems
    it produces in order, one after each \<^verbatim>\<open>io.Copy\<close> and one after each \<^verbatim>\<open>os.Remove\<close>
    (\<open>bind_states\<close>); the last of them is the one \<open>bind_loop\<close> returns
    (\<open>bind_states_last\<close>). The lemmas count the bytes on the disk (\<open>usage\<close>) in each of
    these states and give the largest count.
  \<^item> \<open>Utils\<close>: the interface \<^verbatim>\<open>Utils\<close> as a datatype \<open>call\<close> of its methods, the replies,
    and the dispatch \<open>Utils\<close> over a \<open>world\<close> of target, file system and platform;
    the frame of every call.
  \<^item> \<open>Worker_Pool\<close>: the workers as the specification describes them (\<open>fetch_range\<close>,
    \<open>download\<close>, in which each worker writes its whole answer at once); this code is
    not in \<^verbatim>\<open>src/util.go\<close>.
  \<^item> \<open>Job\<close>: the download as a concurrent job. A schedule is a list of events: a
    worker appends to its partial file, a worker's transport fails, the monitor ends
    one iteration (\<open>poll\<close> on what \<open>walk_of\<close> finds). The walk of an iteration is not
    atomic: it may have seen each partial file at any length the file had since the
    walk before (\<open>glimpse\<close>, with the lengths seen recorded in \<open>walked\<close>). \<open>job_step\<close> is
    one event, \<open>job_run\<close> a schedule, \<open>job_reachable\<close> the reachable states; the
    invariant \<open>job_inv\<close> is proved by rule induction. The theorems hold for every
    schedule and every such walk. The monitor of a job is \<^verbatim>\<open>ProgressBar\<close> run on what
    the polls observed (\<open>job_watcher_ProgressBar\<close>).
  \<^item> \<open>Pipeline\<close>: the lemmas that carry the facts of one component to the next: what
    the workers leave is what the merge asks for, the sequential download is one
    schedule of the job, what the setters of a session establish (\<open>session_target\<close>),
    and what the margin of \<^verbatim>\<open>IsFree\<close> is worth in the last iteration of the merge
    (\<open>merge_needs\<close>, \<open>admitted_but_short\<close>).
  \<^item> This theory: the components together. \<open>session_delivers\<close> follows a whole session
    through the interface, from \<^verbatim>\<open>URLFileName\<close> to \<^verbatim>\<open>BindwithFiles\<close>: the file named holds
    the remote file and nothing that existed is overwritten. \<open>job_then_merge\<close> states that after any
    interleaving of workers and monitor the merge that follows the monitor's
    completion signal reproduces the remote file; \<open>workers_returned_then_merge\<close> that
    the merge that follows the return of all workers does so too, whatever the
    monitor has done (the specification leaves open which of the two the merge
    waits for), but \<open>merge_kills_running_monitor\<close> that a monitor still running then
    dies at its next poll; \<open>download_then_merge\<close> states the same
    of the sequential download, which is one schedule of the job
    (\<open>download_is_schedule\<close>); \<open>merge_bar_full\<close> that the bar of the merge is advanced by
    exactly the file size; \<open>merge_outgrows_margin\<close> that a download which \<^verbatim>\<open>IsFree\<close> admits
    with no byte to spare needs, in the last iteration of the merge, the remainder of
    the division more than was free.

  \<^bold>\<open>Loops and their bounds.\<close> No definition uses fuel.
  \<^item> \<open>bind_loop\<close> and \<open>bind_loop_io\<close> end because \<open>procs - i\<close> decreases, \<open>url_scan\<close> because
    the index into the segments decreases until it leaves the slice (then the
    function panics).
  \<^item> \<open>uniq_loop\<close> has no bound in the source. It ends because the candidate names
    differ and the file system holds finitely many names; the measure is the number
    of existing candidates from the counter upwards (\<open>taken\<close>). The counter is an
    unbounded \<open>int\<close>: a wrap of Go's \<^verbatim>\<open>int\<close> would need \<open>2 ^ 63\<close> existing files.
  \<^item> \<^verbatim>\<open>ProgressBar\<close> may run forever. Its model consumes a list of observations, one
    per iteration, and the result says whether the function is still \<open>Running\<close>;
    \<open>ProgressBar_running_iff\<close> states exactly which lists end the loop, so the theorems
    that the function returns are proved for lists that hold an ending observation,
    never assumed.
  \<^item> A job has no bound either. \<open>job_run\<close> consumes a schedule, and \<open>job_can_finish\<close>
    shows that every schedule that leaves the monitor running can be continued to
    completion, while \<open>failed_worker_blocks\<close> shows when no continuation completes.
  \<^item> The bounds the job needs: the file size is below \<open>2 ^ 63\<close>, so that \<^verbatim>\<open>int64\<close> compares
    as the sizes do (\<open>ProgressBar_negative_filesize\<close> shows what happens above), and the
    workspace holds nothing at the start (\<open>foreign_file_early_done\<close> shows what happens
    otherwise).

  \<^bold>\<open>What the properties show.\<close> For each component: the result on the success path and
  on every error path; the invariant its operations keep; the agreement with its
  specification; the behaviour at the limits of the machine integers. The properties
  marked as findings in the manifest are behaviours of the code that the specification
  does not describe or describes differently: the chunk size \<open>0\<close>, the wrapping sum of
  \<^verbatim>\<open>IsFree\<close>, the ignored result of \<^verbatim>\<open>io.Copy\<close>, the nil dereference in the callback of
  \<^verbatim>\<open>subDirsize\<close>, the negative \<^verbatim>\<open>int64\<close> file size, the foreign file that counts as
  progress, the partial files removed while their handles are open, the margin of
  \<^verbatim>\<open>IsFree\<close> that is short of the remainder in the last iteration of the merge, and
  the panics and the dropped segment of the two functions that derive names.

  \<^bold>\<open>Not modelled.\<close>
  \<^item> What the progress bar draws (\<^verbatim>\<open>pb\<close>) and the sleep of 100 ms between polls: only
    the calls made on the bar are recorded.
  \<^item> The traversal inside \<^verbatim>\<open>filepath.Walk\<close>: what it finds at a poll is an input of
    the monitor, so the monitor's theorems hold for every file tree. \<open>walk_of\<close> gives
    this input for a state of the model, in the order of the entries and with a
    permission test on the root only; the order does not change the size
    (\<open>subDirsize_order\<close>, \<open>subDirsize_walk_of_order\<close>). In a job the walk of a poll sees each partial
    file at a length it had since the walk before (\<open>glimpse\<close>); a walk that overlaps
    the merge, and so sees files disappear, is not modelled: \<open>merge_kills_running_monitor\<close>
    is about a poll that starts after the merge has returned.
  \<^item> The file system has flat path names without symbolic links, permissions are a
    list of denied paths, and no other process changes it during one call. A disk
    has no capacity: no call fails for lack of space, so what a full disk does to a
    merge is stated as a count of bytes in the states the loop passes through
    (\<open>merge_peak\<close>, \<open>merge_outgrows_margin\<close>) and not as a run.
  \<^item> Channels: a send on \<^verbatim>\<open>ch.Err\<close> or \<^verbatim>\<open>ch.Done\<close> is recorded and the function goes
    on; that a send blocks until the orchestrator receives is not modelled.
  \<^item> What a failed transport leaves in the partial file beyond a prefix of the
    answer, and retries (the specification has none).
  \<^item> The command line and the orchestrator (\<^verbatim>\<open>runDownload\<close> of the specification):
    their code is not under \<^verbatim>\<open>src/\<close>, and the specification gives only the sequence
    size probe, \<^verbatim>\<open>IsFree\<close>, creation of the workspace, workers and monitor, merge. A
    definition of that sequence would have its properties by construction; the
    development proves the steps and their composition instead, with the calls the
    caller makes through the interface as hypotheses (\<open>session_delivers\<close>). That no
    workspace is created after a failed \<^verbatim>\<open>IsFree\<close> is therefore not a theorem here.
\<close>

section \<open>Properties of the pipeline\<close>

text \<open>
  Download and merge: let the worker count be positive, the chunk size be the
  file size divided by the worker count and not zero, and the remote file have the
  size recorded in the target. When every worker has fetched its range of
  \<^verbatim>\<open>MakeRange\<close> into its partial file, the output path may be written, nothing at or
  below the workspace is denied and the output is not inside the workspace, then
  \<^verbatim>\<open>BindwithFiles\<close> returns \<^verbatim>\<open>nil\<close> and the output file holds exactly the remote file;
  the workspace is gone and every other path is as it was before the download.
\<close>

lemma download_then_merge:
  assumes "procs \<noteq> 0" and "split = FileSize d div procs" and "split \<noteq> 0"
    and "length content = unat (FileSize d)"
    and "filename d \<notin> set (denied fs)" and "lookup fs (filename d) \<noteq> Some Dir"
    and "\<forall>q \<in> set (denied fs). \<not> doomed (dirname d) q"
    and "\<not> doomed (dirname d) (filename d)"
  shows "\<exists>fs'. BindwithFiles d (uint procs) (download d split procs content fs) = (None, fs') \<and>
           lookup fs' =
             (\<lambda>q. if q = filename d then Some (File content)
                  else if doomed (dirname d) q then None else lookup fs q)"
proof -
  let ?fs = "download d split procs content fs"
  have "\<exists>fs'. BindwithFiles d (uint procs) ?fs = (None, fs') \<and>
      lookup fs' = (\<lambda>q. if q = filename d then Some (File content)
                        else if doomed (dirname d) q then None else lookup ?fs q)"
    using assms
    by (intro merge_complete_parts [where split = split])
      (simp_all add: download_complete download_other)
  then show ?thesis by (auto simp: download_other fun_eq_iff)
qed

lemma download_then_merge_witness:
  "\<exists>fs'. BindwithFiles \<lparr>filename = ''f'', filesize = 10, dirname = ''_f.3''\<rparr> 3
       (download \<lparr>filename = ''f'', filesize = 10, dirname = ''_f.3''\<rparr> 3 3 ''0123456789''
          \<lparr>entries = [(''_f.3'', Dir), (''other'', File ''x'')], denied = []\<rparr>) = (None, fs') \<and>
     lookup fs' ''f'' = Some (File ''0123456789'') \<and> lookup fs' ''_f.3'' = None \<and>
     lookup fs' ''_f.3/f.3.2'' = None \<and> lookup fs' ''other'' = Some (File ''x'')"
proof -
  let ?d = "\<lparr>filename = ''f'', filesize = 10, dirname = ''_f.3''\<rparr>"
  let ?fs = "\<lparr>entries = [(''_f.3'', Dir), (''other'', File ''x'')], denied = []\<rparr>"
  have "\<exists>fs'. BindwithFiles ?d (uint (3 :: u64)) (download ?d 3 3 ''0123456789'' ?fs) = (None, fs') \<and>
      lookup fs' = (\<lambda>q. if q = filename ?d then Some (File ''0123456789'')
                        else if doomed (dirname ?d) q then None else lookup ?fs q)"
    by (rule download_then_merge) (simp_all add: FileSize_def lookup_def doomed_def under_def)
  moreover have "lookup ?fs ''other'' = Some (File ''x'')" by (simp add: lookup_def)
  ultimately show ?thesis by (auto simp: doomed_def under_def)
qed

text \<open>
  C1. Concurrent download and merge: let worker count, chunk size and remote file be
  as above, the file size be below \<open>2 ^ 63\<close>, and the workspace exist, be readable and
  hold nothing when the job starts. Whatever the order in which the workers write
  their pieces and the monitor polls, and whenever its walks looked at the files, once \<^verbatim>\<open>ProgressBar\<close> has signalled completion
  \<^verbatim>\<open>BindwithFiles\<close> returns \<^verbatim>\<open>nil\<close> and the output file holds exactly the remote file;
  the workspace is gone and every other path is as it was before the job.
\<close>

theorem job_then_merge:
  assumes "procs \<noteq> 0" and "split = FileSize d div procs" and "split \<noteq> 0"
    and "length content = unat (FileSize d)" and "unat (FileSize d) < 2 ^ 63"
    and "ready d fs"
    and "filename d \<notin> set (denied fs)" and "lookup fs (filename d) \<noteq> Some Dir"
    and "\<forall>q \<in> set (denied fs). \<not> doomed (dirname d) q"
    and "\<not> doomed (dirname d) (filename d)"
    and "job_run d (uint procs) content (ranges_of d split procs) es
           (job_start (ranges_of d split procs) fs) = Some s"
    and "ch_Done (watcher s) \<noteq> []"
  shows "\<exists>fs'. BindwithFiles d (uint procs) (disk s) = (None, fs') \<and>
           lookup fs' =
             (\<lambda>q. if q = filename d then Some (File content)
                  else if doomed (dirname d) q then None else lookup fs q)"
proof -
  note plan = plan_ok_ranges [OF assms(1-5)]
  have "\<forall>r \<in> set (ranges_of d split procs).
      lookup (disk s) (part_of d (uint procs) r) = Some (File (fetch_range content r))"
    using done_parts [OF plan job_run_inv [OF plan assms(6,11)] assms(12)] by blast
  with assms(1-4,7-11) show ?thesis by (rule merge_after_job)
qed

theorem job_then_merge_witness:
  "\<exists>fs'. BindwithFiles \<lparr>filename = ''f'', filesize = 10, dirname = ''_f.2''\<rparr> 2
       \<lparr>entries = [(''_f.2'', Dir), (''_f.2/f.2.1'', File ''56789''),
          (''_f.2/f.2.0'', File ''01234'')], denied = []\<rparr> = (None, fs') \<and>
     lookup fs' ''f'' = Some (File ''0123456789'') \<and> lookup fs' ''_f.2'' = None \<and>
     lookup fs' ''_f.2/f.2.0'' = None"
proof -
  let ?d = "\<lparr>filename = ''f'', filesize = 10, dirname = ''_f.2''\<rparr>"
  let ?fs = "\<lparr>entries = [(''_f.2'', Dir)], denied = []\<rparr>"
  let ?s = "\<lparr>disk = \<lparr>entries = [(''_f.2'', Dir), (''_f.2/f.2.1'', File ''56789''),
            (''_f.2/f.2.0'', File ''01234'')], denied = []\<rparr>,
          watcher = \<lparr>bar = [0, 5, 8, 10], bar_finished = True, ch_Err = [], ch_Done = [True],
            status = Returned\<rparr>, failed = [], walked = [5, 5]\<rparr>"
  have ranges: "ranges_of ?d 5 2 = [\<lparr>low = 0, high = 4, worker = 0\<rparr>, \<lparr>low = 5, high = 10, worker = 1\<rparr>]"
    by (simp add: ranges_of_def MakeRange_def FileSize_def upt_rec)
  have run: "job_run ?d (uint (2 :: u64)) ''0123456789'' (ranges_of ?d 5 2)
      [Poll False [0, 0], Write \<lparr>low = 5, high = 10, worker = 1\<rparr> 3,
       Write \<lparr>low = 0, high = 4, worker = 0\<rparr> 5, Poll False [2, 3],
       Write \<lparr>low = 5, high = 10, worker = 1\<rparr> 5, Poll False [5, 3], Poll False [5, 5]]
      (job_start (ranges_of ?d 5 2) ?fs) = Some ?s"
    unfolding ranges using example_run by simp
  have "\<exists>fs'. BindwithFiles ?d (uint (2 :: u64)) (disk ?s) = (None, fs') \<and>
      lookup fs' = (\<lambda>q. if q = filename ?d then Some (File ''0123456789'')
                        else if doomed (dirname ?d) q then None else lookup ?fs q)"
    by (rule job_then_merge [OF _ _ _ _ _ example_ready _ _ _ _ run])
      (simp_all add: FileSize_def lookup_def doomed_def under_def)
  then show ?thesis by (auto simp: doomed_def under_def)
qed

text \<open>
  C2. A session through the interface delivers the file: the caller names the target
  with \<^verbatim>\<open>URLFileName\<close>, records the size with \<^verbatim>\<open>SetFileSize\<close>, names the workspace with
  \<^verbatim>\<open>SetDirName\<close> after the file name chosen, and creates the workspace directory where
  nothing was before; the ranges are those of \<^verbatim>\<open>MakeRange\<close> for a positive worker
  count and the chunk size file size divided by worker count, not zero; the remote
  file has the recorded size, below \<open>2 ^ 63\<close>; no path the session writes is denied.
  Then, whatever the schedule of workers and monitor, once \<^verbatim>\<open>ProgressBar\<close> has
  signalled completion the call of \<^verbatim>\<open>BindwithFiles\<close> returns \<^verbatim>\<open>nil\<close>, the file named by
  \<^verbatim>\<open>URLFileName\<close> holds exactly the remote file, every file and directory that existed
  before the session is as it was (nothing is overwritten), and the workspace is
  gone.
\<close>

theorem session_delivers:
  assumes "run w [Call_URLFileName url, Call_SetFileSize n] = Returns (rs0, w0)"
    and "run w0 [Call_SetDirName path (filename (target w0)) (uint procs)] = Returns (rs1, w1)"
    and "procs \<noteq> 0" and "split = n div procs" and "split \<noteq> 0"
    and "length content = unat n" and "unat n < 2 ^ 63"
    and "\<forall>q. doomed (dirname (target w1)) q \<longrightarrow> lookup (files w) q = None"
    and "lookup fs1 = (lookup (files w))(dirname (target w1) \<mapsto> Dir)"
    and "denied fs1 = denied (files w)"
    and "\<forall>q \<in> set (denied (files w)). q \<noteq> filename (target w1) \<and> \<not> doomed (dirname (target w1)) q"
    and "job_run (target w1) (uint procs) content (ranges_of (target w1) split procs) es
           (job_start (ranges_of (target w1) split procs) fs1) = Some s"
    and "ch_Done (watcher s) \<noteq> []"
  shows "\<exists>w2. Utils (w1\<lparr>files := disk s\<rparr>) (Call_BindwithFiles (uint procs)) =
             Returns (Reply_error None, w2) \<and>
           lookup (files w2) (filename (target w1)) = Some (File content) \<and>
           (\<forall>q. lookup (files w) q \<noteq> None \<longrightarrow> lookup (files w2) q = lookup (files w) q) \<and>
           (\<forall>q. doomed (dirname (target w1)) q \<longrightarrow> lookup (files w2) q = None)"
proof -
  let ?d = "target w1"
  note named = session_target [OF assms(1,2)]
  have apart: "filename ?d \<noteq> dirname ?d" using named(4) by (auto simp: doomed_def)
  have "dirname ?d \<notin> set (denied fs1)" using assms(10,11) by (auto simp: doomed_def)
  with assms(8,9) have ready: "ready ?d fs1" by (intro created_ready) simp_all
  have size: "split = FileSize ?d div procs" "length content = unat (FileSize ?d)"
    "unat (FileSize ?d) < 2 ^ 63"
    using assms(4,6,7) by (simp_all add: named(2))
  note plan = plan_ok_ranges [OF assms(3) size(1) assms(5) size(2,3)]
  have parts: "\<forall>r \<in> set (ranges_of ?d split procs).
      lookup (disk s) (part_of ?d (uint procs) r) = Some (File (fetch_range content r))"
    using done_parts [OF plan job_run_inv [OF plan ready assms(12)] assms(13)] by blast
  have "filename ?d \<notin> set (denied fs1)" and "lookup fs1 (filename ?d) \<noteq> Some Dir"
    and "\<forall>q \<in> set (denied fs1). \<not> doomed (dirname ?d) q"
    using assms(9-11) named(3) apart by auto
  from merge_after_job [OF assms(3) size(1) assms(5) size(2) this named(4) assms(12) parts]
  obtain fs' where merged: "BindwithFiles ?d (uint procs) (disk s) = (None, fs')"
    and look: "lookup fs' = (\<lambda>q. if q = filename ?d then Some (File content)
                        else if doomed (dirname ?d) q then None else lookup fs1 q)"
    by blast
  have "lookup fs' q = lookup (files w) q" if "lookup (files w) q \<noteq> None" for q
    using that assms(8,9) named(3) by (auto simp: look doomed_def)
  moreover have "lookup fs' q = None" if "doomed (dirname ?d) q" for q
    using that named(4) by (auto simp: look)
  ultimately show ?thesis using merged by (simp add: look)
qed

theorem session_delivers_witness:
  "\<exists>w2. Utils \<lparr>target = \<lparr>filename = ''f-1'', filesize = 10, dirname = ''_f-1.2''\<rparr>,
        files = \<lparr>entries = [(''f'', File ''old''), (''_f-1.2'', Dir),
          (''_f-1.2/f-1.2.1'', File ''56789''), (''_f-1.2/f-1.2.0'', File ''01234'')],
          denied = []\<rparr>,
        host = \<lparr>goos = ''linux'', disk_free = (\<lambda>v. 100), home_dir = Inr ''/home/u''\<rparr>\<rparr>
       (Call_BindwithFiles 2) = Returns (Reply_error None, w2) \<and>
     lookup (files w2) ''f-1'' = Some (File ''0123456789'') \<and>
     lookup (files w2) ''f'' = Some (File ''old'') \<and> lookup (files w2) ''_f-1.2'' = None"
proof -
  let ?h = "\<lparr>goos = ''linux'', disk_free = (\<lambda>v. 100), home_dir = Inr ''/home/u''\<rparr>"
  let ?fs = "\<lparr>entries = [(''f'', File ''old'')], denied = []\<rparr>"
  let ?fs1 = "\<lparr>entries = [(''f'', File ''old''), (''_f-1.2'', Dir)], denied = []\<rparr>"
  let ?d = "\<lparr>filename = ''f-1'', filesize = 10, dirname = ''_f-1.2''\<rparr>"
  let ?w = "\<lparr>target = \<lparr>filename = [], filesize = 0, dirname = []\<rparr>, files = ?fs, host = ?h\<rparr>"
  let ?w0 = "\<lparr>target = \<lparr>filename = ''f-1'', filesize = 10, dirname = []\<rparr>, files = ?fs, host = ?h\<rparr>"
  let ?w1 = "\<lparr>target = ?d, files = ?fs, host = ?h\<rparr>"
  let ?s = "\<lparr>disk = \<lparr>entries = [(''f'', File ''old''), (''_f-1.2'', Dir),
            (''_f-1.2/f-1.2.1'', File ''56789''), (''_f-1.2/f-1.2.0'', File ''01234'')],
            denied = []\<rparr>,
          watcher = \<lparr>bar = [10], bar_finished = True, ch_Err = [], ch_Done = [True],
            status = Returned\<rparr>, failed = [], walked = [5, 5]\<rparr>"
  have name: "run ?w [Call_URLFileName ''http://example.com/f'', Call_SetFileSize 10] =
      Returns ([Reply_none, Reply_none], ?w0)"
    by (simp add: URLFileName_scan last_nonempty_def uniq_loop_eval lookup_def candidate_def
        itoa_eval pget_defs)
  have dir: "run ?w0 [Call_SetDirName [] (filename (target ?w0)) (uint (2 :: u64))] =
      Returns ([Reply_none], ?w1)"
    by (simp add: SetDirName_def itoa_eval)
  have ranges: "ranges_of ?d 5 2 = [\<lparr>low = 0, high = 4, worker = 0\<rparr>, \<lparr>low = 5, high = 10, worker = 1\<rparr>]"
    by (simp add: ranges_of_def MakeRange_def FileSize_def upt_rec)
  have job: "job_run (target ?w1) (uint (2 :: u64)) ''0123456789'' (ranges_of (target ?w1) 5 2)
      [Write \<lparr>low = 5, high = 10, worker = 1\<rparr> 5, Write \<lparr>low = 0, high = 4, worker = 0\<rparr> 5,
       Poll False [5, 5]]
      (job_start (ranges_of (target ?w1) 5 2) ?fs1) = Some ?s"
    by (simp add: ranges job_eval)
  have "\<exists>w2. Utils (?w1\<lparr>files := disk ?s\<rparr>) (Call_BindwithFiles (uint (2 :: u64))) =
        Returns (Reply_error None, w2) \<and>
      lookup (files w2) (filename (target ?w1)) = Some (File ''0123456789'') \<and>
      (\<forall>q. lookup (files ?w) q \<noteq> None \<longrightarrow> lookup (files w2) q = lookup (files ?w) q) \<and>
      (\<forall>q. doomed (dirname (target ?w1)) q \<longrightarrow> lookup (files w2) q = None)"
    by (rule session_delivers [OF name dir _ _ _ _ _ _ _ _ _ job])
      (simp_all add: lookup_def doomed_def under_def fun_eq_iff)
  moreover have "lookup ?fs ''f'' \<noteq> None" by (simp add: lookup_def)
  ultimately show ?thesis by (auto simp: doomed_def lookup_def)
qed

text \<open>
  C16. Merging before the monitor has signalled kills the monitor: let the job be as
  above, and let the merge start when every worker has written its whole answer but
  the monitor is still running (the orchestrator of the specification waits for the
  workers; whether it also waits for the monitor is left open there). The merge
  succeeds and removes the workspace. A poll of the monitor that comes after it and
  does not find the context cancelled walks a directory that is gone, and
  \<^verbatim>\<open>ProgressBar\<close> dies with a nil dereference in the callback of \<^verbatim>\<open>subDirsize\<close>.
\<close>

theorem merge_kills_running_monitor:
  assumes "procs \<noteq> 0" and "split = FileSize d div procs" and "split \<noteq> 0"
    and "length content = unat (FileSize d)" and "unat (FileSize d) < 2 ^ 63"
    and "ready d fs"
    and "filename d \<notin> set (denied fs)" and "lookup fs (filename d) \<noteq> Some Dir"
    and "\<forall>q \<in> set (denied fs). \<not> doomed (dirname d) q"
    and "\<not> doomed (dirname d) (filename d)"
    and "job_run d (uint procs) content (ranges_of d split procs) es
           (job_start (ranges_of d split procs) fs) = Some s"
    and "\<forall>r \<in> set (ranges_of d split procs).
           written d (uint procs) (disk s) r = length (fetch_range content r)"
    and "status (watcher s) = Running"
  shows "\<exists>fs'. BindwithFiles d (uint procs) (disk s) = (None, fs') \<and>
           monitor_step d (observe False fs') (watcher s)
             ((watcher s)\<lparr>status := Panicked nil_dereference\<rparr>)"
proof -
  from workers_returned_then_merge [OF assms(1-12)] obtain fs' where
    merged: "BindwithFiles d (uint procs) (disk s) = (None, fs')"
    and look: "lookup fs' = (\<lambda>q. if q = filename d then Some (File content)
                        else if doomed (dirname d) q then None else lookup fs q)"
    by blast
  have "lookup fs' (dirname d) = None"
    using assms(10) by (auto simp: look doomed_def)
  then have "subDirsize (tree (observe False fs')) d (dirname d) = Panics nil_dereference"
    by (simp add: observe_def subDirsize_walk_of_missing)
  with assms(13) have "monitor_step d (observe False fs') (watcher s)
      ((watcher s)\<lparr>status := Panicked nil_dereference\<rparr>)"
    by (intro monitor_step.died) (simp_all add: observe_def)
  with merged show ?thesis by blast
qed

theorem merge_kills_running_monitor_witness:
  "\<exists>fs'. BindwithFiles \<lparr>filename = ''f'', filesize = 10, dirname = ''_f.2''\<rparr> 2
       \<lparr>entries = [(''_f.2'', Dir), (''_f.2/f.2.1'', File ''56789''),
          (''_f.2/f.2.0'', File ''01234'')], denied = []\<rparr> = (None, fs') \<and>
     monitor_step \<lparr>filename = ''f'', filesize = 10, dirname = ''_f.2''\<rparr> (observe False fs')
       \<lparr>bar = [0], bar_finished = False, ch_Err = [], ch_Done = [], status = Running\<rparr>
       \<lparr>bar = [0], bar_finished = False, ch_Err = [], ch_Done = [],
          status = Panicked nil_dereference\<rparr>"
proof -
  let ?d = "\<lparr>filename = ''f'', filesize = 10, dirname = ''_f.2''\<rparr>"
  let ?fs = "\<lparr>entries = [(''_f.2'', Dir)], denied = []\<rparr>"
  let ?s = "\<lparr>disk = \<lparr>entries = [(''_f.2'', Dir), (''_f.2/f.2.1'', File ''56789''),
            (''_f.2/f.2.0'', File ''01234'')], denied = []\<rparr>,
          watcher = \<lparr>bar = [0], bar_finished = False, ch_Err = [], ch_Done = [],
            status = Running\<rparr>, failed = [], walked = [0, 0]\<rparr>"
  have ranges: "ranges_of ?d 5 2 = [\<lparr>low = 0, high = 4, worker = 0\<rparr>, \<lparr>low = 5, high = 10, worker = 1\<rparr>]"
    by (simp add: ranges_of_def MakeRange_def FileSize_def upt_rec)
  have run: "job_run ?d (uint (2 :: u64)) ''0123456789'' (ranges_of ?d 5 2)
      [Poll False [0, 0], Write \<lparr>low = 5, high = 10, worker = 1\<rparr> 5,
       Write \<lparr>low = 0, high = 4, worker = 0\<rparr> 5]
      (job_start (ranges_of ?d 5 2) ?fs) = Some ?s"
    unfolding ranges by (simp add: job_eval)
  have "\<exists>fs'. BindwithFiles ?d (uint (2 :: u64)) (disk ?s) = (None, fs') \<and>
      monitor_step ?d (observe False fs') (watcher ?s)
        ((watcher ?s)\<lparr>status := Panicked nil_dereference\<rparr>)"
    by (rule merge_kills_running_monitor [OF _ _ _ _ _ example_ready _ _ _ _ run])
      (simp_all add: FileSize_def lookup_def doomed_def under_def ranges job_eval)
  then show ?thesis by simp
qed

text \<open>
  C22. The margin of \<^verbatim>\<open>IsFree\<close> and the space of the merge: let the worker count be
  positive, the chunk size be the file size divided by the worker count and not
  zero, the remote file have the size recorded in the target, the workspace hold
  nothing and the output not exist, and let the free space be exactly what \<^verbatim>\<open>IsFree\<close>
  asks for, file size plus chunk size. Then \<^verbatim>\<open>IsFree\<close> returns \<^verbatim>\<open>nil\<close>. After the workers have fetched their ranges
  \<^verbatim>\<open>os.Create\<close> of the output succeeds, and of the states the loop of \<^verbatim>\<open>BindwithFiles\<close>
  passes through the largest holds the bytes the disk held before the download, as
  many bytes as were free, and the remainder of the division of the file size by the
  worker count in addition: the last partial file, a chunk and the remainder long,
  is on the disk twice after its \<^verbatim>\<open>io.Copy\<close>. In the witness 13 bytes are free for a
  file of 10 bytes and 3 workers, and the disk holds 14 bytes more than before.
\<close>

theorem merge_outgrows_margin:
  assumes "procs \<noteq> 0" and "split = FileSize d div procs" and "split \<noteq> 0"
    and "length content = unat (FileSize d)"
    and "wf_fs fs" and "\<forall>q. under (dirname d) q \<longrightarrow> lookup fs q = None"
    and "\<forall>q \<in> set (denied fs). \<not> doomed (dirname d) q"
    and "filename d \<notin> set (denied fs)" and "lookup fs (filename d) = None"
    and "\<not> doomed (dirname d) (filename d)"
    and free: "unat (freeSpace pf d) = unat (filesize d) + unat split"
  shows "IsFree pf d split = None \<and>
         (\<exists>fs1. os_Create (download d split procs content fs) (filename d) = Inr fs1 \<and>
            Max (set (map usage (fs1 # bind_states d (uint procs) 0 fs1))) =
              usage fs + unat (freeSpace pf d) + unat (FileSize d mod procs))"
proof -
  let ?fs = "download d split procs content fs"
  have "unat (filesize d) + unat split < 18446744073709551616"
    using u64_bound [of "freeSpace pf d"] free by simp
  then have admitted: "IsFree pf d split = None" using free by (simp add: IsFree_None_nat)
  from download_created [OF assms(8-10,5)] obtain fs1 where
    cr: "os_Create ?fs (filename d) = Inr fs1"
    and l1: "lookup fs1 = (lookup ?fs)(filename d \<mapsto> File [])"
    and d1: "denied fs1 = denied fs" and wf1: "wf_fs fs1" and u1: "usage fs1 = usage ?fs"
    by blast
  have parts: "\<forall>r \<in> set (ranges_of d split procs).
      lookup fs1 (part_of d (uint procs) r) = Some (File (fetch_range content r))"
    using assms(10) doomed_partial_path [of d "uint procs"]
    by (auto simp: l1 download_complete simp del: doomed_partial_path) (auto simp: part_of_def)
  have "Max (set (map usage (fs1 # bind_states d (uint procs) 0 fs1))) =
      usage fs1 + unat split + unat (FileSize d mod procs)"
    using assms(7) by (intro merge_needs [OF assms(1-4) parts]) (simp_all add: d1 wf1 l1)
  with admitted cr u1 usage_download [OF assms(1-4,6)] free show ?thesis
    by (simp add: FileSize_def)
qed

theorem merge_outgrows_margin_witness:
  "IsFree \<lparr>goos = ''linux'', disk_free = (\<lambda>v. 13), home_dir = Inr ''/home/u''\<rparr>
     \<lparr>filename = ''f'', filesize = 10, dirname = ''_f.3''\<rparr> 3 = None \<and>
   (\<exists>fs1. os_Create (download \<lparr>filename = ''f'', filesize = 10, dirname = ''_f.3''\<rparr> 3 3
        ''0123456789'' \<lparr>entries = [(''_f.3'', Dir), (''other'', File ''xy'')], denied = []\<rparr>)
        ''f'' = Inr fs1 \<and>
      Max (set (map usage (fs1 #
        bind_states \<lparr>filename = ''f'', filesize = 10, dirname = ''_f.3''\<rparr> 3 0 fs1))) = 16)"
  using merge_outgrows_margin [where procs = 3 and split = 3
      and d = "\<lparr>filename = ''f'', filesize = 10, dirname = ''_f.3''\<rparr>"
      and content = "''0123456789''"
      and fs = "\<lparr>entries = [(''_f.3'', Dir), (''other'', File ''xy'')], denied = []\<rparr>"
      and pf = "\<lparr>goos = ''linux'', disk_free = (\<lambda>v. 13), home_dir = Inr ''/home/u''\<rparr>"]
  by (simp add: FileSize_def wf_fs_def lookup_def under_def doomed_def freeSpace_def isDos_def
      usage_def)

text \<open>
  The workers may finish in any order: two runs of the workers over the same
  ranges, taken in different orders, leave the same files behind, provided no two
  ranges belong to the same worker. This holds because \<open>partial_path\<close> gives different
  workers different names.
\<close>

lemma workers_order_irrelevant:
  assumes "set rs = set rs'" and "distinct (map worker rs)" and "distinct (map worker rs')"
  shows "lookup (run_workers d procs content rs fs) = lookup (run_workers d procs content rs' fs)"
proof
  fix q
  show "lookup (run_workers d procs content rs fs) q = lookup (run_workers d procs content rs' fs) q"
  proof (cases "q \<in> part_of d procs ` set rs")
    case True
    then obtain r where "r \<in> set rs" and "q = part_of d procs r" by auto
    with assms show ?thesis by (simp add: lookup_run_workers_part)
  next
    case False
    with assms(1) show ?thesis by (simp add: lookup_run_workers_other)
  qed
qed

lemma workers_order_irrelevant_witness:
  "lookup (run_workers \<lparr>filename = ''f'', filesize = 10, dirname = ''_f.3''\<rparr> 3 ''0123456789''
       (ranges_of \<lparr>filename = ''f'', filesize = 10, dirname = ''_f.3''\<rparr> 3 3)
       \<lparr>entries = [], denied = []\<rparr>) =
   lookup (run_workers \<lparr>filename = ''f'', filesize = 10, dirname = ''_f.3''\<rparr> 3 ''0123456789''
       (rev (ranges_of \<lparr>filename = ''f'', filesize = 10, dirname = ''_f.3''\<rparr> 3 3))
       \<lparr>entries = [], denied = []\<rparr>)"
  using workers_order_irrelevant
    [of "ranges_of \<lparr>filename = ''f'', filesize = 10, dirname = ''_f.3''\<rparr> 3 3"
        "rev (ranges_of \<lparr>filename = ''f'', filesize = 10, dirname = ''_f.3''\<rparr> 3 3)"]
  by (simp add: distinct_workers distinct_rev rev_map [symmetric])

text \<open>
  The monitor sees the download complete: let the workspace directory exist, be
  readable and hold nothing before the workers start, and let worker count, chunk
  size and remote file be as in the download. When the monitor, after observations
  that were quiet, polls the file system the workers have left, \<^verbatim>\<open>subDirsize\<close> returns
  the file size, and \<^verbatim>\<open>ProgressBar\<close> sets the bar to the file size, finishes it, signals
  completion once and returns.
\<close>

lemma monitor_sees_download:
  assumes "procs \<noteq> 0" and "split = FileSize d div procs" and "split \<noteq> 0"
    and "length content = unat (FileSize d)"
    and "lookup fs (dirname d) = Some Dir" and "dirname d \<notin> set (denied fs)"
    and "below fs (dirname d) = []" and "list_all (quiet d) pre"
  shows "ProgressBar d (pre @ observe False (download d split procs content fs) # post) =
           \<lparr>bar = map (\<lambda>ob. seen (probe d ob)) pre @ [int64 (filesize d)], bar_finished = True,
            ch_Err = [], ch_Done = [True], status = Returned\<rparr>"
proof -
  let ?fs = "download d split procs content fs"
  have "lookup ?fs (dirname d) = Some Dir"
    using assms(5) unfolding download_def
    by (subst lookup_run_workers_other) (auto simp: part_of_def)
  moreover have "bytes_below ?fs (dirname d) = unat (filesize d)"
    using assms(1-4) by (simp add: bytes_below_download [OF assms(7)] ranges_concat FileSize_def)
  ultimately have "probe d (observe False ?fs) = Returns (int64 (filesize d), None)"
    using assms(6) by (simp add: probe_def observe_def subDirsize_walk_of int64_def)
  then show ?thesis
    using assms(8)
    by (simp add: ProgressBar_def poll_loop_last poll_complete started_def observe_def)
qed

lemma monitor_sees_download_witness:
  "ProgressBar \<lparr>filename = ''f'', filesize = 10, dirname = ''_f.3''\<rparr>
     [observe False \<lparr>entries = [(''_f.3'', Dir)], denied = []\<rparr>,
      observe False (download \<lparr>filename = ''f'', filesize = 10, dirname = ''_f.3''\<rparr> 3 3
        ''0123456789'' \<lparr>entries = [(''_f.3'', Dir)], denied = []\<rparr>)] =
     \<lparr>bar = [0, 10], bar_finished = True, ch_Err = [], ch_Done = [True], status = Returned\<rparr>"
  using monitor_sees_download [of 3 3 "\<lparr>filename = ''f'', filesize = 10, dirname = ''_f.3''\<rparr>"
      "''0123456789''" "\<lparr>entries = [(''_f.3'', Dir)], denied = []\<rparr>"
      "[observe False \<lparr>entries = [(''_f.3'', Dir)], denied = []\<rparr>]" "[]"]
  by (simp add: FileSize_def lookup_def below_def under_def quiet_def probe_def observe_def
      subDirsize_walk_of bytes_below_def int64_def word_sless_alt)

end
